(* ===== verification/Prelude.thy ===== *)
theory Prelude
  imports Complex_Main "HOL-Library.List_Lexorder" "HOL-Library.Char_ord"
begin

text \<open>
  Shared vocabulary of the development: the names of the basic value types, the
  relational-table helpers (first matching row, conditional update of rows, pages of an
  ordered result) and the generic lemmas the component theories rewrite with.

  The collection \<open>row_simps\<close> holds the equations about table helpers that component
  proofs add to the simplifier.
\<close>

named_theorems row_simps

type_synonym instant = int
type_synonym seconds = int
type_synonym ident = string

text \<open>
  Instants are UTC seconds since the epoch, the resolution of the \<open>DATETIME\<close> columns.
  Identifiers (UUIDs, session ids, hashes) are strings.
\<close>

subsection \<open>Rows of a table\<close>

definition update_where :: "('a \<Rightarrow> bool) \<Rightarrow> ('a \<Rightarrow> 'a) \<Rightarrow> 'a list \<Rightarrow> 'a list" where
  "update_where P f rows = map (\<lambda>r. if P r then f r else r) rows"

definition page_of :: "nat \<Rightarrow> nat \<Rightarrow> 'a list \<Rightarrow> 'a list" where
  "page_of limit offset rows = take limit (drop offset rows)"

lemma length_update_where [row_simps, simp]: "length (update_where P f rows) = length rows"
  by (simp add: update_where_def)

lemma update_where_Nil [row_simps, simp]: "update_where P f [] = []"
  by (simp add: update_where_def)

lemma set_update_where:
  "set (update_where P f rows) = f ` {r \<in> set rows. P r} \<union> {r \<in> set rows. \<not> P r}"
  by (auto simp: update_where_def)

lemma in_update_where:
  "r' \<in> set (update_where P f rows) \<longleftrightarrow>
     (\<exists>r \<in> set rows. r' = (if P r then f r else r))"
  by (auto simp: update_where_def)

lemma map_update_where:
  assumes "\<And>r. key (f r) = key r"
  shows "map key (update_where P f rows) = map key rows"
  using assms by (simp add: update_where_def)

lemma image_update_where:
  "(\<And>r. key (f r) = key r) \<Longrightarrow> key ` set (update_where P f rows) = key ` set rows"
  by (metis list.set_map map_update_where)

lemma update_where_cong:
  "(\<And>r. r \<in> set rows \<Longrightarrow> P r = Q r) \<Longrightarrow> update_where P f rows = update_where Q f rows"
  by (simp add: update_where_def)

lemma update_where_none: "(\<And>r. r \<in> set rows \<Longrightarrow> \<not> P r) \<Longrightarrow> update_where P f rows = rows"
  by (simp add: update_where_def map_idI)

lemma filter_update_where:
  assumes "\<And>r. Q (f r) = Q r"
  shows "filter Q (update_where P f rows) = update_where P f (filter Q rows)"
  using assms by (induction rows) (auto simp: update_where_def)

subsection \<open>First matching row\<close>

lemma find_SomeD: "List.find P xs = Some x \<Longrightarrow> x \<in> set xs \<and> P x"
  by (auto simp: find_Some_iff)

lemma find_key_unique:
  assumes "distinct (map key xs)" and "x \<in> set xs" and "key x = k"
  shows "List.find (\<lambda>r. key r = k) xs = Some x"
proof -
  from assms(2,3) have "List.find (\<lambda>r. key r = k) xs \<noteq> None"
    by (auto simp: find_None_iff)
  then obtain y where y: "List.find (\<lambda>r. key r = k) xs = Some y" by auto
  then have "y \<in> set xs" and "key y = k" by (auto dest: find_SomeD)
  with assms have "y = x" by (auto simp: distinct_map dest: inj_onD)
  with y show ?thesis by simp
qed

lemma find_key_iff:
  assumes "distinct (map key xs)"
  shows "List.find (\<lambda>r. key r = k) xs = Some x \<longleftrightarrow> x \<in> set xs \<and> key x = k"
  using find_key_unique [OF assms] by (auto dest: find_SomeD)

lemma find_update_where:
  assumes "\<And>r. key (f r) = key r"
  shows "List.find (\<lambda>r. key r = k) (update_where P f xs) =
    map_option (\<lambda>r. if P r then f r else r) (List.find (\<lambda>r. key r = k) xs)"
  using assms by (induction xs) (auto simp: update_where_def)

text \<open>\<^verbatim>\<open>SELECT ... WHERE key = k\<close>, first row (\<^verbatim>\<open>session.scalar\<close>).\<close>

definition find_by :: "('a \<Rightarrow> 'k) \<Rightarrow> 'a list \<Rightarrow> 'k \<Rightarrow> 'a option" where
  "find_by key rows k = List.find (\<lambda>r. key r = k) rows"

lemma find_by_SomeD: "find_by key rows k = Some r \<Longrightarrow> r \<in> set rows \<and> key r = k"
  by (auto simp: find_by_def dest: find_SomeD)

lemma find_by_None_iff: "find_by key rows k = None \<longleftrightarrow> k \<notin> key ` set rows"
  by (auto simp: find_by_def find_None_iff)

lemma find_by_NoneD: "find_by key rows k = None \<Longrightarrow> k \<notin> key ` set rows"
  by (rule iffD1 [OF find_by_None_iff])

lemma find_by_iff:
  "distinct (map key rows) \<Longrightarrow> find_by key rows k = Some r \<longleftrightarrow> r \<in> set rows \<and> key r = k"
  by (simp add: find_by_def find_key_iff)

lemma find_append:
  "List.find P (xs @ ys) = (case List.find P xs of None \<Rightarrow> List.find P ys | Some x \<Rightarrow> Some x)"
  by (induction xs) auto

subsection \<open>Pages\<close>

lemma set_page_of: "set (page_of limit offset rows) \<subseteq> set rows"
  by (auto simp: page_of_def dest: in_set_takeD in_set_dropD)

lemma length_page_of: "length (page_of limit offset rows) = min limit (length rows - offset)"
  by (simp add: page_of_def)

lemma concat_pages:
  "concat (map (\<lambda>k. page_of limit (k * limit) rows) [0..<n]) = take (n * limit) rows"
proof (induction n)
  case 0
  then show ?case by simp
next
  case (Suc n)
  have "take (limit + n * limit) rows = take (n * limit) rows @ take limit (drop (n * limit) rows)"
    by (simp only: add.commute [of limit] take_add)
  with Suc show ?case by (simp add: page_of_def)
qed

lemma sorted_page_of:
  "sorted (map key rows) \<Longrightarrow> sorted (map key (page_of limit offset rows))"
  by (simp add: page_of_def take_map [symmetric] drop_map [symmetric] sorted_wrt_take
      sorted_wrt_drop)

end
