(* ===== verification/Errors.thy ===== *)
theory Errors
  imports Prelude
begin

text \<open>
  The exceptions the program raises (\<^verbatim>\<open>app/core/exceptions.py\<close>, the limiter's
  \<^verbatim>\<open>RateLimitExceeded\<close>, the \<^verbatim>\<open>HTTPException\<close>s raised by the parcel router, request
  validation errors, start-up \<^verbatim>\<open>RuntimeError\<close>s and errors of the database driver and of
  the exchange-rate request), the JSON values of responses, and the exception handlers of
  \<^verbatim>\<open>app/api/errors.py\<close>.  A fallible operation returns \<open>'a result\<close>: \<open>Inl\<close> is a
  raised exception; \<open>UnexpectedError\<close> is any other Python exception (\<^verbatim>\<open>KeyError\<close>,
  \<^verbatim>\<open>decimal.InvalidOperation\<close>).  A JSON number with a fraction or exponent is held by
  its Python text \<^verbatim>\<open>str(x)\<close>.
\<close>

datatype json =
    JNull
  | JBool bool
  | JInt int
  | JFloat string
  | JStr string
  | JArr "json list"
  | JObj "(string \<times> json) list"

datatype exc =
    BusinessError string
  | NotFoundError string
  | UnauthorizedError string
  | ForbiddenError string
  | RateLimitExceeded string
  | HTTPException nat string
  | RequestValidationError "json list"
  | RuntimeError string
  | DatabaseError string
  | HttpClientError string
  | UnexpectedError string

type_synonym 'a result = "exc + 'a"

definition bind_result :: "'a result \<Rightarrow> ('a \<Rightarrow> 'b result) \<Rightarrow> 'b result" where
  "bind_result r f = (case r of Inl e \<Rightarrow> Inl e | Inr x \<Rightarrow> f x)"

lemma bind_result_simps [simp]:
  "bind_result (Inl e) f = Inl e"
  "bind_result (Inr x) f = f x"
  by (simp_all add: bind_result_def)

lemma bind_result_eq_Inr:
  "bind_result r f = Inr y \<longleftrightarrow> (\<exists>x. r = Inr x \<and> f x = Inr y)"
  by (cases r) auto

subsection \<open>Exception handlers\<close>

record response =
  status_code :: nat
  content :: json

definition error_response :: "string \<Rightarrow> string \<Rightarrow> json list option \<Rightarrow> nat \<Rightarrow> response" where
  "error_response code message details status =
     \<lparr>status_code = status,
      content = JObj [(''code'', JStr code), (''message'', JStr message),
        (''details'', (case details of None \<Rightarrow> JNull | Some ds \<Rightarrow> JArr ds))]\<rparr>"

definition internal_error_handler :: "exc \<Rightarrow> response" where
  "internal_error_handler e =
     error_response ''internal_error'' ''Unexpected server error'' None 500"

definition validation_exception_handler :: "exc \<Rightarrow> response" where
  "validation_exception_handler e =
     (case e of
        RequestValidationError errs \<Rightarrow>
          error_response ''validation_error'' ''Payload validation failed'' (Some errs) 422
      | _ \<Rightarrow> internal_error_handler e)"

definition business_error_handler :: "string \<Rightarrow> response" where
  "business_error_handler msg = error_response ''business_error'' msg None 400"

definition not_found_error_handler :: "string \<Rightarrow> response" where
  "not_found_error_handler msg = error_response ''not_found'' msg None 404"

definition unauthorized_error_handler :: "string \<Rightarrow> response" where
  "unauthorized_error_handler msg = error_response ''unauthorized'' msg None 401"

definition forbidden_error_handler :: "string \<Rightarrow> response" where
  "forbidden_error_handler msg = error_response ''forbidden'' msg None 403"

definition rate_limit_exceeded_handler :: "string \<Rightarrow> response" where
  "rate_limit_exceeded_handler detail =
     \<lparr>status_code = 429,
      content = JObj [(''error'', JStr (''Rate limit exceeded: '' @ detail))]\<rparr>"

text \<open>
  The table built by \<^verbatim>\<open>register_exception_handlers\<close> (and by \<^verbatim>\<open>app/main.py\<close> for the
  limiter).  \<^verbatim>\<open>HTTPException\<close> keeps the framework's documented default body
  \<^verbatim>\<open>{"detail": ...}\<close>; every other exception falls to the handler of \<^verbatim>\<open>Exception\<close>.
\<close>

fun handle_exception :: "exc \<Rightarrow> response" where
  "handle_exception (BusinessError msg) = business_error_handler msg"
| "handle_exception (NotFoundError msg) = not_found_error_handler msg"
| "handle_exception (UnauthorizedError msg) = unauthorized_error_handler msg"
| "handle_exception (ForbiddenError msg) = forbidden_error_handler msg"
| "handle_exception (RateLimitExceeded detail) = rate_limit_exceeded_handler detail"
| "handle_exception (RequestValidationError errs) =
     validation_exception_handler (RequestValidationError errs)"
| "handle_exception (HTTPException code detail) =
     \<lparr>status_code = code, content = JObj [(''detail'', JStr detail)]\<rparr>"
| "handle_exception e = internal_error_handler e"

lemmas handler_defs = error_response_def internal_error_handler_def
  validation_exception_handler_def business_error_handler_def not_found_error_handler_def
  unauthorized_error_handler_def forbidden_error_handler_def rate_limit_exceeded_handler_def

lemma handle_exception_status [simp]:
  "status_code (handle_exception (BusinessError m)) = 400"
  "status_code (handle_exception (NotFoundError m)) = 404"
  "status_code (handle_exception (UnauthorizedError m)) = 401"
  "status_code (handle_exception (ForbiddenError m)) = 403"
  "status_code (handle_exception (RateLimitExceeded m)) = 429"
  "status_code (handle_exception (RequestValidationError errs)) = 422"
  "status_code (handle_exception (HTTPException c m)) = c"
  "status_code (handle_exception (RuntimeError m)) = 500"
  "status_code (handle_exception (DatabaseError m)) = 500"
  "status_code (handle_exception (HttpClientError m)) = 500"
  "status_code (handle_exception (UnexpectedError m)) = 500"
  by (simp_all add: handler_defs)

end
