(* ===== verification/Decimals.thy ===== *)
theory Decimals
  imports Prelude
begin

text \<open>
  Python's \<^verbatim>\<open>decimal.Decimal\<close> (finite values) as the program uses it: a sign, a coefficient
  and an exponent, with the arithmetic of the default context (28 significant digits,
  \<^verbatim>\<open>ROUND_HALF_EVEN\<close>), numeric comparison, and the conversions \<^verbatim>\<open>str(d)\<close> and
  \<^verbatim>\<open>Decimal(s)\<close>.  \<open>dec_val\<close> is the rational number a \<^verbatim>\<open>Decimal\<close> stands for; two
  representations may have the same value (\<^verbatim>\<open>1.2\<close> and \<^verbatim>\<open>1.200\<close>), so the order on
  decimals is a preorder.
\<close>

datatype decimal = Dec (dec_neg: bool) (dec_coeff: nat) (dec_exp: int)

definition dec_int :: "decimal \<Rightarrow> int" where
  "dec_int d = (if dec_neg d then - int (dec_coeff d) else int (dec_coeff d))"

definition dec_val :: "decimal \<Rightarrow> rat" where
  "dec_val d = of_int (dec_int d) * 10 powi dec_exp d"

fun ndigits :: "nat \<Rightarrow> nat" where
  "ndigits n = (if n < 10 then 1 else Suc (ndigits (n div 10)))"

declare ndigits.simps [simp del]

definition context_prec :: nat where
  "context_prec = 28"

definition round_half_even :: "nat \<Rightarrow> nat \<Rightarrow> nat" where
  "round_half_even c k =
     (let q = c div 10 ^ k; r = c mod 10 ^ k
      in if 2 * r > 10 ^ k \<or> (2 * r = 10 ^ k \<and> odd q) then q + 1 else q)"

text \<open>The context's rounding of an exact result with sign, coefficient and exponent.\<close>

definition dec_fix :: "bool \<Rightarrow> nat \<Rightarrow> int \<Rightarrow> decimal" where
  "dec_fix s c e =
     (if ndigits c \<le> context_prec then Dec s c e
      else let k = ndigits c - context_prec; q = round_half_even c k
           in if q = 10 ^ context_prec then Dec s (10 ^ (context_prec - 1)) (e + int k + 1)
              else Dec s q (e + int k))"

instantiation decimal :: "{plus, times, preorder}"
begin

definition times_decimal_def:
  "a * b = dec_fix (dec_neg a \<noteq> dec_neg b) (dec_coeff a * dec_coeff b) (dec_exp a + dec_exp b)"

definition plus_decimal_def:
  "a + b =
     (let e = min (dec_exp a) (dec_exp b);
          s = dec_int a * 10 ^ nat (dec_exp a - e) + dec_int b * 10 ^ nat (dec_exp b - e)
      in dec_fix (if s = 0 then dec_neg a \<and> dec_neg b else s < 0) (nat \<bar>s\<bar>) e)"

definition less_eq_decimal_def: "a \<le> b \<longleftrightarrow> dec_val a \<le> dec_val b"

definition less_decimal_def: "a < b \<longleftrightarrow> dec_val a < dec_val b"

instance
  by standard (auto simp: less_eq_decimal_def less_decimal_def)

end

abbreviation dec_zero :: decimal where
  "dec_zero \<equiv> Dec False 0 0"

lemma dec_val_Dec: "dec_val (Dec s c e) = (if s then - of_nat c else of_nat c) * 10 powi e"
  by (simp add: dec_val_def dec_int_def)

lemma dec_val_zero [simp]: "dec_val (Dec s 0 e) = 0"
  by (simp add: dec_val_Dec)

lemma dec_val_eq: "dec_val d = (if dec_neg d then -1 else 1) * of_nat (dec_coeff d) * 10 powi dec_exp d"
  by (cases d) (simp add: dec_val_Dec)

subsection \<open>Digits\<close>

lemma ndigits_pos: "0 < ndigits n"
  by (subst ndigits.simps) simp

lemma ndigits_le_iff: "0 < k \<Longrightarrow> ndigits n \<le> k \<longleftrightarrow> n < 10 ^ k"
proof (induction n arbitrary: k rule: ndigits.induct)
  case (1 n)
  show ?case
  proof (cases "n < 10")
    case True
    moreover have "(10::nat) ^ 1 \<le> 10 ^ k"
      using "1.prems" by (intro power_increasing) auto
    ultimately show ?thesis
      using "1.prems" by (subst ndigits.simps) auto
  next
    case False
    show ?thesis
    proof (cases "k = 1")
      case True
      have "0 < ndigits (n div 10)" by (rule ndigits_pos)
      with False True show ?thesis by (subst ndigits.simps) auto
    next
      case k: False
      then obtain k' where k': "k = Suc k'" "0 < k'"
        using "1.prems" by (cases k) auto
      have "ndigits n \<le> k \<longleftrightarrow> ndigits (n div 10) \<le> k'"
        using False by (subst ndigits.simps) (simp add: k')
      also have "\<dots> \<longleftrightarrow> n div 10 < 10 ^ k'"
        using "1.IH" False k' by simp
      also have "\<dots> \<longleftrightarrow> n < 10 ^ k"
        using k' by (simp add: div_less_iff_less_mult mult.commute)
      finally show ?thesis .
    qed
  qed
qed

lemma dec_fix_exact: "c < 10 ^ context_prec \<Longrightarrow> dec_fix s c e = Dec s c e"
  using ndigits_le_iff [of context_prec c] by (simp add: dec_fix_def context_prec_def)

lemma dec_fix_zero [simp]: "dec_fix s 0 e = Dec s 0 e"
  by (simp add: dec_fix_exact)

lemma dec_neg_dec_fix: "dec_neg (dec_fix s c e) = s"
  by (simp add: dec_fix_def Let_def)

subsection \<open>Exactness and sign of the arithmetic\<close>

lemma powi_shift: "0 \<le> k \<Longrightarrow> (10::rat) ^ nat k * 10 powi e = 10 powi (e + k)"
proof -
  assume "0 \<le> k"
  then have "(10::rat) ^ nat k = 10 powi k" by (simp add: power_int_def)
  then show ?thesis by (simp add: power_int_add mult.commute)
qed

lemma dec_val_times:
  assumes "dec_coeff a * dec_coeff b < 10 ^ context_prec"
  shows "dec_val (a * b) = dec_val a * dec_val b"
  using assms
  by (simp add: times_decimal_def dec_fix_exact dec_val_eq power_int_add)

definition plus_int :: "decimal \<Rightarrow> decimal \<Rightarrow> int" where
  "plus_int a b =
     (let e = min (dec_exp a) (dec_exp b)
      in dec_int a * 10 ^ nat (dec_exp a - e) + dec_int b * 10 ^ nat (dec_exp b - e))"

lemma plus_decimal_alt:
  "a + b = dec_fix (if plus_int a b = 0 then dec_neg a \<and> dec_neg b else plus_int a b < 0)
     (nat \<bar>plus_int a b\<bar>) (min (dec_exp a) (dec_exp b))"
  by (simp add: plus_decimal_def plus_int_def Let_def)

lemma plus_int_val:
  "of_int (plus_int a b) * 10 powi min (dec_exp a) (dec_exp b) = dec_val a + dec_val b"
proof -
  let ?e = "min (dec_exp a) (dec_exp b)"
  have "(10::rat) ^ nat (dec_exp d - ?e) * 10 powi ?e = 10 powi dec_exp d"
    if "?e \<le> dec_exp d" for d
    using powi_shift [of "dec_exp d - ?e" ?e] that by simp
  from this [of a] this [of b] show ?thesis
    by (simp add: plus_int_def Let_def dec_val_def distrib_right mult.assoc)
qed

lemma dec_val_plus:
  assumes "nat \<bar>plus_int a b\<bar> < 10 ^ context_prec"
  shows "dec_val (a + b) = dec_val a + dec_val b"
proof -
  have "dec_val (a + b) = of_int (plus_int a b) * 10 powi min (dec_exp a) (dec_exp b)"
    using assms by (auto simp: plus_decimal_alt dec_fix_exact dec_val_Dec)
  then show ?thesis by (simp add: plus_int_val)
qed

lemma dec_val_nonneg_iff: "0 \<le> dec_val d \<longleftrightarrow> \<not> dec_neg d \<or> dec_coeff d = 0"
proof -
  define p where "p = (10::rat) powi dec_exp d"
  then have "0 < p" by simp
  then show ?thesis by (auto simp: dec_val_eq zero_le_mult_iff mult_le_0_iff p_def [symmetric])
qed

lemma dec_times_nonneg:
  assumes "0 \<le> dec_val a" and "0 \<le> dec_val b"
  shows "0 \<le> dec_val (a * b)"
proof (cases "dec_coeff a = 0 \<or> dec_coeff b = 0")
  case True
  then show ?thesis by (auto simp: times_decimal_def)
next
  case False
  with assms have "\<not> dec_neg a" and "\<not> dec_neg b" by (simp_all add: dec_val_nonneg_iff)
  then show ?thesis by (simp add: times_decimal_def dec_val_nonneg_iff dec_neg_dec_fix)
qed

lemma dec_plus_nonneg:
  assumes "0 \<le> dec_val a" and "0 \<le> dec_val b"
  shows "0 \<le> dec_val (a + b)"
proof -
  have "0 \<le> dec_int a" and "0 \<le> dec_int b"
    using assms by (auto simp: dec_val_nonneg_iff dec_int_def)
  then have "0 \<le> plus_int a b" by (simp add: plus_int_def Let_def)
  then show ?thesis
    by (auto simp: plus_decimal_alt dec_val_nonneg_iff dec_neg_dec_fix)
qed

subsection \<open>\<open>str\<close> and \<open>Decimal\<close>\<close>

definition is_digit :: "char \<Rightarrow> bool" where
  "is_digit c \<longleftrightarrow> 48 \<le> (of_char c :: nat) \<and> (of_char c :: nat) \<le> 57"

definition digit_char :: "nat \<Rightarrow> char" where
  "digit_char n = char_of (48 + n)"

definition digit_val :: "char \<Rightarrow> nat" where
  "digit_val c = of_char c - 48"

fun show_nat :: "nat \<Rightarrow> string" where
  "show_nat n = (if n < 10 then [digit_char n]
     else show_nat (n div 10) @ [digit_char (n mod 10)])"

declare show_nat.simps [simp del]

definition parse_nat :: "string \<Rightarrow> nat" where
  "parse_nat ds = foldl (\<lambda>n c. 10 * n + digit_val c) 0 ds"

definition show_signed :: "int \<Rightarrow> string" where
  "show_signed i = (if i < 0 then ''-'' else ''+'') @ show_nat (nat \<bar>i\<bar>)"

text \<open>\<^verbatim>\<open>Decimal.__str__\<close>: plain notation for small exponents, otherwise scientific.\<close>

definition dec_str :: "decimal \<Rightarrow> string" where
  "dec_str d =
     (let ds = show_nat (dec_coeff d);
          n = int (length ds);
          left = dec_exp d + n;
          dot = (if dec_exp d \<le> 0 \<and> left > -6 then left else 1);
          body = (if dot \<le> 0 then ''0.'' @ replicate (nat (- dot)) CHR ''0'' @ ds
                  else if dot \<ge> n then ds @ replicate (nat (dot - n)) CHR ''0''
                  else take (nat dot) ds @ ''.'' @ drop (nat dot) ds);
          ex = (if left = dot then [] else ''E'' @ show_signed (left - dot))
      in (if dec_neg d then ''-'' else []) @ body @ ex)"

definition parse_sign :: "string \<Rightarrow> bool \<times> string" where
  "parse_sign s =
     (case s of [] \<Rightarrow> (False, [])
      | c # cs \<Rightarrow> if c = CHR ''-'' then (True, cs)
                  else if c = CHR ''+'' then (False, cs) else (False, s))"

definition parse_exponent :: "string \<Rightarrow> int option" where
  "parse_exponent s =
     (case s of [] \<Rightarrow> Some 0
      | c # cs \<Rightarrow>
          if c = CHR ''E'' \<or> c = CHR ''e'' then
            (let (neg, ds) = parse_sign cs
             in if ds \<noteq> [] \<and> list_all is_digit ds
                then Some (if neg then - int (parse_nat ds) else int (parse_nat ds)) else None)
          else None)"

text \<open>
  \<^verbatim>\<open>Decimal(s)\<close> on a finite numeral; \<open>None\<close> stands for \<^verbatim>\<open>decimal.InvalidOperation\<close>.
  (\<^verbatim>\<open>Decimal\<close> also accepts \<^verbatim>\<open>NaN\<close> and \<^verbatim>\<open>Infinity\<close>, surrounding blanks and underscores;
  the program never writes those.)
\<close>

definition parse_unsigned :: "bool \<Rightarrow> string \<Rightarrow> decimal option" where
  "parse_unsigned neg r =
     (let ip = takeWhile is_digit r;
          r1 = dropWhile is_digit r;
          (fp, r2) = (case r1 of [] \<Rightarrow> ([], [])
             | c # cs \<Rightarrow> if c = CHR ''.'' then (takeWhile is_digit cs, dropWhile is_digit cs)
                         else ([], r1))
      in if ip = [] \<and> fp = [] then None
         else case parse_exponent r2 of None \<Rightarrow> None
              | Some e \<Rightarrow> Some (Dec neg (parse_nat (ip @ fp)) (e - int (length fp))))"

definition dec_parse :: "string \<Rightarrow> decimal option" where
  "dec_parse s = (let (neg, r) = parse_sign s in parse_unsigned neg r)"

lemma is_digit_digit_char [simp]: "n < 10 \<Longrightarrow> is_digit (digit_char n)"
  by (simp add: is_digit_def digit_char_def)

lemma digit_val_digit_char [simp]: "n < 10 \<Longrightarrow> digit_val (digit_char n) = n"
  by (simp add: digit_val_def digit_char_def)

lemma not_is_digit [simp]:
  "\<not> is_digit (CHR ''.'')" "\<not> is_digit (CHR ''E'')" "\<not> is_digit (CHR ''-'')"
  "\<not> is_digit (CHR ''+'')"
  by (simp_all add: is_digit_def)

lemma digit_val_0 [simp]: "digit_val (CHR ''0'') = 0"
  by (simp add: digit_val_def)

lemma is_digit_0 [simp]: "is_digit (CHR ''0'')"
  by (simp add: is_digit_def)

lemma parse_nat_snoc [simp]: "parse_nat (ds @ [c]) = 10 * parse_nat ds + digit_val c"
  by (simp add: parse_nat_def)

lemma parse_nat_zeros [simp]: "parse_nat (replicate k (CHR ''0'') @ ds) = parse_nat ds"
  by (induction k) (simp_all add: parse_nat_def)

lemma parse_nat_zero_Cons [simp]: "parse_nat (CHR ''0'' # ds) = parse_nat ds"
  by (simp add: parse_nat_def)

lemma parse_show_nat [simp]: "parse_nat (show_nat n) = n"
proof (induction n rule: show_nat.induct)
  case (1 n)
  show ?case
  proof (cases "n < 10")
    case True
    then show ?thesis by (subst show_nat.simps) (simp add: parse_nat_def)
  next
    case False
    with "1.IH" show ?thesis by (subst show_nat.simps) simp
  qed
qed

lemma digits_show_nat: "list_all is_digit (show_nat n)"
proof (induction n rule: show_nat.induct)
  case (1 n)
  then show ?case by (subst show_nat.simps) simp
qed

lemma show_nat_nonempty [simp]: "show_nat n \<noteq> []"
  by (subst show_nat.simps) simp

lemma takeWhile_digits:
  assumes "list_all is_digit ds" and "rest = [] \<or> \<not> is_digit (hd rest)"
  shows "takeWhile is_digit (ds @ rest) = ds \<and> dropWhile is_digit (ds @ rest) = rest"
proof -
  have "takeWhile is_digit rest = [] \<and> dropWhile is_digit rest = rest"
    using assms(2) by (cases rest) auto
  with assms(1) show ?thesis by (induction ds) auto
qed

lemma parse_sign_digit: "is_digit c \<Longrightarrow> parse_sign (c # cs) = (False, c # cs)"
  by (auto simp: parse_sign_def)

lemma parse_sign_simps [simp]:
  "parse_sign (CHR ''-'' # cs) = (True, cs)"
  "parse_sign (CHR ''+'' # cs) = (False, cs)"
  by (simp_all add: parse_sign_def)

lemma parse_exponent_show [simp]: "parse_exponent (CHR ''E'' # show_signed i) = Some i"
  by (simp add: parse_exponent_def show_signed_def digits_show_nat)

lemma parse_exponent_Nil [simp]: "parse_exponent [] = Some 0"
  by (simp add: parse_exponent_def)

lemma parse_unsigned_frac:
  assumes "list_all is_digit ip" and "list_all is_digit fp" and "ip \<noteq> []"
    and "ex = [] \<or> (\<exists>cs. ex = CHR ''E'' # cs)" and "parse_exponent ex = Some e"
  shows "parse_unsigned neg (ip @ CHR ''.'' # fp @ ex) =
    Some (Dec neg (parse_nat (ip @ fp)) (e - int (length fp)))"
proof -
  have "takeWhile is_digit (ip @ CHR ''.'' # fp @ ex) = ip \<and>
      dropWhile is_digit (ip @ CHR ''.'' # fp @ ex) = CHR ''.'' # fp @ ex"
    using assms(1) by (intro takeWhile_digits) auto
  moreover have "takeWhile is_digit (fp @ ex) = fp \<and> dropWhile is_digit (fp @ ex) = ex"
    using assms(2,4) by (intro takeWhile_digits) auto
  ultimately show ?thesis
    using assms(3,5) by (simp add: parse_unsigned_def)
qed

lemma parse_unsigned_int:
  assumes "list_all is_digit ip" and "ip \<noteq> []"
    and "ex = [] \<or> (\<exists>cs. ex = CHR ''E'' # cs)" and "parse_exponent ex = Some e"
  shows "parse_unsigned neg (ip @ ex) = Some (Dec neg (parse_nat ip) e)"
proof -
  have "takeWhile is_digit (ip @ ex) = ip \<and> dropWhile is_digit (ip @ ex) = ex"
    using assms(1,3) by (intro takeWhile_digits) auto
  with assms(2,3,4) show ?thesis
    by (auto simp: parse_unsigned_def)
qed

text \<open>The digits of \<^verbatim>\<open>str\<close> with the point after \<open>dot\<close> of them, read back with the exponent.\<close>

lemma parse_digits:
  assumes digs: "list_all is_digit ds" and ne: "ds \<noteq> []" and n: "n = int (length ds)"
    and left: "left = e + n" and dot: "dot = (if e \<le> 0 \<and> left > -6 then left else 1)"
    and body: "body = (if dot \<le> 0 then ''0.'' @ replicate (nat (- dot)) CHR ''0'' @ ds
                  else if dot \<ge> n then ds @ replicate (nat (dot - n)) CHR ''0''
                  else take (nat dot) ds @ ''.'' @ drop (nat dot) ds)"
    and ex: "ex = [] \<or> (\<exists>cs. ex = CHR ''E'' # cs)" "parse_exponent ex = Some (left - dot)"
  shows "parse_unsigned neg (body @ ex) = Some (Dec neg (parse_nat ds) e) \<and> is_digit (hd body) \<and> body \<noteq> []"
proof -
  have pos: "0 < n" using ne by (simp add: n)
  consider (small) "dot \<le> 0" | (whole) "0 < dot" "dot \<ge> n" | (mid) "0 < dot" "dot < n" by linarith
  then show ?thesis
  proof cases
    case small
    then have eq: "dot = left" by (auto simp: dot split: if_splits)
    have "parse_unsigned neg (''0'' @ CHR ''.'' # (replicate (nat (- dot)) CHR ''0'' @ ds) @ ex) =
        Some (Dec neg (parse_nat (''0'' @ replicate (nat (- dot)) CHR ''0'' @ ds))
          (left - dot - int (length (replicate (nat (- dot)) CHR ''0'' @ ds))))"
      using digs ex by (intro parse_unsigned_frac) (auto simp: list_all_iff)
    with small eq show ?thesis by (simp add: body left n)
  next
    case whole
    have dn: "dot = n" using whole pos by (auto simp: dot left split: if_splits)
    with whole pos have b: "body = ds" by (simp add: body)
    from dn have "left - dot = e" by (simp add: left)
    with parse_unsigned_int [OF digs ne ex, of neg] b digs ne show ?thesis by (cases ds) auto
  next
    case mid
    then have lt: "nat dot < length ds" "0 < nat dot" by (auto simp: n)
    have "parse_unsigned neg (take (nat dot) ds @ CHR ''.'' # drop (nat dot) ds @ ex) =
        Some (Dec neg (parse_nat (take (nat dot) ds @ drop (nat dot) ds))
          (left - dot - int (length (drop (nat dot) ds))))"
      using digs ne lt ex
      by (intro parse_unsigned_frac) (auto simp: list_all_iff dest: in_set_takeD in_set_dropD)
    moreover have "left - dot - int (length (drop (nat dot) ds)) = e"
      using lt mid by (simp add: left n of_nat_diff)
    moreover have "hd (take (nat dot) ds) = hd ds" "is_digit (hd ds)"
      using lt ne digs by (simp_all add: hd_take) (cases ds; simp)
    ultimately show ?thesis using mid lt ne by (simp add: body)
  qed
qed

lemma dec_parse_str: "dec_parse (dec_str d) = Some d"
proof -
  obtain s c e where d: "d = Dec s c e" by (cases d)
  define ds where "ds = show_nat c"
  define n where "n = int (length ds)"
  define left where "left = e + n"
  define dot where "dot = (if e \<le> 0 \<and> left > -6 then left else 1)"
  define body where "body = (if dot \<le> 0 then ''0.'' @ replicate (nat (- dot)) CHR ''0'' @ ds
                  else if dot \<ge> n then ds @ replicate (nat (dot - n)) CHR ''0''
                  else take (nat dot) ds @ ''.'' @ drop (nat dot) ds)"
  define ex where "ex = (if left = dot then [] else ''E'' @ show_signed (left - dot))"
  have str: "dec_str d = (if s then ''-'' else []) @ body @ ex"
    by (simp add: dec_str_def d Let_def ds_def n_def left_def dot_def body_def ex_def)
  have digs: "list_all is_digit ds" and ne: "ds \<noteq> []" and val: "parse_nat ds = c"
    by (simp_all add: ds_def digits_show_nat)
  have ex: "ex = [] \<or> (\<exists>cs. ex = CHR ''E'' # cs)" "parse_exponent ex = Some (left - dot)"
    by (simp_all add: ex_def)
  note body = parse_digits [OF digs ne n_def left_def dot_def body_def ex, unfolded val]
  show ?thesis
  proof (cases s)
    case True
    with body [of True] show ?thesis unfolding dec_parse_def str by (simp add: d)
  next
    case False
    from body [of False] obtain b bs where "body = b # bs" "is_digit b" by (cases body) auto
    with body [of False] False show ?thesis
      unfolding dec_parse_def str by (simp add: d parse_sign_digit)
  qed
qed

end
