(* ===== verification/Settings.thy ===== *)
theory Settings
  imports Errors Decimals
begin

text \<open>
  \<^verbatim>\<open>app/core/settings.py\<close>: the settings record with its defaults and the three URLs
  assembled from it, and the start-up check of the JWT secret
  (\<^verbatim>\<open>validate_jwt_secret\<close> of \<^verbatim>\<open>app/core/security.py\<close>).
\<close>

record settings =
  DB_PROTOCOL :: string
  DB_USER :: string
  DB_PASSWORD :: string
  DB_HOST :: string
  DB_PORT :: string
  DB_NAME :: string
  REDIS_HOST :: string
  REDIS_PORT :: int
  REDIS_PASS :: string
  LOG_LEVEL :: string
  ENVIRONMENT :: string
  DELIVERY_WEIGHT_COEFF :: decimal
  DELIVERY_VALUE_COEFF :: decimal
  DELIVERY_BATCH_SIZE :: nat
  DELIVERY_LOCK_TTL :: seconds
  DELIVERY_JOB_INTERVAL_MIN :: nat
  CACHE_TTL_DEFAULT :: seconds
  CACHE_TTL_RATE :: seconds
  RATE_LIMIT_DEFAULT :: string
  RATE_LIMIT_CREATE :: string
  RATE_LIMIT_LIST :: string
  RATE_LIMIT_DETAIL :: string
  RATE_LIMIT_PARCEL_TYPES :: string
  RATE_LIMIT_RECALC :: string
  JWT_SECRET_KEY :: string
  JWT_ALGORITHM :: string
  JWT_ACCESS_TOKEN_EXPIRE_MIN :: int
  JWT_REFRESH_TOKEN_EXPIRE_DAYS :: int
  JWT_ISSUER :: string
  JWT_AUDIENCE :: string
  REFRESH_COOKIE_NAME :: string
  CSRF_COOKIE_NAME :: string
  CSRF_HEADER_NAME :: string
  AUTH_REQUIRED :: bool
  TASK_ADMIN_TOKEN :: string
  ENABLE_METRICS :: bool
  SENTRY_DSN :: string
  SENTRY_TRACES_SAMPLE_RATE :: rat

definition DEFAULT_JWT_SECRET_KEY :: string where
  "DEFAULT_JWT_SECRET_KEY = ''change-me-in-production-use-32-bytes-minimum''"

definition default_settings :: settings where
  "default_settings = \<lparr>
     DB_PROTOCOL = ''mysql+aiomysql'', DB_USER = ''root'', DB_PASSWORD = ''root'',
     DB_HOST = ''db'', DB_PORT = ''3306'', DB_NAME = ''delivery'',
     REDIS_HOST = ''redis'', REDIS_PORT = 6379, REDIS_PASS = ''yourstrongpass'',
     LOG_LEVEL = ''INFO'', ENVIRONMENT = ''prod'',
     DELIVERY_WEIGHT_COEFF = Dec False 5 (-1), DELIVERY_VALUE_COEFF = Dec False 1 (-2),
     DELIVERY_BATCH_SIZE = 500, DELIVERY_LOCK_TTL = 330, DELIVERY_JOB_INTERVAL_MIN = 5,
     CACHE_TTL_DEFAULT = 60, CACHE_TTL_RATE = 600,
     RATE_LIMIT_DEFAULT = ''100/minute'', RATE_LIMIT_CREATE = ''20/minute'',
     RATE_LIMIT_LIST = ''60/minute'', RATE_LIMIT_DETAIL = ''60/minute'',
     RATE_LIMIT_PARCEL_TYPES = ''100/minute'', RATE_LIMIT_RECALC = ''5/minute'',
     JWT_SECRET_KEY = DEFAULT_JWT_SECRET_KEY, JWT_ALGORITHM = ''HS256'',
     JWT_ACCESS_TOKEN_EXPIRE_MIN = 15, JWT_REFRESH_TOKEN_EXPIRE_DAYS = 30,
     JWT_ISSUER = ''parcel-delivery-api'', JWT_AUDIENCE = ''parcel-delivery-clients'',
     REFRESH_COOKIE_NAME = ''refresh_token'', CSRF_COOKIE_NAME = ''refresh_csrf'',
     CSRF_HEADER_NAME = ''X-CSRF-Token'', AUTH_REQUIRED = True, TASK_ADMIN_TOKEN = [],
     ENABLE_METRICS = True, SENTRY_DSN = [], SENTRY_TRACES_SAMPLE_RATE = 1 / 10\<rparr>"

definition show_int :: "int \<Rightarrow> string" where
  "show_int i = (if i < 0 then ''-'' else []) @ show_nat (nat \<bar>i\<bar>)"

definition DATABASE_URL :: "settings \<Rightarrow> string" where
  "DATABASE_URL S = DB_PROTOCOL S @ ''://'' @ DB_USER S @ '':'' @ DB_PASSWORD S @ ''@''
     @ DB_HOST S @ '':'' @ DB_PORT S @ ''/'' @ DB_NAME S"

definition REDIS_URL :: "settings \<Rightarrow> string" where
  "REDIS_URL S = ''redis://:'' @ REDIS_PASS S @ ''@'' @ REDIS_HOST S @ '':''
     @ show_int (REDIS_PORT S) @ ''/0''"

definition REDIS_RATE_LIMIT_URL :: "settings \<Rightarrow> string" where
  "REDIS_RATE_LIMIT_URL S = ''redis://:'' @ REDIS_PASS S @ ''@'' @ REDIS_HOST S @ '':''
     @ show_int (REDIS_PORT S) @ ''/1''"

definition validate_jwt_secret :: "settings \<Rightarrow> unit result" where
  "validate_jwt_secret S =
     (if ENVIRONMENT S \<noteq> ''prod'' then Inr ()
      else if JWT_SECRET_KEY S = DEFAULT_JWT_SECRET_KEY then
        Inl (RuntimeError ''JWT_SECRET_KEY must be changed in production'')
      else if length (JWT_SECRET_KEY S) < 32 then
        Inl (RuntimeError ''JWT_SECRET_KEY must be at least 32 characters in production'')
      else Inr ())"

text \<open>
  The start-up guard lets a production process start exactly when its secret is
  neither the published default nor shorter than 32 characters, never blocks another
  environment, and with the shipped defaults (environment \<^verbatim>\<open>prod\<close>, default secret) refuses
  to start.
\<close>

theorem validate_jwt_secret_guard:
  "(validate_jwt_secret S = Inr () \<longleftrightarrow>
      \<not> (ENVIRONMENT S = ''prod'' \<and>
         (JWT_SECRET_KEY S = DEFAULT_JWT_SECRET_KEY \<or> length (JWT_SECRET_KEY S) < 32))) \<and>
   validate_jwt_secret default_settings \<noteq> Inr ()"
  by (simp add: validate_jwt_secret_def default_settings_def)

lemma settings_default [simp]:
  "DELIVERY_WEIGHT_COEFF default_settings = Dec False 5 (-1)"
  "DELIVERY_VALUE_COEFF default_settings = Dec False 1 (-2)"
  "DELIVERY_BATCH_SIZE default_settings = 500"
  "DELIVERY_LOCK_TTL default_settings = 330"
  "DELIVERY_JOB_INTERVAL_MIN default_settings = 5"
  "CACHE_TTL_DEFAULT default_settings = 60"
  "CACHE_TTL_RATE default_settings = 600"
  "JWT_ACCESS_TOKEN_EXPIRE_MIN default_settings = 15"
  "JWT_REFRESH_TOKEN_EXPIRE_DAYS default_settings = 30"
  "AUTH_REQUIRED default_settings"
  "TASK_ADMIN_TOKEN default_settings = []"
  by (simp_all add: default_settings_def)

end
