(* ===== verification/Security.thy ===== *)
theory Security
  imports Settings
begin

text \<open>
  \<^verbatim>\<open>app/core/security.py\<close>: password and token hashing, refresh and CSRF tokens, and JWT
  access tokens.  Three libraries are arguments of the model: PyJWT (record \<open>jwt_lib\<close>),
  bcrypt and hashlib (record \<open>crypto\<close>); what the code relies on is the locales
  \<open>jwt_library\<close> and \<open>crypto_library\<close>, interpreted on reference instances.  What the code
  draws from \<^verbatim>\<open>uuid4\<close> and \<^verbatim>\<open>secrets\<close> are arguments too.
\<close>

subsection \<open>Hashing\<close>

text \<open>
  \<open>bcrypt_hash pw salt\<close> is \<^verbatim>\<open>bcrypt.hashpw(pw.encode(), bcrypt.gensalt()).decode()\<close>, the
  salt being what \<^verbatim>\<open>gensalt\<close> drew; \<open>bcrypt_check\<close> is \<^verbatim>\<open>bcrypt.checkpw\<close>; both may raise.
\<close>

record crypto =
  bcrypt_hash :: "string \<Rightarrow> string \<Rightarrow> string result"
  bcrypt_check :: "string \<Rightarrow> string \<Rightarrow> bool result"
  sha256_hex :: "string \<Rightarrow> string"

text \<open>The length of \<^verbatim>\<open>s.encode()\<close>: a character is a code point below 256.\<close>

definition utf8_len :: "string \<Rightarrow> nat" where
  "utf8_len s = sum_list (map (\<lambda>c. if of_char c < (128 :: nat) then 1 else 2) s)"

locale crypto_library =
  fixes C :: crypto
  assumes bcrypt_hash_short:
      "utf8_len pw \<le> 72 \<Longrightarrow> \<exists>h. bcrypt_hash C pw salt = Inr h \<and> length h \<le> 255"
    and bcrypt_hash_long: "72 < utf8_len pw \<Longrightarrow> \<exists>m. bcrypt_hash C pw salt = Inl (UnexpectedError m)"
    and bcrypt_check_hash: "bcrypt_hash C pw salt = Inr h \<Longrightarrow> bcrypt_check C pw h = Inr True"
    and bcrypt_check_error: "bcrypt_check C pw h = Inl e \<Longrightarrow> \<exists>m. e = UnexpectedError m"
    and length_sha256: "length (sha256_hex C s) = 64"

definition hash_password :: "crypto \<Rightarrow> string \<Rightarrow> string \<Rightarrow> string result" where
  "hash_password C salt password = bcrypt_hash C password salt"

definition verify_password :: "crypto \<Rightarrow> string \<Rightarrow> string \<Rightarrow> bool result" where
  "verify_password C plain hashed = bcrypt_check C plain hashed"

definition hash_token :: "crypto \<Rightarrow> string \<Rightarrow> string" where
  "hash_token C token = sha256_hex C token"

definition reference_crypto :: crypto where
  "reference_crypto = \<lparr>
     bcrypt_hash = (\<lambda>pw salt. if 72 < utf8_len pw then Inl (UnexpectedError ''ValueError'')
       else Inr (take 60 salt @ CHR ''$'' # pw)),
     bcrypt_check = (\<lambda>pw h. if 72 < utf8_len pw then Inl (UnexpectedError ''ValueError'')
       else Inr (drop (length h - length pw - 1) h = CHR ''$'' # pw)),
     sha256_hex = (\<lambda>s. take 64 (s @ replicate 64 (CHR ''0'')))\<rparr>"

lemma length_le_utf8: "length s \<le> utf8_len s"
  unfolding utf8_len_def by (induction s) auto

interpretation ref_crypto: crypto_library reference_crypto
proof
  fix pw salt
  assume "utf8_len pw \<le> 72"
  with length_le_utf8 [of pw]
  show "\<exists>h. bcrypt_hash reference_crypto pw salt = Inr h \<and> length h \<le> 255"
    by (simp add: reference_crypto_def)
qed (auto simp: reference_crypto_def split: if_splits)

subsection \<open>Scopes\<close>

text \<open>\<^verbatim>\<open>" ".join(scopes)\<close> and \<^verbatim>\<open>str.split()\<close> (runs of whitespace separate words).\<close>

fun join_space :: "string list \<Rightarrow> string" where
  "join_space [] = []"
| "join_space [w] = w"
| "join_space (w # ws) = w @ '' '' @ join_space ws"

definition is_space :: "char \<Rightarrow> bool" where
  "is_space c \<longleftrightarrow> (let n = of_char c :: nat
     in 9 \<le> n \<and> n \<le> 13 \<or> 28 \<le> n \<and> n \<le> 32 \<or> n = 133 \<or> n = 160)"

fun split_words :: "string \<Rightarrow> string \<Rightarrow> string list" where
  "split_words w [] = (if w = [] then [] else [rev w])"
| "split_words w (c # cs) =
     (if is_space c then (if w = [] then [] else [rev w]) @ split_words [] cs
      else split_words (c # w) cs)"

definition str_split :: "string \<Rightarrow> string list" where
  "str_split s = split_words [] s"

lemma split_words_word:
  "list_all (\<lambda>c. \<not> is_space c) v \<Longrightarrow> split_words w (v @ cs) = split_words (rev v @ w) cs"
  by (induction v arbitrary: w) auto

lemma split_words_Cons_space:
  "split_words w ('' '' @ cs) = (if w = [] then [] else [rev w]) @ split_words [] cs"
  by (simp add: is_space_def)

definition scope_word :: "string \<Rightarrow> bool" where
  "scope_word w \<longleftrightarrow> w \<noteq> [] \<and> list_all (\<lambda>c. \<not> is_space c) w"

lemma str_split_join: "list_all scope_word ws \<Longrightarrow> str_split (join_space ws) = ws"
proof (induction ws rule: join_space.induct)
  case 1
  then show ?case by (simp add: str_split_def)
next
  case (2 w)
  then show ?case using split_words_word [of w "[]" "[]"] by (simp add: str_split_def scope_word_def)
next
  case (3 w v vs)
  then have "split_words [] (w @ '' '' @ join_space (v # vs)) = w # split_words [] (join_space (v # vs))"
    using split_words_word [of w "[]" "'' '' @ join_space (v # vs)"]
    by (simp add: scope_word_def split_words_Cons_space is_space_def)
  with 3 show ?case by (simp add: str_split_def)
qed

subsection \<open>PyJWT\<close>

text \<open>
  A payload is the list of its claims.  \<open>jwt_encode claims key algorithm\<close> is \<^verbatim>\<open>jwt.encode\<close>
  (a \<^verbatim>\<open>datetime\<close> claim becomes its integer timestamp); \<open>jwt_decode now token key algorithms
  issuer audience\<close> is \<^verbatim>\<open>jwt.decode\<close>, \<open>None\<close> being any \<^verbatim>\<open>PyJWTError\<close>.
\<close>

record jwt_lib =
  jwt_encode :: "(string \<times> json) list \<Rightarrow> string \<Rightarrow> string \<Rightarrow> string"
  jwt_decode :: "instant \<Rightarrow> string \<Rightarrow> string \<Rightarrow> string list \<Rightarrow> string \<Rightarrow> string \<Rightarrow>
    (string \<times> json) list option"

definition hmac_algorithms :: "string list" where
  "hmac_algorithms = [''HS256'', ''HS384'', ''HS512'']"

definition time_claims :: "string list" where
  "time_claims = [''exp'', ''nbf'', ''iat'']"

text \<open>Claims of the types the registered claims must have, each key once.\<close>

definition well_typed_claims :: "(string \<times> json) list \<Rightarrow> bool" where
  "well_typed_claims cl \<longleftrightarrow> distinct (map fst cl) \<and>
     list_all (\<lambda>(k, v). case v of
       JInt i \<Rightarrow> k \<in> set time_claims | JStr s \<Rightarrow> k \<notin> set time_claims | _ \<Rightarrow> False) cl"

definition claims_accepted :: "instant \<Rightarrow> string \<Rightarrow> string \<Rightarrow> (string \<times> json) list \<Rightarrow> bool" where
  "claims_accepted now issuer audience cl \<longleftrightarrow>
     (case map_of cl ''exp'' of Some (JInt e) \<Rightarrow> now < e | _ \<Rightarrow> True) \<and>
     (case map_of cl ''nbf'' of Some (JInt n) \<Rightarrow> n \<le> now | _ \<Rightarrow> True) \<and>
     (case map_of cl ''iat'' of Some (JInt i) \<Rightarrow> i \<le> now | _ \<Rightarrow> True) \<and>
     map_of cl ''iss'' = Some (JStr issuer) \<and>
     (case map_of cl ''aud'' of
        Some (JStr a) \<Rightarrow> a = audience
      | Some (JArr as) \<Rightarrow> JStr audience \<in> set as
      | _ \<Rightarrow> False)"

locale jwt_library =
  fixes J :: jwt_lib
  assumes decode_encode:
      "well_typed_claims cl \<Longrightarrow> key \<noteq> [] \<Longrightarrow> alg \<in> set hmac_algorithms \<Longrightarrow>
        jwt_decode J now (jwt_encode J cl key alg) key [alg] issuer audience =
          (if claims_accepted now issuer audience cl then Some cl else None)"
    and decode_accepted:
      "jwt_decode J now token key algs issuer audience = Some cl \<Longrightarrow>
        claims_accepted now issuer audience cl"

subsection \<open>Access tokens\<close>

definition DEFAULT_USER_ROLE :: string where
  "DEFAULT_USER_ROLE = ''user''"

definition DEFAULT_USER_SCOPES :: "string list" where
  "DEFAULT_USER_SCOPES = [''parcels:read'', ''parcels:write'']"

record token_claims =
  tc_sub :: string
  tc_jti :: string
  tc_iss :: string
  tc_aud :: string
  tc_role :: string
  tc_scopes :: "string list"

text \<open>\<open>now\<close> is the clock, \<open>jti\<close> the fresh \<^verbatim>\<open>uuid4\<close>.\<close>

definition create_access_token ::
  "settings \<Rightarrow> jwt_lib \<Rightarrow> instant \<Rightarrow> ident \<Rightarrow> string \<Rightarrow> string \<Rightarrow> string list \<Rightarrow> string" where
  "create_access_token S J now jti subject role scopes =
     (let expire = now + JWT_ACCESS_TOKEN_EXPIRE_MIN S * 60
      in jwt_encode J
        [(''sub'', JStr subject), (''exp'', JInt expire), (''iat'', JInt now), (''nbf'', JInt now),
         (''jti'', JStr jti), (''iss'', JStr (JWT_ISSUER S)), (''aud'', JStr (JWT_AUDIENCE S)),
         (''role'', JStr role), (''scope'', JStr (join_space scopes))]
        (JWT_SECRET_KEY S) (JWT_ALGORITHM S))"

definition claim_str :: "(string \<times> json) list \<Rightarrow> string \<Rightarrow> string option" where
  "claim_str payload k = (case map_of payload k of Some (JStr s) \<Rightarrow> Some s | _ \<Rightarrow> None)"

definition scope_claim :: "(string \<times> json) list \<Rightarrow> string option" where
  "scope_claim payload =
     (case map_of payload ''scope'' of None \<Rightarrow> Some [] | Some (JStr s) \<Rightarrow> Some s | _ \<Rightarrow> None)"

definition decode_token ::
  "settings \<Rightarrow> jwt_lib \<Rightarrow> instant \<Rightarrow> string \<Rightarrow> string list \<Rightarrow> token_claims option" where
  "decode_token S J now token required_scopes =
     (case jwt_decode J now token (JWT_SECRET_KEY S) [JWT_ALGORITHM S] (JWT_ISSUER S) (JWT_AUDIENCE S)
      of None \<Rightarrow> None
       | Some payload \<Rightarrow>
          (case (claim_str payload ''sub'', claim_str payload ''jti'', claim_str payload ''iss'',
                 claim_str payload ''aud'', claim_str payload ''role'', scope_claim payload) of
             (Some sub, Some jti, Some iss, Some aud, Some role, Some scope_value) \<Rightarrow>
               (let scopes = str_split scope_value
                in if \<not> set required_scopes \<subseteq> set scopes then None
                   else Some \<lparr>tc_sub = sub, tc_jti = jti, tc_iss = iss, tc_aud = aud,
                          tc_role = role, tc_scopes = scopes\<rparr>)
           | _ \<Rightarrow> None))"

definition jwt_configured :: "settings \<Rightarrow> bool" where
  "jwt_configured S \<longleftrightarrow> JWT_SECRET_KEY S \<noteq> [] \<and> JWT_ALGORITHM S \<in> set hmac_algorithms"

lemma claim_str_eq_Some: "claim_str p k = Some s \<longleftrightarrow> map_of p k = Some (JStr s)"
  by (simp add: claim_str_def split: option.split json.split)

lemma default_scope_words: "list_all scope_word DEFAULT_USER_SCOPES"
  by (simp add: DEFAULT_USER_SCOPES_def scope_word_def is_space_def)

context jwt_library
begin

lemma decode_created:
  assumes "jwt_configured S" and "list_all scope_word scopes"
  shows "decode_token S J t (create_access_token S J now jti subject role scopes) required =
    (if now \<le> t \<and> t < now + JWT_ACCESS_TOKEN_EXPIRE_MIN S * 60 \<and> set required \<subseteq> set scopes
     then Some \<lparr>tc_sub = subject, tc_jti = jti, tc_iss = JWT_ISSUER S, tc_aud = JWT_AUDIENCE S,
       tc_role = role, tc_scopes = scopes\<rparr>
     else None)"
proof -
  let ?cl = "[(''sub'', JStr subject), (''exp'', JInt (now + JWT_ACCESS_TOKEN_EXPIRE_MIN S * 60)),
    (''iat'', JInt now), (''nbf'', JInt now), (''jti'', JStr jti), (''iss'', JStr (JWT_ISSUER S)),
    (''aud'', JStr (JWT_AUDIENCE S)), (''role'', JStr role), (''scope'', JStr (join_space scopes))]"
  have "well_typed_claims ?cl" by (simp add: well_typed_claims_def time_claims_def)
  moreover have "claims_accepted t (JWT_ISSUER S) (JWT_AUDIENCE S) ?cl \<longleftrightarrow>
      now \<le> t \<and> t < now + JWT_ACCESS_TOKEN_EXPIRE_MIN S * 60"
    by (auto simp: claims_accepted_def)
  ultimately show ?thesis
    using decode_encode [of ?cl "JWT_SECRET_KEY S" "JWT_ALGORITHM S" t "JWT_ISSUER S" "JWT_AUDIENCE S"]
      assms
    by (simp add: decode_token_def create_access_token_def Let_def jwt_configured_def claim_str_def
        scope_claim_def str_split_join)
qed

lemma decode_token_checks:
  assumes "decode_token S J now token required = Some c"
  shows "\<exists>payload. jwt_decode J now token (JWT_SECRET_KEY S) [JWT_ALGORITHM S] (JWT_ISSUER S)
      (JWT_AUDIENCE S) = Some payload \<and>
    (\<forall>e. map_of payload ''exp'' = Some (JInt e) \<longrightarrow> now < e) \<and>
    (\<forall>n. map_of payload ''nbf'' = Some (JInt n) \<longrightarrow> n \<le> now) \<and>
    map_of payload ''sub'' = Some (JStr (tc_sub c)) \<and>
    tc_iss c = JWT_ISSUER S \<and> tc_aud c = JWT_AUDIENCE S \<and> set required \<subseteq> set (tc_scopes c)"
proof -
  obtain payload where p: "jwt_decode J now token (JWT_SECRET_KEY S) [JWT_ALGORITHM S] (JWT_ISSUER S)
      (JWT_AUDIENCE S) = Some payload"
    using assms by (auto simp: decode_token_def split: option.splits)
  from p assms have c: "claim_str payload ''sub'' = Some (tc_sub c)"
      "claim_str payload ''iss'' = Some (tc_iss c)" "claim_str payload ''aud'' = Some (tc_aud c)"
      "set required \<subseteq> set (tc_scopes c)"
    by (auto simp: decode_token_def Let_def split: option.splits if_splits)
  note acc = decode_accepted [OF p]
  then have "(\<forall>e. map_of payload ''exp'' = Some (JInt e) \<longrightarrow> now < e) \<and>
      (\<forall>n. map_of payload ''nbf'' = Some (JInt n) \<longrightarrow> n \<le> now)"
    by (auto simp only: claims_accepted_def json.case option.case)
  moreover from acc c(2,3) have "tc_iss c = JWT_ISSUER S \<and> tc_aud c = JWT_AUDIENCE S"
    by (simp add: claims_accepted_def claim_str_eq_Some)
  ultimately show ?thesis using p c by (simp add: claim_str_eq_Some)
qed

end

subsection \<open>A reference JWT library\<close>

text \<open>
  Tokens that carry key, algorithm and claims in a self-delimiting text, with the checks of
  \<open>claims_accepted\<close>: an instance of the contract, not a secure format.
\<close>

fun frame :: "string \<Rightarrow> string" where
  "frame [] = ''.''"
| "frame (c # cs) = CHR ''x'' # c # frame cs"

fun unframe :: "string \<Rightarrow> (string \<times> string) option" where
  "unframe (x # c # r) =
     (if x = CHR ''.'' then Some ([], c # r)
      else map_option (\<lambda>(s, r'). (c # s, r')) (unframe r))"
| "unframe [x] = (if x = CHR ''.'' then Some ([], []) else None)"
| "unframe [] = None"

lemma unframe_frame [simp]: "unframe (frame s @ r) = Some (s, r)"
proof (induction s)
  case Nil
  then show ?case by (cases r) simp_all
qed simp

fun frame_value :: "json \<Rightarrow> string" where
  "frame_value (JStr s) = frame (CHR ''s'' # s)"
| "frame_value (JInt i) = frame (CHR ''i'' # show_signed i)"
| "frame_value _ = frame []"

definition unframe_value :: "string \<Rightarrow> (json \<times> string) option" where
  "unframe_value s =
     (case unframe s of
        Some (c # v, r) \<Rightarrow>
          if c = CHR ''s'' then Some (JStr v, r)
          else map_option (\<lambda>i. (JInt i, r)) (parse_exponent (CHR ''E'' # v))
      | _ \<Rightarrow> None)"

fun frame_claims :: "(string \<times> json) list \<Rightarrow> string" where
  "frame_claims [] = []"
| "frame_claims ((k, v) # cl) = frame k @ frame_value v @ frame_claims cl"

fun unframe_claims :: "nat \<Rightarrow> string \<Rightarrow> (string \<times> json) list option" where
  "unframe_claims n [] = Some []"
| "unframe_claims 0 s = None"
| "unframe_claims (Suc n) s =
     (case unframe s of
        None \<Rightarrow> None
      | Some (k, r) \<Rightarrow>
          (case unframe_value r of
             None \<Rightarrow> None
           | Some (v, r') \<Rightarrow> map_option (\<lambda>cl. (k, v) # cl) (unframe_claims n r')))"

lemma unframe_value_str: "unframe_value (frame_value (JStr v) @ r) = Some (JStr v, r)"
  unfolding unframe_value_def frame_value.simps unframe_frame by simp

lemma unframe_value_int: "unframe_value (frame_value (JInt i) @ r) = Some (JInt i, r)"
  unfolding unframe_value_def frame_value.simps unframe_frame by simp

declare frame_value.simps [simp del]

lemma frame_nonempty [simp]: "frame s \<noteq> []"
  by (cases s) simp_all

lemma unframe_claims_frame:
  "list_all (\<lambda>(k, v). case v of JInt i \<Rightarrow> True | JStr s \<Rightarrow> True | _ \<Rightarrow> False) cl \<Longrightarrow> length cl \<le> n \<Longrightarrow>
     unframe_claims n (frame_claims cl) = Some cl"
proof (induction cl arbitrary: n)
  case Nil
  then show ?case by simp
next
  case (Cons kv cl)
  obtain k v where kv: "kv = (k, v)" by (cases kv)
  obtain m where n: "n = Suc m" and m: "length cl \<le> m" using Cons.prems(2) by (cases n) auto
  have ih: "unframe_claims m (frame_claims cl) = Some cl" using Cons m by simp
  have v: "unframe_value (frame_value v @ frame_claims cl) = Some (v, frame_claims cl)"
    using Cons.prems(1) kv unframe_value_str unframe_value_int by (cases v) simp_all
  have "unframe_claims (Suc m) (frame k @ s) = (case unframe (frame k @ s) of
        None \<Rightarrow> None
      | Some (k, r) \<Rightarrow> (case unframe_value r of None \<Rightarrow> None
          | Some (v, r') \<Rightarrow> map_option (\<lambda>cl. (k, v) # cl) (unframe_claims m r')))" for s
    by (cases "frame k @ s") simp_all
  then show ?case by (simp add: kv n v ih)
qed

lemma length_frame_claims: "length cl \<le> length (frame_claims cl)"
proof (induction cl rule: frame_claims.induct)
  case (2 k v cl)
  have "1 \<le> length (frame k)" by (cases k) simp_all
  with 2 show ?case by simp
qed simp

definition reference_jwt :: jwt_lib where
  "reference_jwt = \<lparr>
     jwt_encode = (\<lambda>cl key alg. frame key @ frame alg @ frame_claims cl),
     jwt_decode = (\<lambda>now token key algs issuer audience.
       case unframe token of
         None \<Rightarrow> None
       | Some (k, r) \<Rightarrow>
           (case unframe r of
              None \<Rightarrow> None
            | Some (alg, r') \<Rightarrow>
                if k \<noteq> key \<or> alg \<notin> set algs then None
                else (case unframe_claims (length r') r' of
                        None \<Rightarrow> None
                      | Some cl \<Rightarrow> if claims_accepted now issuer audience cl then Some cl else None)))\<rparr>"

interpretation ref_jwt: jwt_library reference_jwt
proof
  fix cl key alg now issuer audience
  assume wt: "well_typed_claims cl"
  have "list_all (\<lambda>(k, v). case v of JInt i \<Rightarrow> True | JStr s \<Rightarrow> True | _ \<Rightarrow> False) cl"
    by (rule list.pred_mono_strong [OF conjunct2 [OF wt [unfolded well_typed_claims_def]]])
      (simp split: json.splits prod.splits)
  then have "unframe_claims (length (frame_claims cl)) (frame_claims cl) = Some cl"
    by (rule unframe_claims_frame) (rule length_frame_claims)
  then show "jwt_decode reference_jwt now (jwt_encode reference_jwt cl key alg) key [alg] issuer audience =
      (if claims_accepted now issuer audience cl then Some cl else None)"
    by (simp add: reference_jwt_def)
next
  fix now token key algs issuer audience cl
  assume "jwt_decode reference_jwt now token key algs issuer audience = Some cl"
  then show "claims_accepted now issuer audience cl"
    by (simp add: reference_jwt_def split: option.splits prod.splits if_splits)
qed

text \<open>A token's payload is its own: two acceptances of one token see the same claims.\<close>

locale jwt_payloads = jwt_library +
  assumes decode_same:
    "jwt_decode J now token key algs issuer audience = Some cl \<Longrightarrow>
      jwt_decode J now' token key algs issuer audience = Some cl' \<Longrightarrow> cl' = cl"
begin

lemma decode_token_same:
  assumes "decode_token S J now token required = Some c" and "decode_token S J now' token required' = Some c'"
  shows "c' = c"
proof -
  obtain cl cl' where "jwt_decode J now token (JWT_SECRET_KEY S) [JWT_ALGORITHM S] (JWT_ISSUER S)
      (JWT_AUDIENCE S) = Some cl"
    "jwt_decode J now' token (JWT_SECRET_KEY S) [JWT_ALGORITHM S] (JWT_ISSUER S) (JWT_AUDIENCE S) = Some cl'"
    using assms by (auto simp: decode_token_def split: option.splits)
  moreover from this have "cl' = cl" by (rule decode_same)
  ultimately show ?thesis
    using assms by (auto simp: decode_token_def Let_def split: option.splits if_splits)
qed

end

interpretation ref_jwt_payloads: jwt_payloads reference_jwt
  by unfold_locales (auto simp: reference_jwt_def split: option.splits prod.splits if_splits)

subsection \<open>What an access token is worth\<close>

text \<open>
  C38: an issued access token is accepted from the second it was issued until just before
  its expiry and at no other time, and then yields exactly the subject, role and scopes it
  was issued with; a request that needs a scope the token lacks gets nothing.
\<close>

theorem access_token_lifetime:
  assumes "jwt_library J" and "jwt_configured S" and "list_all scope_word scopes"
  shows "decode_token S J t (create_access_token S J now jti subject role scopes) required =
    (if now \<le> t \<and> t < now + JWT_ACCESS_TOKEN_EXPIRE_MIN S * 60 \<and> set required \<subseteq> set scopes
     then Some \<lparr>tc_sub = subject, tc_jti = jti, tc_iss = JWT_ISSUER S, tc_aud = JWT_AUDIENCE S,
       tc_role = role, tc_scopes = scopes\<rparr>
     else None)"
  using assms by (rule jwt_library.decode_created)

lemma default_jwt_configured: "jwt_configured default_settings"
  by (simp add: jwt_configured_def default_settings_def DEFAULT_JWT_SECRET_KEY_def
      hmac_algorithms_def)

theorem access_token_lifetime_witness:
  "decode_token default_settings reference_jwt 899
      (create_access_token default_settings reference_jwt 0 ''j1'' ''u1'' ''user'' DEFAULT_USER_SCOPES)
      [''parcels:read''] \<noteq> None \<and>
    decode_token default_settings reference_jwt 900
      (create_access_token default_settings reference_jwt 0 ''j1'' ''u1'' ''user'' DEFAULT_USER_SCOPES)
      [''parcels:read''] = None \<and>
    decode_token default_settings reference_jwt 10
      (create_access_token default_settings reference_jwt 0 ''j1'' ''u1'' ''user'' DEFAULT_USER_SCOPES)
      [''tasks:run''] = None"
  using access_token_lifetime [OF ref_jwt.jwt_library_axioms default_jwt_configured default_scope_words]
  by (simp add: DEFAULT_USER_SCOPES_def)

text \<open>
  Whatever token a client presents, if it is accepted then PyJWT verified it under the
  configured key and algorithm, it is within its validity period, its issuer and audience
  are the configured ones, the returned subject is its \<^verbatim>\<open>sub\<close> claim, and it carries every
  scope the request needs.
\<close>

theorem accepted_token_verified:
  assumes "jwt_library J" and "decode_token S J now token required = Some c"
  shows "\<exists>payload. jwt_decode J now token (JWT_SECRET_KEY S) [JWT_ALGORITHM S] (JWT_ISSUER S)
      (JWT_AUDIENCE S) = Some payload \<and>
    (\<forall>e. map_of payload ''exp'' = Some (JInt e) \<longrightarrow> now < e) \<and>
    (\<forall>n. map_of payload ''nbf'' = Some (JInt n) \<longrightarrow> n \<le> now) \<and>
    map_of payload ''sub'' = Some (JStr (tc_sub c)) \<and>
    tc_iss c = JWT_ISSUER S \<and> tc_aud c = JWT_AUDIENCE S \<and> set required \<subseteq> set (tc_scopes c)"
  using assms by (rule jwt_library.decode_token_checks)

theorem accepted_token_verified_witness:
  "\<exists>payload. jwt_decode reference_jwt 5
      (create_access_token default_settings reference_jwt 0 ''j1'' ''u1'' ''user'' DEFAULT_USER_SCOPES)
      (JWT_SECRET_KEY default_settings) [JWT_ALGORITHM default_settings]
      (JWT_ISSUER default_settings) (JWT_AUDIENCE default_settings) = Some payload \<and>
    map_of payload ''sub'' = Some (JStr ''u1'')"
proof -
  have "decode_token default_settings reference_jwt 5
      (create_access_token default_settings reference_jwt 0 ''j1'' ''u1'' ''user'' DEFAULT_USER_SCOPES) [] =
    Some \<lparr>tc_sub = ''u1'', tc_jti = ''j1'', tc_iss = JWT_ISSUER default_settings,
      tc_aud = JWT_AUDIENCE default_settings, tc_role = ''user'', tc_scopes = DEFAULT_USER_SCOPES\<rparr>"
    using ref_jwt.decode_created [OF default_jwt_configured default_scope_words] by simp
  from accepted_token_verified [OF ref_jwt.jwt_library_axioms this] show ?thesis by auto
qed

end
