(* ===== verification/Requests.thy ===== *)
theory Requests
  imports Security
begin

text \<open>
  The HTTP request as the program sees it, \<^verbatim>\<open>app/api/deps.py\<close> (who is calling) and
  \<^verbatim>\<open>app/middlewares/session.py\<close> (the anonymous session).  Header names are stored in lower
  case and looked up case-insensitively, as Starlette does.  The Bearer token that
  \<^verbatim>\<open>OAuth2PasswordBearer\<close> extracts is an argument of the dependencies, as in the source.
\<close>

record request =
  rq_method :: string
  rq_path :: string
  rq_query :: string
  rq_route :: "string option"
  rq_headers :: "(string \<times> string) list"
  rq_cookies :: "(string \<times> string) list"
  rq_client :: "string option"
  rq_session :: "string option"

definition lower_char :: "char \<Rightarrow> char" where
  "lower_char c = (let n = of_char c :: nat in if 65 \<le> n \<and> n \<le> 90 then char_of (n + 32) else c)"

definition header :: "request \<Rightarrow> string \<Rightarrow> string option" where
  "header req name = map_of (rq_headers req) (map lower_char name)"

definition cookie :: "request \<Rightarrow> string \<Rightarrow> string option" where
  "cookie req name = map_of (rq_cookies req) name"

text \<open>\<^verbatim>\<open>not x\<close> of an optional string.\<close>

definition blank :: "string option \<Rightarrow> bool" where
  "blank x \<longleftrightarrow> (case x of None \<Rightarrow> True | Some s \<Rightarrow> s = [])"

text \<open>\<^verbatim>\<open>secrets.compare_digest\<close> of two strings: a \<^verbatim>\<open>TypeError\<close> unless both are ASCII.\<close>

definition is_ascii :: "string \<Rightarrow> bool" where
  "is_ascii s \<longleftrightarrow> list_all (\<lambda>c. of_char c < (128 :: nat)) s"

definition compare_digest :: "string \<Rightarrow> string \<Rightarrow> bool result" where
  "compare_digest a b =
     (if is_ascii a \<and> is_ascii b then Inr (a = b) else Inl (UnexpectedError ''TypeError''))"

subsection \<open>Dependencies\<close>

definition get_session_id :: "request \<Rightarrow> string result" where
  "get_session_id req =
     (case rq_session req of
        None \<Rightarrow> Inl (UnauthorizedError ''Missing session ID'')
      | Some s \<Rightarrow> Inr s)"

definition get_current_claims ::
  "settings \<Rightarrow> jwt_lib \<Rightarrow> instant \<Rightarrow> string option \<Rightarrow> token_claims result" where
  "get_current_claims S J now token =
     (case token of
        None \<Rightarrow> Inl (UnauthorizedError ''Missing authorization token'')
      | Some t \<Rightarrow>
          if t = [] then Inl (UnauthorizedError ''Missing authorization token'')
          else case decode_token S J now t [] of
                 None \<Rightarrow> Inl (UnauthorizedError ''Invalid or expired token'')
               | Some c \<Rightarrow> Inr c)"

definition get_current_user_id ::
  "settings \<Rightarrow> jwt_lib \<Rightarrow> instant \<Rightarrow> string option \<Rightarrow> ident result" where
  "get_current_user_id S J now token =
     (case token of
        None \<Rightarrow> Inl (UnauthorizedError ''Missing authorization token'')
      | Some t \<Rightarrow>
          if t = [] then Inl (UnauthorizedError ''Missing authorization token'')
          else case decode_token S J now t [] of
                 None \<Rightarrow> Inl (UnauthorizedError ''Invalid or expired token'')
               | Some c \<Rightarrow> Inr (tc_sub c))"

definition get_owner_id ::
  "settings \<Rightarrow> jwt_lib \<Rightarrow> instant \<Rightarrow> request \<Rightarrow> string option \<Rightarrow> string list \<Rightarrow> ident result" where
  "get_owner_id S J now req token required_scopes =
     (if AUTH_REQUIRED S then
        (case token of
           None \<Rightarrow> Inl (UnauthorizedError ''Missing authorization token'')
         | Some t \<Rightarrow>
             if t = [] then Inl (UnauthorizedError ''Missing authorization token'')
             else case decode_token S J now t required_scopes of
                    None \<Rightarrow> Inl (UnauthorizedError ''Invalid or expired token'')
                  | Some c \<Rightarrow> Inr (tc_sub c))
      else get_session_id req)"

definition get_parcel_reader_owner_id ::
  "settings \<Rightarrow> jwt_lib \<Rightarrow> instant \<Rightarrow> request \<Rightarrow> string option \<Rightarrow> ident result" where
  "get_parcel_reader_owner_id S J now req token = get_owner_id S J now req token [''parcels:read'']"

definition get_parcel_writer_owner_id ::
  "settings \<Rightarrow> jwt_lib \<Rightarrow> instant \<Rightarrow> request \<Rightarrow> string option \<Rightarrow> ident result" where
  "get_parcel_writer_owner_id S J now req token = get_owner_id S J now req token [''parcels:write'']"

definition require_task_admin_token :: "settings \<Rightarrow> string option \<Rightarrow> unit result" where
  "require_task_admin_token S x_admin_token =
     (if TASK_ADMIN_TOKEN S = [] then Inl (ForbiddenError ''Manual task trigger is disabled'')
      else case x_admin_token of
             None \<Rightarrow> Inl (ForbiddenError ''Invalid admin token'')
           | Some t \<Rightarrow>
               if t = [] then Inl (ForbiddenError ''Invalid admin token'')
               else bind_result (compare_digest t (TASK_ADMIN_TOKEN S)) (\<lambda>same.
                 if \<not> same then Inl (ForbiddenError ''Invalid admin token'') else Inr ()))"

subsection \<open>The session middleware\<close>

text \<open>
  \<^verbatim>\<open>uuid.UUID(s)\<close>: \<^verbatim>\<open>urn:\<close> and \<^verbatim>\<open>uuid:\<close> are removed, braces stripped at both ends, hyphens
  removed anywhere; 32 characters must remain and \<^verbatim>\<open>int(hex, 16)\<close> must accept them (blanks
  around, a plus sign, a \<^verbatim>\<open>0x\<close> prefix and single underscores between digits included).
\<close>

fun remove_sub :: "nat \<Rightarrow> string \<Rightarrow> string \<Rightarrow> string" where
  "remove_sub n sub [] = []"
| "remove_sub 0 sub s = s"
| "remove_sub (Suc n) sub (c # cs) =
     (if sub \<noteq> [] \<and> take (length sub) (c # cs) = sub
      then remove_sub n sub (drop (length sub) (c # cs))
      else c # remove_sub n sub cs)"

definition str_remove :: "string \<Rightarrow> string \<Rightarrow> string" where
  "str_remove sub s = remove_sub (length s) sub s"

definition strip_chars :: "(char \<Rightarrow> bool) \<Rightarrow> string \<Rightarrow> string" where
  "strip_chars P s = rev (dropWhile P (rev (dropWhile P s)))"

definition is_hex :: "char \<Rightarrow> bool" where
  "is_hex c \<longleftrightarrow> (let n = of_char c :: nat
     in 48 \<le> n \<and> n \<le> 57 \<or> 65 \<le> n \<and> n \<le> 70 \<or> 97 \<le> n \<and> n \<le> 102)"

fun hex_digits :: "string \<Rightarrow> bool" where
  "hex_digits [] = False"
| "hex_digits [c] = is_hex c"
| "hex_digits (c # d # cs) =
     (is_hex c \<and> (if d = CHR ''_'' then hex_digits cs else hex_digits (d # cs)))"

fun hex_body :: "string \<Rightarrow> bool" where
  "hex_body (z # x # cs) =
     (if z = CHR ''0'' \<and> (x = CHR ''x'' \<or> x = CHR ''X'')
      then (case cs of d # ds \<Rightarrow> if d = CHR ''_'' then hex_digits ds else hex_digits cs | [] \<Rightarrow> False)
      else hex_digits (z # x # cs))"
| "hex_body s = hex_digits s"

definition int16_ok :: "string \<Rightarrow> bool" where
  "int16_ok s =
     (case strip_chars is_space s of
        [] \<Rightarrow> False
      | c # cs \<Rightarrow> if c = CHR ''+'' \<or> c = CHR ''-'' then hex_body cs else hex_body (c # cs))"

definition uuid_ok :: "string \<Rightarrow> bool" where
  "uuid_ok s \<longleftrightarrow>
     (let h = filter (\<lambda>c. c \<noteq> CHR ''-'')
            (strip_chars (\<lambda>c. c = CHR ''{'' \<or> c = CHR ''}'')
              (str_remove ''uuid:'' (str_remove ''urn:'' s)))
      in length h = 32 \<and> int16_ok h)"

definition SESSION_HEADER :: string where
  "SESSION_HEADER = ''X-Session-Id''"

definition SUNSET_HEADER :: string where
  "SUNSET_HEADER = ''Wed, 09 Dec 2026 00:00:00 GMT''"

record set_cookie =
  sc_name :: string
  sc_value :: string
  sc_max_age :: "seconds"
  sc_httponly :: bool
  sc_secure :: bool
  sc_samesite :: string
  sc_path :: string

record http_response = response +
  rs_headers :: "(string \<times> string) list"
  rs_cookies :: "set_cookie list"

text \<open>\<open>fresh\<close> is the UUID drawn if one is needed; \<open>call_next\<close> is the rest of the application.\<close>

definition choose_session :: "ident \<Rightarrow> request \<Rightarrow> string" where
  "choose_session fresh req =
     (case header req SESSION_HEADER of
        None \<Rightarrow> fresh
      | Some s \<Rightarrow> if s = [] then fresh else if uuid_ok s then s else fresh)"

text \<open>
  \<open>call_next\<close> is the application inside: \<open>Inl\<close> is an exception none of its handlers takes,
  which passes through the middleware.
\<close>

definition assign_session_id ::
  "ident \<Rightarrow> (request \<Rightarrow> 'w \<Rightarrow> http_response result \<times> 'w) \<Rightarrow> request \<Rightarrow> 'w \<Rightarrow> http_response result \<times> 'w" where
  "assign_session_id fresh call_next req w =
     (let session = choose_session fresh req
      in case call_next (req\<lparr>rq_session := Some session\<rparr>) w of
           (Inl e, w') \<Rightarrow> (Inl e, w')
         | (Inr resp, w') \<Rightarrow>
             (Inr (resp\<lparr>rs_headers := rs_headers resp @
                [(SESSION_HEADER, session), (''Deprecation'', ''true''), (''Sunset'', SUNSET_HEADER)]\<rparr>), w'))"

subsection \<open>What the session middleware guarantees\<close>

lemma choose_session_cases:
  "choose_session fresh req = fresh \<or>
     (\<exists>s. header req SESSION_HEADER = Some s \<and> s \<noteq> [] \<and> uuid_ok s \<and> choose_session fresh req = s)"
  by (auto simp: choose_session_def split: option.splits)

lemma choose_session_known:
  "header req SESSION_HEADER = Some s \<Longrightarrow> s \<noteq> [] \<Longrightarrow> uuid_ok s \<Longrightarrow> choose_session fresh req = s"
  by (simp add: choose_session_def)

lemma uuid_ok_nonempty: "uuid_ok s \<Longrightarrow> s \<noteq> []"
  by (auto simp: uuid_ok_def str_remove_def strip_chars_def)

text \<open>
  C28: in session mode every request has an owner.  The application runs under one session
  id, a valid UUID, which is the owner of whatever the request does and comes back in the
  response together with the two deprecation headers, unless the application raised; a
  client that sends it with its next request keeps the same owner, and one that sends
  nothing, or something that is not a UUID, gets the fresh one.
\<close>

theorem session_is_stable:
  assumes "uuid_ok fresh" and "assign_session_id fresh call_next req w = (res, w')"
    and "\<not> AUTH_REQUIRED S"
  shows "\<exists>s res0. uuid_ok s \<and> call_next (req\<lparr>rq_session := Some s\<rparr>) w = (res0, w') \<and>
    (case res0 of
       Inl e \<Rightarrow> res = Inl e
     | Inr resp0 \<Rightarrow> \<exists>resp. res = Inr resp \<and> rs_headers resp = rs_headers resp0 @
           [(SESSION_HEADER, s), (''Deprecation'', ''true''), (''Sunset'', SUNSET_HEADER)] \<and>
         status_code resp = status_code resp0 \<and> content resp = content resp0) \<and>
    (\<forall>J now token scopes.
      get_owner_id S J now (req\<lparr>rq_session := Some s\<rparr>) token scopes = Inr s) \<and>
    (\<forall>req' fresh'. header req' SESSION_HEADER = Some s \<longrightarrow> choose_session fresh' req' = s) \<and>
    (s = fresh \<or> header req SESSION_HEADER = Some s) \<and>
    ((\<forall>h. header req SESSION_HEADER = Some h \<longrightarrow> \<not> uuid_ok h) \<longrightarrow> s = fresh)"
proof -
  let ?s = "choose_session fresh req"
  obtain res0 w0 where call: "call_next (req\<lparr>rq_session := Some ?s\<rparr>) w = (res0, w0)" by fastforce
  have ok: "uuid_ok ?s" using choose_session_cases [of fresh req] assms(1) by auto
  have own: "get_owner_id S J now (req\<lparr>rq_session := Some ?s\<rparr>) token scopes = Inr ?s" for J now token scopes
    using assms(3) by (simp add: get_owner_id_def get_session_id_def)
  have again: "\<forall>req' fresh'. header req' SESSION_HEADER = Some ?s \<longrightarrow> choose_session fresh' req' = ?s"
    using choose_session_known [OF _ uuid_ok_nonempty [OF ok] ok] by blast
  have src: "?s = fresh \<or> header req SESSION_HEADER = Some ?s"
    "(\<forall>h. header req SESSION_HEADER = Some h \<longrightarrow> \<not> uuid_ok h) \<longrightarrow> ?s = fresh"
    using choose_session_cases [of fresh req] by auto
  have out: "case res0 of Inl e \<Rightarrow> res = Inl e
     | Inr resp0 \<Rightarrow> \<exists>resp. res = Inr resp \<and> rs_headers resp = rs_headers resp0 @
           [(SESSION_HEADER, ?s), (''Deprecation'', ''true''), (''Sunset'', SUNSET_HEADER)] \<and>
         status_code resp = status_code resp0 \<and> content resp = content resp0" and "w' = w0"
    using call assms(2) by (auto simp: assign_session_id_def Let_def split: sum.splits)
  with call have "call_next (req\<lparr>rq_session := Some ?s\<rparr>) w = (res0, w')" by simp
  with ok out own again src show ?thesis by blast
qed

definition plain_request :: "(string \<times> string) list \<Rightarrow> request" where
  "plain_request hs = \<lparr>rq_method = ''GET'', rq_path = ''/parcels'', rq_query = [], rq_route = None,
     rq_headers = hs, rq_cookies = [], rq_client = None, rq_session = None\<rparr>"

definition sample_uuid :: string where
  "sample_uuid = ''00000000-0000-4000-8000-000000000001''"

lemma sample_uuid_ok: "uuid_ok sample_uuid"
  by code_simp

theorem session_is_stable_witness:
  "\<exists>s resp. header (plain_request [(''x-session-id'', ''no uuid'')]) SESSION_HEADER = Some ''no uuid'' \<and>
     fst (assign_session_id sample_uuid
       (\<lambda>rq w. (Inr \<lparr>status_code = 200, content = JNull, rs_headers = [], rs_cookies = []\<rparr>, w))
       (plain_request [(''x-session-id'', ''no uuid'')]) ()) = Inr resp \<and>
     (SESSION_HEADER, s) \<in> set (rs_headers resp) \<and> uuid_ok s"
proof -
  let ?next = "\<lambda>rq (w :: unit). (Inr \<lparr>status_code = 200, content = JNull, rs_headers = [], rs_cookies = []\<rparr>, w)"
  let ?req = "plain_request [(''x-session-id'', ''no uuid'')]"
  obtain res w' where r: "assign_session_id sample_uuid ?next ?req () = (res, w')" by (rule prod.exhaust)
  have "header ?req SESSION_HEADER = Some ''no uuid''" by code_simp
  with session_is_stable [OF sample_uuid_ok r, of "default_settings\<lparr>AUTH_REQUIRED := False\<rparr>"] r
  show ?thesis by auto
qed

text \<open>
  The UUID check accepts hyphens anywhere, so it does not bound the length of a session id,
  while the column holds 255 characters.
\<close>

lemma long_session_accepted: "uuid_ok (replicate 300 (CHR ''-'') @ replicate 32 (CHR ''0''))"
  by code_simp

end
