(* ===== verification/Rate_Limit.thy ===== *)
theory Rate_Limit
  imports Requests
begin

text \<open>
  \<^verbatim>\<open>app/core/rate_limit.py\<close>: the decorator that counts requests per route and client.  The
  \<^verbatim>\<open>limits\<close> package is the record \<open>limiter_lib\<close>: parsing of a limit, its text, and \<^verbatim>\<open>hit\<close> of
  the Redis-backed fixed-window strategy.  The locale \<open>fixed_window\<close> states what \<^verbatim>\<open>hit\<close>
  does to the window of a key; it is interpreted on \<open>reference_limiter\<close>.
\<close>

record 'l limiter_lib =
  l_hit :: "'l \<Rightarrow> instant \<Rightarrow> string \<Rightarrow> string \<Rightarrow> string \<Rightarrow> 'l \<times> bool"
  l_window :: "'l \<Rightarrow> string \<Rightarrow> string \<Rightarrow> string \<Rightarrow> (instant \<times> nat) option"
  l_amount :: "string \<Rightarrow> nat"
  l_seconds :: "string \<Rightarrow> seconds"
  l_str :: "string \<Rightarrow> string"

text \<open>\<open>l_window l item route client\<close> is when the key's counter started and its value.\<close>

definition window_live :: "'l limiter_lib \<Rightarrow> 'l \<Rightarrow> instant \<Rightarrow> string \<Rightarrow> string \<Rightarrow> string \<Rightarrow> bool" where
  "window_live L l now item route client \<longleftrightarrow>
     (case l_window L l item route client of
        None \<Rightarrow> False | Some (start, n) \<Rightarrow> now < start + l_seconds L item)"

locale fixed_window =
  fixes L :: "'l limiter_lib"
  assumes hit_opens:
      "\<not> window_live L l now item r c \<Longrightarrow> l_hit L l now item r c = (l', ok) \<Longrightarrow>
        l_window L l' item r c = Some (now, 1) \<and> ok = (0 < l_amount L item)"
    and hit_counts:
      "window_live L l now item r c \<Longrightarrow> l_window L l item r c = Some (start, n) \<Longrightarrow>
        l_hit L l now item r c = (l', ok) \<Longrightarrow>
        l_window L l' item r c = Some (start, n + 1) \<and> ok = (n < l_amount L item)"
    and hit_frame:
      "l_hit L l now item r c = (l', ok) \<Longrightarrow> (item', r', c') \<noteq> (item, r, c) \<Longrightarrow>
        l_window L l' item' r' c' = l_window L l item' r' c'"

subsection \<open>The decorator\<close>

definition route_identifier :: "request \<Rightarrow> string" where
  "route_identifier req =
     rq_method req @ '':'' @ (case rq_route req of None \<Rightarrow> rq_path req | Some p \<Rightarrow> p)"

definition remote_address :: "request \<Rightarrow> string" where
  "remote_address req = (case rq_client req of None \<Rightarrow> ''unknown'' | Some host \<Rightarrow> host)"

text \<open>\<open>request\<close> is what \<^verbatim>\<open>_find_request\<close> found; \<open>func\<close> is the decorated handler.\<close>

definition limit ::
  "'l limiter_lib \<Rightarrow> string \<Rightarrow> instant \<Rightarrow> request option \<Rightarrow> ('w \<Rightarrow> 'a result \<times> 'w) \<Rightarrow> 'l \<Rightarrow> 'w \<Rightarrow>
     'a result \<times> 'l \<times> 'w" where
  "limit L limit_value now req func l w =
     (case req of
        None \<Rightarrow> (Inl (RuntimeError ''Rate-limited handlers must accept a Request argument''), l, w)
      | Some rq \<Rightarrow>
          (case l_hit L l now limit_value (route_identifier rq) (remote_address rq) of
             (l', False) \<Rightarrow> (Inl (RateLimitExceeded (l_str L limit_value)), l', w)
           | (l', True) \<Rightarrow> (case func w of (res, w') \<Rightarrow> (res, l', w'))))"

text \<open>Which requests of a sequence reach the handler.\<close>

fun admitted :: "'l limiter_lib \<Rightarrow> string \<Rightarrow> (instant \<times> request) list \<Rightarrow> 'l \<Rightarrow> bool list" where
  "admitted L limit_value [] l = []"
| "admitted L limit_value ((now, rq) # rs) l =
     (case limit L limit_value now (Some rq) (\<lambda>w. (Inr (), w)) l () of
        (res, l', w) \<Rightarrow> (res = Inr ()) # admitted L limit_value rs l')"

definition same_caller :: "string \<times> string \<Rightarrow> request \<Rightarrow> bool" where
  "same_caller k rq \<longleftrightarrow> (route_identifier rq, remote_address rq) = k"

definition admitted_of :: "string \<times> string \<Rightarrow> (instant \<times> request) list \<Rightarrow> bool list \<Rightarrow> nat" where
  "admitted_of k rs bs = length (filter (\<lambda>(r, b). same_caller k (snd r) \<and> b) (zip rs bs))"

definition requests_of :: "string \<times> string \<Rightarrow> (instant \<times> request) list \<Rightarrow> nat" where
  "requests_of k rs = length (filter (\<lambda>r. same_caller k (snd r)) rs)"

lemma counts_simps [simp]:
  "admitted_of k [] bs = 0"
  "requests_of k [] = 0"
  "admitted_of k (r # rs) (b # bs) = (if same_caller k (snd r) \<and> b then 1 else 0) + admitted_of k rs bs"
  "requests_of k (r # rs) = (if same_caller k (snd r) then 1 else 0) + requests_of k rs"
  by (simp_all add: admitted_of_def requests_of_def)

lemma admitted_Cons:
  "l_hit L l now item (route_identifier rq) (remote_address rq) = (l', ok) \<Longrightarrow>
     admitted L item ((now, rq) # rs) l = ok # admitted L item rs l'"
  by (simp add: limit_def split: bool.split)

context fixed_window
begin

lemma admitted_in_window:
  assumes "l_window L l item r c = Some (start, n)" and "\<forall>(t, rq) \<in> set rs. t < start + l_seconds L item"
  shows "admitted_of (r, c) rs (admitted L item rs l) = min (l_amount L item - n) (requests_of (r, c) rs)"
  using assms
proof (induction rs arbitrary: l n)
  case Nil
  then show ?case by simp
next
  case (Cons p rs)
  obtain t rq where p: "p = (t, rq)" by (cases p)
  obtain l' ok where hit: "l_hit L l t item (route_identifier rq) (remote_address rq) = (l', ok)"
    by fastforce
  have rest: "\<forall>(t, rq) \<in> set rs. t < start + l_seconds L item" using Cons.prems(2) by simp
  show ?case
  proof (cases "same_caller (r, c) rq")
    case True
    then have key: "route_identifier rq = r" "remote_address rq = c" by (simp_all add: same_caller_def)
    have live: "window_live L l t item r c" using Cons.prems p by (simp add: window_live_def)
    from hit_counts [OF live Cons.prems(1) hit [unfolded key]]
    have w: "l_window L l' item r c = Some (start, n + 1)" and ok: "ok = (n < l_amount L item)" by simp_all
    from Cons.IH [OF w rest] ok True show ?thesis
      unfolding p admitted_Cons [OF hit] by auto
  next
    case False
    then have "l_window L l' item r c = Some (start, n)"
      using hit_frame [OF hit, of item r c] Cons.prems(1) by (auto simp: same_caller_def)
    from Cons.IH [OF this rest] False show ?thesis
      unfolding p admitted_Cons [OF hit] by simp
  qed
qed

lemma admitted_fresh:
  assumes "\<forall>(t, rq) \<in> set rs. t0 \<le> t \<and> t < t0 + l_seconds L item"
    and "\<forall>(t, rq) \<in> set rs. \<not> window_live L l t item r c"
  shows "admitted_of (r, c) rs (admitted L item rs l) = min (l_amount L item) (requests_of (r, c) rs)"
  using assms
proof (induction rs arbitrary: l)
  case Nil
  then show ?case by simp
next
  case (Cons p rs)
  obtain t rq where p: "p = (t, rq)" by (cases p)
  obtain l' ok where hit: "l_hit L l t item (route_identifier rq) (remote_address rq) = (l', ok)"
    by fastforce
  show ?case
  proof (cases "same_caller (r, c) rq")
    case True
    then have key: "route_identifier rq = r" "remote_address rq = c" by (simp_all add: same_caller_def)
    have "\<not> window_live L l t item r c" using Cons.prems(2) p by simp
    from hit_opens [OF this hit [unfolded key]]
    have w: "l_window L l' item r c = Some (t, 1)" and ok: "ok = (0 < l_amount L item)" by simp_all
    have "\<forall>(s, rq) \<in> set rs. s < t + l_seconds L item" using Cons.prems(1) p by fastforce
    from admitted_in_window [OF w this] ok True show ?thesis
      unfolding p admitted_Cons [OF hit] by auto
  next
    case False
    then have same: "l_window L l' item r c = l_window L l item r c"
      using hit_frame [OF hit, of item r c] by (auto simp: same_caller_def)
    have "\<forall>(t, rq) \<in> set rs. \<not> window_live L l' t item r c"
      using Cons.prems(2) same by (simp add: window_live_def)
    with Cons False show ?thesis unfolding p admitted_Cons [OF hit] by simp
  qed
qed

end

subsection \<open>A reference limiter\<close>

type_synonym counters = "string \<times> string \<times> string \<Rightarrow> (instant \<times> nat) option"

definition unit_seconds :: "string \<Rightarrow> seconds" where
  "unit_seconds u = (if u = ''second'' then 1 else if u = ''minute'' then 60
     else if u = ''hour'' then 3600 else 86400)"

definition reference_limiter :: "counters limiter_lib" where
  "reference_limiter = \<lparr>
     l_hit = (\<lambda>m now item r c.
       let amount = parse_nat (takeWhile is_digit item);
           window = unit_seconds (drop 1 (dropWhile is_digit item))
       in case m (item, r, c) of
            None \<Rightarrow> (m((item, r, c) := Some (now, 1)), 0 < amount)
          | Some (start, n) \<Rightarrow>
              if now < start + window then (m((item, r, c) := Some (start, n + 1)), n < amount)
              else (m((item, r, c) := Some (now, 1)), 0 < amount)),
     l_window = (\<lambda>m item r c. m (item, r, c)),
     l_amount = (\<lambda>item. parse_nat (takeWhile is_digit item)),
     l_seconds = (\<lambda>item. unit_seconds (drop 1 (dropWhile is_digit item))),
     l_str = (\<lambda>item. takeWhile is_digit item @ '' per 1 '' @ drop 1 (dropWhile is_digit item))\<rparr>"

definition no_counters :: counters where
  "no_counters = (\<lambda>_. None)"

interpretation ref_limiter: fixed_window reference_limiter
  by unfold_locales
    (auto simp: reference_limiter_def window_live_def Let_def split: option.splits if_splits)


definition sample_request :: "string \<Rightarrow> request" where
  "sample_request host = \<lparr>rq_method = ''POST'', rq_path = ''/tasks/recalc-delivery'', rq_query = [],
     rq_route = Some ''/tasks/recalc-delivery'', rq_headers = [], rq_cookies = [],
     rq_client = Some host, rq_session = None\<rparr>"


end
