(* ===== verification/Models.thy ===== *)
theory Models
  imports Settings
begin

text \<open>
  The ORM models of \<^verbatim>\<open>app/models\<close> as records, the database as the record of its four
  tables (lists of rows), and the writes the program issues, checked against the
  constraints the models declare: primary keys, unique columns, foreign keys, column
  lengths, \<^verbatim>\<open>Numeric\<close> precision and the three \<^verbatim>\<open>CHECK\<close> constraints of \<^verbatim>\<open>parcel\<close>.

  Two things are the database's own and so arguments of the model (record \<open>engine\<close>): the
  conversion of a decimal to a \<^verbatim>\<open>Numeric(p, s)\<close> column and the rows a \<^verbatim>\<open>LIMIT\<close> without an
  \<^verbatim>\<open>ORDER BY\<close> returns.  The locale \<open>sql_engine\<close> states their documented behaviour; it is
  interpreted on \<open>reference_engine\<close>.
\<close>

subsection \<open>Numeric columns\<close>

text \<open>\<open>dec_scale_ok s d\<close>: at most \<open>s\<close> decimal places; \<open>dec_whole_lt k d\<close>: at most \<open>k\<close>
  digits before the point.\<close>

definition dec_scale_ok :: "nat \<Rightarrow> decimal \<Rightarrow> bool" where
  "dec_scale_ok s d \<longleftrightarrow>
     - int s \<le> dec_exp d \<or> 10 ^ nat (- dec_exp d - int s) dvd dec_coeff d"

definition dec_whole_lt :: "nat \<Rightarrow> decimal \<Rightarrow> bool" where
  "dec_whole_lt k d \<longleftrightarrow>
     dec_coeff d * 10 ^ nat (dec_exp d) < 10 ^ k * 10 ^ nat (- dec_exp d)"

lemma abs_dec_val: "\<bar>dec_val d\<bar> = of_nat (dec_coeff d) * 10 powi dec_exp d"
  by (simp add: dec_val_eq abs_mult)

lemma powi_split: "(10::rat) powi e = 10 ^ nat e / 10 ^ nat (- e)"
  by (cases "0 \<le> e") (simp_all add: power_int_def power_one_over field_simps)

lemma dec_whole_lt_iff: "dec_whole_lt k d \<longleftrightarrow> \<bar>dec_val d\<bar> < 10 ^ k"
proof -
  have "\<bar>dec_val d\<bar> < 10 ^ k \<longleftrightarrow>
      (of_nat (dec_coeff d * 10 ^ nat (dec_exp d)) :: rat) < of_nat (10 ^ k * 10 ^ nat (- dec_exp d))"
    by (simp add: abs_dec_val powi_split field_simps)
  then show ?thesis by (simp only: dec_whole_lt_def of_nat_less_iff)
qed

subsection \<open>Tables\<close>

record parcel_type =
  pt_id :: ident
  pt_name :: string

record parcel =
  p_id :: ident
  p_name :: string
  p_weight_kg :: decimal
  p_declared_value_usd :: decimal
  p_session_id :: string
  p_delivery_cost_rub :: "decimal option"
  p_parcel_type_id :: ident
  p_user_id :: "ident option"

record user =
  u_id :: ident
  u_email :: string
  u_hashed_password :: string
  u_role :: string
  u_created_at :: instant

record refresh_token =
  rt_jti :: ident
  rt_user_id :: ident
  rt_token_hash :: string
  rt_family_id :: ident
  rt_expires_at :: instant
  rt_revoked_at :: "instant option"
  rt_replaced_by_jti :: "ident option"
  rt_created_at :: instant

record db =
  parcel_types :: "parcel_type list"
  parcels :: "parcel list"
  users :: "user list"
  refresh_tokens :: "refresh_token list"

record engine =
  numeric_column :: "nat \<Rightarrow> nat \<Rightarrow> decimal \<Rightarrow> decimal option"
  limit_rows :: "nat \<Rightarrow> parcel list \<Rightarrow> parcel list"

locale sql_engine =
  fixes E :: engine
  assumes numeric_nonneg:
      "numeric_column E p s d = Some d' \<Longrightarrow> 0 \<le> dec_val d \<Longrightarrow> 0 \<le> dec_val d'"
    and numeric_exact:
      "s \<le> p \<Longrightarrow> dec_scale_ok s d \<Longrightarrow> dec_whole_lt (p - s) d \<Longrightarrow>
        \<exists>d'. numeric_column E p s d = Some d' \<and> dec_val d' = dec_val d"
    and numeric_out_of_range:
      "s \<le> p \<Longrightarrow> \<not> dec_whole_lt (p - s) d \<Longrightarrow> numeric_column E p s d = None"
    and numeric_rounds:
      "s \<le> p \<Longrightarrow> \<bar>dec_val d\<bar> \<le> 10 ^ (p - s) - 1 \<Longrightarrow>
        \<exists>d'. numeric_column E p s d = Some d' \<and> \<bar>dec_val d' - dec_val d\<bar> \<le> 1 / (2 * 10 ^ s)"
    and limit_rows_subset: "set (limit_rows E n rows) \<subseteq> set rows"
    and limit_rows_length: "length (limit_rows E n rows) = min n (length rows)"
    and limit_rows_distinct: "distinct (map p_id rows) \<Longrightarrow> distinct (map p_id (limit_rows E n rows))"

subsection \<open>Constraints declared by the models\<close>

definition parcel_row_ok :: "parcel \<Rightarrow> bool" where
  "parcel_row_ok p \<longleftrightarrow>
     length (p_id p) \<le> 36 \<and> length (p_name p) \<le> 255 \<and> length (p_session_id p) \<le> 255 \<and>
     length (p_parcel_type_id p) \<le> 36 \<and>
     (case p_user_id p of None \<Rightarrow> True | Some u \<Rightarrow> length u \<le> 36) \<and>
     0 < dec_val (p_weight_kg p) \<and>
     0 \<le> dec_val (p_declared_value_usd p) \<and>
     (case p_delivery_cost_rub p of None \<Rightarrow> True | Some c \<Rightarrow> 0 \<le> dec_val c)"

definition user_row_ok :: "user \<Rightarrow> bool" where
  "user_row_ok u \<longleftrightarrow>
     length (u_id u) \<le> 36 \<and> length (u_email u) \<le> 255 \<and>
     length (u_hashed_password u) \<le> 255 \<and> length (u_role u) \<le> 50"

definition token_row_ok :: "refresh_token \<Rightarrow> bool" where
  "token_row_ok t \<longleftrightarrow>
     length (rt_jti t) \<le> 36 \<and> length (rt_user_id t) \<le> 36 \<and>
     length (rt_token_hash t) \<le> 64 \<and> length (rt_family_id t) \<le> 36 \<and>
     (case rt_replaced_by_jti t of None \<Rightarrow> True | Some j \<Rightarrow> length j \<le> 36)"

definition type_row_ok :: "parcel_type \<Rightarrow> bool" where
  "type_row_ok t \<longleftrightarrow> length (pt_id t) \<le> 36 \<and> length (pt_name t) \<le> 50"

text \<open>Every constraint of the schema holds of the stored rows.\<close>

definition types_ok :: "parcel_type list \<Rightarrow> bool" where
  "types_ok tys \<longleftrightarrow>
     distinct (map pt_id tys) \<and> distinct (map pt_name tys) \<and> list_all type_row_ok tys"

definition users_ok :: "user list \<Rightarrow> bool" where
  "users_ok us \<longleftrightarrow>
     distinct (map u_id us) \<and> distinct (map u_email us) \<and> list_all user_row_ok us"

definition parcel_refs_ok :: "parcel_type list \<Rightarrow> user list \<Rightarrow> parcel \<Rightarrow> bool" where
  "parcel_refs_ok tys us p \<longleftrightarrow>
     p_parcel_type_id p \<in> pt_id ` set tys \<and>
     (case p_user_id p of None \<Rightarrow> True | Some u \<Rightarrow> u \<in> u_id ` set us)"

definition parcels_ok :: "parcel_type list \<Rightarrow> user list \<Rightarrow> parcel list \<Rightarrow> bool" where
  "parcels_ok tys us ps \<longleftrightarrow>
     distinct (map p_id ps) \<and> list_all parcel_row_ok ps \<and> list_all (parcel_refs_ok tys us) ps"

definition tokens_ok :: "user list \<Rightarrow> refresh_token list \<Rightarrow> bool" where
  "tokens_ok us ts \<longleftrightarrow>
     distinct (map rt_jti ts) \<and> distinct (map rt_token_hash ts) \<and> list_all token_row_ok ts \<and>
     list_all (\<lambda>t. rt_user_id t \<in> u_id ` set us) ts"

definition db_ok :: "db \<Rightarrow> bool" where
  "db_ok db \<longleftrightarrow>
     types_ok (parcel_types db) \<and> users_ok (users db) \<and>
     parcels_ok (parcel_types db) (users db) (parcels db) \<and>
     tokens_ok (users db) (refresh_tokens db)"

subsection \<open>Inserting and updating rows\<close>

definition store_parcel :: "engine \<Rightarrow> parcel \<Rightarrow> parcel result" where
  "store_parcel E p =
     (case (numeric_column E 10 3 (p_weight_kg p), numeric_column E 12 2 (p_declared_value_usd p))
      of (Some w, Some v) \<Rightarrow>
        (case p_delivery_cost_rub p of
           None \<Rightarrow> Inr (p\<lparr>p_weight_kg := w, p_declared_value_usd := v\<rparr>)
         | Some c \<Rightarrow>
             (case numeric_column E 12 2 c of
                Some c' \<Rightarrow> Inr (p\<lparr>p_weight_kg := w, p_declared_value_usd := v,
                                  p_delivery_cost_rub := Some c'\<rparr>)
              | None \<Rightarrow> Inl (DatabaseError ''Out of range value for column'')))
       | _ \<Rightarrow> Inl (DatabaseError ''Out of range value for column''))"

definition insert_parcel :: "engine \<Rightarrow> parcel \<Rightarrow> db \<Rightarrow> (parcel \<times> db) result" where
  "insert_parcel E p db =
     bind_result (store_parcel E p) (\<lambda>p'.
       if \<not> parcel_row_ok p' then Inl (DatabaseError ''Constraint violated on parcel'')
       else if p_id p' \<in> p_id ` set (parcels db) then Inl (DatabaseError ''Duplicate entry'')
       else if \<not> parcel_refs_ok (parcel_types db) (users db) p' then
         Inl (DatabaseError ''Foreign key constraint fails'')
       else Inr (p', db\<lparr>parcels := parcels db @ [p']\<rparr>))"

definition insert_user :: "user \<Rightarrow> db \<Rightarrow> db result" where
  "insert_user u db =
     (if \<not> user_row_ok u then Inl (DatabaseError ''Data too long for column'')
      else if u_id u \<in> u_id ` set (users db) \<or> u_email u \<in> u_email ` set (users db) then
        Inl (DatabaseError ''Duplicate entry'')
      else Inr (db\<lparr>users := users db @ [u]\<rparr>))"

definition insert_token :: "refresh_token \<Rightarrow> db \<Rightarrow> db result" where
  "insert_token t db =
     (if \<not> token_row_ok t then Inl (DatabaseError ''Data too long for column'')
      else if rt_jti t \<in> rt_jti ` set (refresh_tokens db) \<or>
              rt_token_hash t \<in> rt_token_hash ` set (refresh_tokens db) then
        Inl (DatabaseError ''Duplicate entry'')
      else if rt_user_id t \<notin> u_id ` set (users db) then
        Inl (DatabaseError ''Foreign key constraint fails'')
      else Inr (db\<lparr>refresh_tokens := refresh_tokens db @ [t]\<rparr>))"

definition update_cost :: "engine \<Rightarrow> ident \<Rightarrow> decimal \<Rightarrow> db \<Rightarrow> db result" where
  "update_cost E i c db =
     (case numeric_column E 12 2 c of
        None \<Rightarrow> Inl (DatabaseError ''Out of range value for column'')
      | Some c' \<Rightarrow>
          if dec_val c' < 0 then Inl (DatabaseError ''Constraint violated on parcel'')
          else Inr (db\<lparr>parcels :=
            update_where (\<lambda>p. p_id p = i) (p_delivery_cost_rub_update (\<lambda>_. Some c')) (parcels db)\<rparr>))"

text \<open>
  \<open>revoke_where\<close> is \<^verbatim>\<open>UPDATE refresh_token SET revoked_at = :t WHERE ...\<close>; \<open>set_token\<close> the
  update of the attributes of one loaded token, which the unit of work issues by primary key.
\<close>

definition revoke_where :: "(refresh_token \<Rightarrow> bool) \<Rightarrow> instant \<Rightarrow> db \<Rightarrow> db" where
  "revoke_where P t db =
     db\<lparr>refresh_tokens := update_where P (rt_revoked_at_update (\<lambda>_. Some t)) (refresh_tokens db)\<rparr>"

definition set_token :: "ident \<Rightarrow> (refresh_token \<Rightarrow> refresh_token) \<Rightarrow> db \<Rightarrow> db" where
  "set_token jti f db =
     db\<lparr>refresh_tokens := update_where (\<lambda>t. rt_jti t = jti) f (refresh_tokens db)\<rparr>"

subsection \<open>What the writes keep\<close>

lemmas db_ok_defs = db_ok_def types_ok_def users_ok_def parcels_ok_def tokens_ok_def

lemma store_parcel_InrD:
  assumes "store_parcel E p = Inr p'"
  shows "p_id p' = p_id p \<and> p_name p' = p_name p \<and> p_session_id p' = p_session_id p \<and>
    p_parcel_type_id p' = p_parcel_type_id p \<and> p_user_id p' = p_user_id p \<and>
    numeric_column E 10 3 (p_weight_kg p) = Some (p_weight_kg p') \<and>
    numeric_column E 12 2 (p_declared_value_usd p) = Some (p_declared_value_usd p') \<and>
    (p_delivery_cost_rub p' = None \<longleftrightarrow> p_delivery_cost_rub p = None)"
  using assms by (auto simp: store_parcel_def split: option.splits)

lemma insert_parcel_Inr_iff:
  "insert_parcel E p db = Inr (p', db') \<longleftrightarrow>
     store_parcel E p = Inr p' \<and> parcel_row_ok p' \<and> p_id p' \<notin> p_id ` set (parcels db) \<and>
     parcel_refs_ok (parcel_types db) (users db) p' \<and>
     db' = db\<lparr>parcels := parcels db @ [p']\<rparr>"
  by (auto simp: insert_parcel_def bind_result_eq_Inr split: if_splits)

lemma insert_user_Inr_iff:
  "insert_user u db = Inr db' \<longleftrightarrow>
     user_row_ok u \<and> u_id u \<notin> u_id ` set (users db) \<and> u_email u \<notin> u_email ` set (users db) \<and>
     db' = db\<lparr>users := users db @ [u]\<rparr>"
  by (auto simp: insert_user_def split: if_splits)

lemma insert_token_Inr_iff:
  "insert_token t db = Inr db' \<longleftrightarrow>
     token_row_ok t \<and> rt_jti t \<notin> rt_jti ` set (refresh_tokens db) \<and>
     rt_token_hash t \<notin> rt_token_hash ` set (refresh_tokens db) \<and>
     rt_user_id t \<in> u_id ` set (users db) \<and>
     db' = db\<lparr>refresh_tokens := refresh_tokens db @ [t]\<rparr>"
  by (auto simp: insert_token_def split: if_splits)

lemma insert_parcel_db_ok: "insert_parcel E p db = Inr (p', db') \<Longrightarrow> db_ok db \<Longrightarrow> db_ok db'"
  by (auto simp: insert_parcel_Inr_iff db_ok_defs)

lemma parcel_refs_ok_mono:
  "parcel_refs_ok tys us p \<Longrightarrow> set us \<subseteq> set us' \<Longrightarrow> parcel_refs_ok tys us' p"
  by (auto simp: parcel_refs_ok_def split: option.splits)

lemma insert_user_db_ok:
  assumes "insert_user u db = Inr db'" and "db_ok db"
  shows "db_ok db'"
proof -
  have "list_all (parcel_refs_ok (parcel_types db) (users db @ [u])) (parcels db)"
    using assms(2)
    by (auto simp: db_ok_defs list_all_iff intro: parcel_refs_ok_mono)
  with assms show ?thesis
    by (auto simp: insert_user_Inr_iff db_ok_defs list_all_iff)
qed

lemma insert_token_db_ok: "insert_token t db = Inr db' \<Longrightarrow> db_ok db \<Longrightarrow> db_ok db'"
  by (auto simp: insert_token_Inr_iff db_ok_defs)

lemma update_tokens_db_ok:
  assumes "db_ok db"
    and keep: "\<And>t. rt_jti (f t) = rt_jti t \<and> rt_user_id (f t) = rt_user_id t \<and>
      rt_token_hash (f t) = rt_token_hash t"
    and ok: "\<And>t. token_row_ok t \<Longrightarrow> token_row_ok (f t)"
  shows "db_ok (db\<lparr>refresh_tokens := update_where P f (refresh_tokens db)\<rparr>)"
  using assms(1) keep ok
  by (auto simp: db_ok_defs map_update_where list_all_iff in_update_where)

lemma revoke_where_db_ok: "db_ok db \<Longrightarrow> db_ok (revoke_where P t db)"
  unfolding revoke_where_def by (rule update_tokens_db_ok) (auto simp: token_row_ok_def)

lemma update_cost_Inr_iff:
  "update_cost E i c db = Inr db' \<longleftrightarrow>
     (\<exists>c'. numeric_column E 12 2 c = Some c' \<and> 0 \<le> dec_val c' \<and>
       db' = db\<lparr>parcels := update_where (\<lambda>p. p_id p = i)
         (p_delivery_cost_rub_update (\<lambda>_. Some c')) (parcels db)\<rparr>)"
  by (auto simp: update_cost_def not_less split: option.splits)

lemma update_cost_db_ok:
  assumes "update_cost E i c db = Inr db'" and "db_ok db"
  shows "db_ok db'"
proof -
  obtain c' where c': "0 \<le> dec_val c'"
      "db' = db\<lparr>parcels := update_where (\<lambda>p. p_id p = i)
         (p_delivery_cost_rub_update (\<lambda>_. Some c')) (parcels db)\<rparr>"
    using assms(1) by (auto simp: update_cost_Inr_iff)
  with assms(2) show ?thesis
    by (auto simp: db_ok_defs map_update_where list_all_iff in_update_where parcel_row_ok_def
        parcel_refs_ok_def)
qed

subsection \<open>A reference engine\<close>

text \<open>
  \<open>scaled s d\<close> is \<open>d\<close> in units of \<open>10 ^ - s\<close>, rounded half away from zero as a strict-mode
  \<^verbatim>\<open>DECIMAL\<close> column does; a value of more than \<open>p\<close> digits is refused.
\<close>

definition scaled :: "nat \<Rightarrow> decimal \<Rightarrow> int" where
  "scaled s d =
     (let k = - dec_exp d - int s
      in if k \<le> 0 then dec_int d * 10 ^ nat (- k)
         else (let q = dec_coeff d div 10 ^ nat k; r = dec_coeff d mod 10 ^ nat k;
                   m = (if 10 ^ nat k \<le> 2 * r then q + 1 else q)
               in if dec_neg d then - int m else int m))"

definition reference_numeric :: "nat \<Rightarrow> nat \<Rightarrow> decimal \<Rightarrow> decimal option" where
  "reference_numeric p s d =
     (let i = scaled s d
      in if \<bar>i\<bar> < 10 ^ p then Some (Dec (i < 0) (nat \<bar>i\<bar>) (- int s)) else None)"

definition reference_engine :: engine where
  "reference_engine = \<lparr>numeric_column = reference_numeric, limit_rows = take\<rparr>"

lemma reference_engine_simps [simp]:
  "numeric_column reference_engine = reference_numeric"
  "limit_rows reference_engine = take"
  by (simp_all add: reference_engine_def)

lemma div_mod_round:
  fixes c n :: nat
  assumes "0 < n"
  shows "\<bar>of_nat (if n \<le> 2 * (c mod n) then c div n + 1 else c div n) - of_nat c / (of_nat n :: rat)\<bar>
    \<le> 1 / 2"
proof -
  have c: "of_nat c = (of_nat (c div n) * of_nat n + of_nat (c mod n) :: rat)"
    by (metis div_mult_mod_eq of_nat_add of_nat_mult)
  have "c mod n < n" using assms by simp
  then have r: "(of_nat (c mod n) :: rat) < of_nat n" by (simp only: of_nat_less_iff)
  show ?thesis
  proof (cases "n \<le> 2 * (c mod n)")
    case True
    then have "(of_nat n :: rat) \<le> 2 * of_nat (c mod n)"
      by (metis of_nat_le_iff of_nat_mult of_nat_numeral)
    with True r assms show ?thesis
      unfolding c by (simp add: field_simps abs_le_iff)
  next
    case False
    then have "(2 * of_nat (c mod n) :: rat) \<le> of_nat n"
      by (metis nat_le_linear of_nat_le_iff of_nat_mult of_nat_numeral)
    with False r assms show ?thesis
      unfolding c by (simp add: field_simps abs_le_iff)
  qed
qed

lemma scaled_shift: "dec_val d * 10 ^ s = of_int (dec_int d) * 10 powi (dec_exp d + int s)"
  by (simp add: dec_val_def power_int_add)

lemma scaled_whole:
  "- int s \<le> dec_exp d \<Longrightarrow> of_int (scaled s d) = dec_val d * 10 ^ s"
  by (simp add: scaled_shift scaled_def power_int_def add.commute)

lemma scaled_frac:
  assumes "dec_exp d < - int s"
  defines "n \<equiv> 10 ^ nat (- dec_exp d - int s)" and "c \<equiv> dec_coeff d"
    and "sg \<equiv> (if dec_neg d then - 1 else 1)"
  shows "scaled s d = sg * int (if n \<le> 2 * (c mod n) then c div n + 1 else c div n)"
    and "dec_val d * 10 ^ s = of_int sg * (of_nat c / of_nat n)"
proof -
  show "scaled s d = sg * int (if n \<le> 2 * (c mod n) then c div n + 1 else c div n)"
    using assms(1) by (simp add: scaled_def n_def c_def sg_def Let_def)
  have "(10::rat) powi (dec_exp d + int s) = 1 / of_nat n"
    using assms(1) by (simp add: n_def power_int_def power_one_over)
  then show "dec_val d * 10 ^ s = of_int sg * (of_nat c / of_nat n)"
    by (simp add: scaled_shift dec_int_def sg_def c_def)
qed

lemma scaled_error: "\<bar>of_int (scaled s d) - dec_val d * 10 ^ s\<bar> \<le> 1 / 2"
proof (cases "- int s \<le> dec_exp d")
  case True
  then show ?thesis by (simp add: scaled_whole)
next
  case False
  let ?n = "10 ^ nat (- dec_exp d - int s) :: nat" and ?c = "dec_coeff d"
  let ?m = "if ?n \<le> 2 * (?c mod ?n) then ?c div ?n + 1 else ?c div ?n"
  let ?sg = "if dec_neg d then - 1 else 1 :: int"
  have "of_int (scaled s d) - dec_val d * 10 ^ s = of_int ?sg * (of_nat ?m - of_nat ?c / of_nat ?n)"
    using False scaled_frac [of d s] by (simp add: right_diff_distrib)
  then have "\<bar>of_int (scaled s d) - dec_val d * 10 ^ s\<bar> = \<bar>of_nat ?m - of_nat ?c / (of_nat ?n :: rat)\<bar>"
    by (simp only: abs_mult) simp
  with div_mod_round [of ?n ?c] show ?thesis by simp
qed

lemma scaled_exact:
  assumes "dec_scale_ok s d"
  shows "of_int (scaled s d) = dec_val d * 10 ^ s"
proof (cases "- int s \<le> dec_exp d")
  case True
  then show ?thesis by (rule scaled_whole)
next
  case False
  let ?n = "10 ^ nat (- dec_exp d - int s) :: nat"
  from assms False have "?n dvd dec_coeff d" by (simp add: dec_scale_ok_def)
  then obtain m where m: "dec_coeff d = ?n * m" by (rule dvdE)
  from False m have "scaled s d = (if dec_neg d then - 1 else 1) * int m"
    using scaled_frac(1) [of d s] by simp
  moreover have "dec_val d * 10 ^ s = of_int (if dec_neg d then - 1 else 1) * of_nat m"
    using scaled_frac(2) [of d s] False m by simp
  ultimately show ?thesis by simp
qed

lemma scaled_sign: "0 \<le> dec_val d \<Longrightarrow> 0 \<le> scaled s d"
  by (auto simp: dec_val_nonneg_iff scaled_def Let_def dec_int_def)

lemma dec_val_scaled: "dec_val (Dec (i < 0) (nat \<bar>i\<bar>) (- int s)) = of_int i / 10 ^ s"
  by (simp add: dec_val_Dec power_int_minus field_simps)

interpretation ref_engine: sql_engine reference_engine
proof
  fix p s d d'
  assume "numeric_column reference_engine p s d = Some d'" and "0 \<le> dec_val d"
  then show "0 \<le> dec_val d'"
    using scaled_sign [of d s]
    by (auto simp: reference_numeric_def Let_def dec_val_nonneg_iff split: if_splits)
next
  fix s p d
  assume sp: "s \<le> p" and "dec_scale_ok s d" and lt: "dec_whole_lt (p - s) d"
  then have sc: "of_int (scaled s d) = dec_val d * 10 ^ s" by (simp add: scaled_exact)
  have "\<bar>dec_val d\<bar> * 10 ^ s < 10 ^ (p - s) * 10 ^ s"
    using lt by (simp add: dec_whole_lt_iff)
  then have "(of_int \<bar>scaled s d\<bar> :: rat) < of_int (10 ^ p)"
    using sp by (simp add: sc abs_mult power_add [symmetric])
  then have "\<bar>scaled s d\<bar> < 10 ^ p" by (simp only: of_int_less_iff)
  then show "\<exists>d'. numeric_column reference_engine p s d = Some d' \<and> dec_val d' = dec_val d"
    by (simp add: reference_numeric_def Let_def dec_val_scaled sc)
next
  fix s p d
  assume sp: "s \<le> p" and "\<not> dec_whole_lt (p - s) d"
  then have "10 ^ (p - s) * 10 ^ s \<le> \<bar>dec_val d\<bar> * 10 ^ s"
    by (simp add: dec_whole_lt_iff not_less)
  then have "(10::rat) ^ p \<le> \<bar>dec_val d * 10 ^ s\<bar>"
    using sp by (simp add: abs_mult power_add [symmetric])
  with scaled_error [of s d] have "(10::rat) ^ p - 1 < \<bar>of_int (scaled s d)\<bar>"
    by linarith
  then have "of_int (10 ^ p - 1) < (of_int \<bar>scaled s d\<bar> :: rat)" by simp
  then have "10 ^ p - 1 < \<bar>scaled s d\<bar>" by (simp only: of_int_less_iff)
  then show "numeric_column reference_engine p s d = None"
    by (simp add: reference_numeric_def Let_def)
next
  fix s p d
  assume sp: "s \<le> p" and le: "\<bar>dec_val d\<bar> \<le> 10 ^ (p - s) - 1"
  then have "\<bar>dec_val d\<bar> * 10 ^ s \<le> (10 ^ (p - s) - 1) * 10 ^ s" by (simp add: mult_right_mono)
  also have "\<dots> = 10 ^ p - 10 ^ s"
    using sp by (simp add: left_diff_distrib power_add [symmetric])
  finally have "\<bar>dec_val d * 10 ^ s\<bar> \<le> 10 ^ p - (1::rat)"
    by (simp add: abs_mult) (meson diff_left_mono one_le_power order_trans one_le_numeral)
  with scaled_error [of s d] have "\<bar>of_int (scaled s d)\<bar> < (10::rat) ^ p"
    by linarith
  then have "(of_int \<bar>scaled s d\<bar> :: rat) < of_int (10 ^ p)" by simp
  then have "\<bar>scaled s d\<bar> < 10 ^ p" by (simp only: of_int_less_iff)
  moreover have "\<bar>of_int (scaled s d) / 10 ^ s - dec_val d\<bar> \<le> 1 / (2 * 10 ^ s)"
  proof -
    have "of_int (scaled s d) / 10 ^ s - dec_val d = (of_int (scaled s d) - dec_val d * 10 ^ s) / 10 ^ s"
      by (simp add: field_simps)
    then show ?thesis using scaled_error [of s d] by (simp add: field_simps)
  qed
  ultimately show "\<exists>d'. numeric_column reference_engine p s d = Some d' \<and>
      \<bar>dec_val d' - dec_val d\<bar> \<le> 1 / (2 * 10 ^ s)"
    by (simp add: reference_numeric_def Let_def dec_val_scaled)
qed (auto simp: distinct_map take_map [symmetric] dest: in_set_takeD distinct_take inj_on_subset)

end
