(* ===== verification/Auth_Service.thy ===== *)
theory Auth_Service
  imports Models Security
begin

text \<open>
  \<^verbatim>\<open>app/services/auth.py\<close>: registration, login, rotation of refresh tokens and logout, as
  functions of the database.  An operation returns its result and the database it leaves,
  also when it raises: \<^verbatim>\<open>refresh\<close> commits revocations before it raises, and \<^verbatim>\<open>register\<close>
  commits the user before it issues tokens.  What one call draws from the clock and from
  \<^verbatim>\<open>uuid4\<close>/\<^verbatim>\<open>secrets\<close> is a record of draws.
\<close>

record draws =
  d_now :: instant
  d_access_now :: instant
  d_raw_token :: string
  d_jti :: ident
  d_csrf :: string
  d_family_id :: ident
  d_access_jti :: ident

record user_draws =
  d_salt :: string
  d_user_id :: ident
  d_created_at :: instant

record auth_result =
  ar_user :: user
  ar_access_token :: string
  ar_refresh_token :: string
  ar_csrf_token :: string

subsection \<open>Operations\<close>

definition refresh_expires_at :: "settings \<Rightarrow> instant \<Rightarrow> instant" where
  "refresh_expires_at S now = now + JWT_REFRESH_TOKEN_EXPIRE_DAYS S * 86400"

definition create_user_access_token ::
  "settings \<Rightarrow> jwt_lib \<Rightarrow> instant \<Rightarrow> ident \<Rightarrow> user \<Rightarrow> string" where
  "create_user_access_token S J now jti u =
     create_access_token S J now jti (u_id u)
       (if u_role u = [] then DEFAULT_USER_ROLE else u_role u) DEFAULT_USER_SCOPES"

definition new_refresh_row :: "settings \<Rightarrow> crypto \<Rightarrow> draws \<Rightarrow> ident \<Rightarrow> ident \<Rightarrow> refresh_token" where
  "new_refresh_row S C d user family = \<lparr>
     rt_jti = d_jti d, rt_user_id = user, rt_token_hash = hash_token C (d_raw_token d),
     rt_family_id = family, rt_expires_at = refresh_expires_at S (d_now d),
     rt_revoked_at = None, rt_replaced_by_jti = None, rt_created_at = d_now d\<rparr>"

definition new_auth_result :: "settings \<Rightarrow> jwt_lib \<Rightarrow> draws \<Rightarrow> user \<Rightarrow> auth_result" where
  "new_auth_result S J d u = \<lparr>
     ar_user = u,
     ar_access_token = create_user_access_token S J (d_access_now d) (d_access_jti d) u,
     ar_refresh_token = d_raw_token d, ar_csrf_token = d_csrf d\<rparr>"

definition issue_tokens ::
  "settings \<Rightarrow> crypto \<Rightarrow> jwt_lib \<Rightarrow> draws \<Rightarrow> user \<Rightarrow> db \<Rightarrow> auth_result result \<times> db" where
  "issue_tokens S C J d u db =
     (case insert_token (new_refresh_row S C d (u_id u) (d_family_id d)) db of
        Inl e \<Rightarrow> (Inl e, db)
      | Inr db' \<Rightarrow> (Inr (new_auth_result S J d u), db'))"

definition register ::
  "settings \<Rightarrow> crypto \<Rightarrow> jwt_lib \<Rightarrow> user_draws \<Rightarrow> draws \<Rightarrow> string \<Rightarrow> string \<Rightarrow> db \<Rightarrow>
     auth_result result \<times> db" where
  "register S C J ud d email password db =
     (case find_by u_email (users db) email of
        Some existing \<Rightarrow> (Inl (BusinessError ''Email already registered''), db)
      | None \<Rightarrow>
          (case hash_password C (d_salt ud) password of
             Inl e \<Rightarrow> (Inl e, db)
           | Inr h \<Rightarrow>
               (let u = \<lparr>u_id = d_user_id ud, u_email = email, u_hashed_password = h,
                         u_role = DEFAULT_USER_ROLE, u_created_at = d_created_at ud\<rparr>
                in case insert_user u db of
                     Inl e \<Rightarrow> (Inl e, db)
                   | Inr db1 \<Rightarrow> issue_tokens S C J d u db1)))"

definition login ::
  "settings \<Rightarrow> crypto \<Rightarrow> jwt_lib \<Rightarrow> draws \<Rightarrow> string \<Rightarrow> string \<Rightarrow> db \<Rightarrow> auth_result result \<times> db" where
  "login S C J d email password db =
     (case find_by u_email (users db) email of
        None \<Rightarrow> (Inl (UnauthorizedError ''Invalid email or password''), db)
      | Some u \<Rightarrow>
          (case verify_password C password (u_hashed_password u) of
             Inl e \<Rightarrow> (Inl e, db)
           | Inr False \<Rightarrow> (Inl (UnauthorizedError ''Invalid email or password''), db)
           | Inr True \<Rightarrow> issue_tokens S C J d u db))"

definition get_refresh_token :: "crypto \<Rightarrow> string \<Rightarrow> db \<Rightarrow> refresh_token result" where
  "get_refresh_token C raw db =
     (case find_by rt_token_hash (refresh_tokens db) (hash_token C raw) of
        None \<Rightarrow> Inl (UnauthorizedError ''Invalid refresh token'')
      | Some t \<Rightarrow> Inr t)"

abbreviation active :: "refresh_token \<Rightarrow> bool" where
  "active t \<equiv> rt_revoked_at t = None"

definition revoke_family :: "ident \<Rightarrow> instant \<Rightarrow> db \<Rightarrow> db" where
  "revoke_family family_id now db =
     revoke_where (\<lambda>t. rt_family_id t = family_id \<and> active t) now db"

definition stamp_revoked :: "refresh_token \<Rightarrow> instant \<Rightarrow> db \<Rightarrow> db" where
  "stamp_revoked t now db = set_token (rt_jti t) (rt_revoked_at_update (\<lambda>_. Some now)) db"

definition replace_token :: "refresh_token \<Rightarrow> instant \<Rightarrow> ident \<Rightarrow> db \<Rightarrow> db" where
  "replace_token t now jti db =
     set_token (rt_jti t)
       (\<lambda>t. t\<lparr>rt_revoked_at := Some now, rt_replaced_by_jti := Some jti\<rparr>) db"

definition refresh ::
  "settings \<Rightarrow> crypto \<Rightarrow> jwt_lib \<Rightarrow> draws \<Rightarrow> string \<Rightarrow> db \<Rightarrow> auth_result result \<times> db" where
  "refresh S C J d raw db =
     (case get_refresh_token C raw db of
        Inl e \<Rightarrow> (Inl e, db)
      | Inr t \<Rightarrow>
          (let now = d_now d in
           if rt_revoked_at t \<noteq> None then
             (Inl (UnauthorizedError ''Invalid refresh token''), revoke_family (rt_family_id t) now db)
           else if rt_expires_at t \<le> now then
             (Inl (UnauthorizedError ''Invalid refresh token''), stamp_revoked t now db)
           else case find_by u_id (users db) (rt_user_id t) of
                  None \<Rightarrow>
                    (Inl (UnauthorizedError ''Invalid refresh token''), stamp_revoked t now db)
                | Some u \<Rightarrow>
                    (case insert_token (new_refresh_row S C d (u_id u) (rt_family_id t))
                            (replace_token t now (d_jti d) db) of
                       Inl e \<Rightarrow> (Inl e, db)
                     | Inr db' \<Rightarrow> (Inr (new_auth_result S J d u), db'))))"

definition logout :: "crypto \<Rightarrow> instant \<Rightarrow> string \<Rightarrow> db \<Rightarrow> unit result \<times> db" where
  "logout C now raw db =
     (case get_refresh_token C raw db of
        Inl e \<Rightarrow> (Inl e, db)
      | Inr t \<Rightarrow> (Inr (), if rt_revoked_at t = None then stamp_revoked t now db else db))"

definition logout_all :: "instant \<Rightarrow> ident \<Rightarrow> db \<Rightarrow> db" where
  "logout_all now user_id db =
     revoke_where (\<lambda>t. rt_user_id t = user_id \<and> active t) now db"

subsection \<open>What each operation does to the tables\<close>

lemma new_refresh_row_simps [simp]:
  "rt_jti (new_refresh_row S C d u f) = d_jti d"
  "rt_user_id (new_refresh_row S C d u f) = u"
  "rt_token_hash (new_refresh_row S C d u f) = hash_token C (d_raw_token d)"
  "rt_family_id (new_refresh_row S C d u f) = f"
  "rt_expires_at (new_refresh_row S C d u f) = refresh_expires_at S (d_now d)"
  "rt_revoked_at (new_refresh_row S C d u f) = None"
  "rt_replaced_by_jti (new_refresh_row S C d u f) = None"
  by (simp_all add: new_refresh_row_def)

lemma get_refresh_token_cases:
  assumes "db_ok db"
  shows "get_refresh_token C raw db = Inr t \<longleftrightarrow>
      t \<in> set (refresh_tokens db) \<and> rt_token_hash t = hash_token C raw"
    and "get_refresh_token C raw db = Inl e \<longleftrightarrow>
      hash_token C raw \<notin> rt_token_hash ` set (refresh_tokens db) \<and>
      e = UnauthorizedError ''Invalid refresh token''"
proof -
  have dist: "distinct (map rt_token_hash (refresh_tokens db))" using assms by (simp add: db_ok_defs)
  show "get_refresh_token C raw db = Inr t \<longleftrightarrow>
      t \<in> set (refresh_tokens db) \<and> rt_token_hash t = hash_token C raw"
    by (simp add: get_refresh_token_def find_by_iff [OF dist, symmetric] split: option.splits)
  show "get_refresh_token C raw db = Inl e \<longleftrightarrow>
      hash_token C raw \<notin> rt_token_hash ` set (refresh_tokens db) \<and>
      e = UnauthorizedError ''Invalid refresh token''"
    unfolding find_by_None_iff [symmetric]
    by (auto simp: get_refresh_token_def split: option.splits)
qed

lemma token_owner:
  assumes "db_ok db" and "t \<in> set (refresh_tokens db)"
  obtains u where "find_by u_id (users db) (rt_user_id t) = Some u" and "u \<in> set (users db)"
    and "u_id u = rt_user_id t"
proof -
  have "rt_user_id t \<in> u_id ` set (users db)"
    using assms by (auto simp: db_ok_defs list_all_iff)
  then obtain u where "find_by u_id (users db) (rt_user_id t) = Some u"
    by (metis find_by_None_iff not_None_eq)
  with find_by_SomeD [OF this] that show thesis by auto
qed

lemma set_token_unique:
  assumes "db_ok db" and "t \<in> set (refresh_tokens db)"
  shows "u \<in> set (update_where (\<lambda>r. rt_jti r = rt_jti t) f (refresh_tokens db)) \<longleftrightarrow>
    u = f t \<or> u \<in> set (refresh_tokens db) \<and> u \<noteq> t"
proof -
  have "rt_jti r = rt_jti t \<longleftrightarrow> r = t" if "r \<in> set (refresh_tokens db)" for r
    using assms that by (auto simp: db_ok_defs distinct_map dest: inj_onD)
  with assms(2) show ?thesis by (auto simp: in_update_where)
qed

lemma token_tables [simp]:
  "users (revoke_where P now db) = users db" "parcels (revoke_where P now db) = parcels db"
  "parcel_types (revoke_where P now db) = parcel_types db"
  "users (set_token j f db) = users db" "parcels (set_token j f db) = parcels db"
  "parcel_types (set_token j f db) = parcel_types db"
  by (simp_all add: revoke_where_def set_token_def)

lemma stamp_revoked_db_ok: "db_ok db \<Longrightarrow> db_ok (stamp_revoked t now db)"
  unfolding stamp_revoked_def set_token_def by (rule update_tokens_db_ok) (auto simp: token_row_ok_def)

lemma replace_token_db_ok:
  "db_ok db \<Longrightarrow> length jti \<le> 36 \<Longrightarrow> db_ok (replace_token t now jti db)"
  unfolding replace_token_def set_token_def by (rule update_tokens_db_ok) (auto simp: token_row_ok_def)

lemma revoke_family_db_ok: "db_ok db \<Longrightarrow> db_ok (revoke_family f now db)"
  unfolding revoke_family_def by (rule revoke_where_db_ok)

lemma logout_all_db_ok: "db_ok db \<Longrightarrow> db_ok (logout_all now u db)"
  unfolding logout_all_def by (rule revoke_where_db_ok)

lemma issue_tokens_db_ok: "db_ok db \<Longrightarrow> db_ok (snd (issue_tokens S C J d u db))"
  by (auto simp: issue_tokens_def split: sum.split intro: insert_token_db_ok)

lemma register_db_ok: "db_ok db \<Longrightarrow> db_ok (snd (register S C J ud d email password db))"
  by (auto simp: register_def Let_def split: sum.split option.split
      intro: issue_tokens_db_ok insert_user_db_ok)

lemma login_db_ok: "db_ok db \<Longrightarrow> db_ok (snd (login S C J d email password db))"
  by (auto simp: login_def split: sum.split option.split bool.split intro: issue_tokens_db_ok)

lemma refresh_db_ok:
  assumes "db_ok db"
  shows "db_ok (snd (refresh S C J d raw db))"
proof -
  have "db_ok db'"
    if "insert_token (new_refresh_row S C d u f) (replace_token t now (d_jti d) db) = Inr db'"
    for u f t now db'
  proof -
    have "length (d_jti d) \<le> 36"
      using that by (simp add: insert_token_Inr_iff token_row_ok_def)
    with replace_token_db_ok [OF assms] insert_token_db_ok [OF that] show ?thesis by blast
  qed
  with assms show ?thesis
    by (auto simp: refresh_def Let_def split: sum.split option.split
        intro: stamp_revoked_db_ok revoke_family_db_ok)
qed

lemma logout_db_ok: "db_ok db \<Longrightarrow> db_ok (snd (logout C now raw db))"
  by (auto simp: logout_def split: sum.split intro: stamp_revoked_db_ok)

end
