(* ===== verification/Token_Families.thy ===== *)
theory Token_Families
  imports Auth_Service
begin

text \<open>
  The life of refresh tokens as a state machine.  \<open>token_step\<close> is what may happen to the
  token table: some active tokens are revoked, a token of a new family is issued, or an
  active token is replaced by a new one of its family.  The five operations of
  \<^verbatim>\<open>app/services/auth.py\<close> are the calls \<open>auth_call\<close>; each is a \<open>token_step\<close>
  (\<open>auth_effect_step\<close>), and \<open>auth_reach\<close> is any sequence of calls.
\<close>

subsection \<open>The abstract machine\<close>

inductive token_step :: "refresh_token list \<Rightarrow> refresh_token list \<Rightarrow> bool" where
  revoke: "token_step ts (update_where (\<lambda>t. P t \<and> active t) (rt_revoked_at_update (\<lambda>_. Some now)) ts)"
| issue: "active t \<Longrightarrow> rt_replaced_by_jti t = None \<Longrightarrow> rt_jti t \<notin> rt_jti ` set ts \<Longrightarrow>
    rt_family_id t \<notin> rt_family_id ` set ts \<Longrightarrow> token_step ts (ts @ [t])"
| rotate: "t \<in> set ts \<Longrightarrow> active t \<Longrightarrow> active t' \<Longrightarrow> rt_replaced_by_jti t' = None \<Longrightarrow>
    rt_family_id t' = rt_family_id t \<Longrightarrow> rt_user_id t' = rt_user_id t \<Longrightarrow>
    rt_jti t' \<notin> rt_jti ` set ts \<Longrightarrow>
    token_step ts (update_where (\<lambda>u. rt_jti u = rt_jti t)
      (\<lambda>u. u\<lparr>rt_revoked_at := Some now, rt_replaced_by_jti := Some (rt_jti t')\<rparr>) ts @ [t'])"

text \<open>A family belongs to one user and has at most one active token; a replaced token is
  revoked and its successor is in the same family.\<close>

definition families_ok :: "refresh_token list \<Rightarrow> bool" where
  "families_ok ts \<longleftrightarrow> distinct (map rt_jti ts) \<and>
     (\<forall>t \<in> set ts. \<forall>u \<in> set ts. rt_family_id t = rt_family_id u \<longrightarrow>
        rt_user_id t = rt_user_id u \<and> (active t \<and> active u \<longrightarrow> t = u)) \<and>
     (\<forall>t \<in> set ts. \<forall>j. rt_replaced_by_jti t = Some j \<longrightarrow> \<not> active t \<and>
        (\<exists>u \<in> set ts. rt_jti u = j \<and> rt_family_id u = rt_family_id t))"

lemma families_okI:
  assumes "distinct (map rt_jti ts)"
    and "\<And>t u. t \<in> set ts \<Longrightarrow> u \<in> set ts \<Longrightarrow> rt_family_id t = rt_family_id u \<Longrightarrow> rt_user_id t = rt_user_id u"
    and "\<And>t u. t \<in> set ts \<Longrightarrow> u \<in> set ts \<Longrightarrow> rt_family_id t = rt_family_id u \<Longrightarrow>
      active t \<Longrightarrow> active u \<Longrightarrow> t = u"
    and "\<And>t j. t \<in> set ts \<Longrightarrow> rt_replaced_by_jti t = Some j \<Longrightarrow> \<not> active t"
    and "\<And>t j. t \<in> set ts \<Longrightarrow> rt_replaced_by_jti t = Some j \<Longrightarrow>
      \<exists>u \<in> set ts. rt_jti u = j \<and> rt_family_id u = rt_family_id t"
  shows "families_ok ts"
  unfolding families_ok_def using assms by (intro conjI ballI allI impI) blast+

lemma families_okD:
  assumes "families_ok ts"
  shows families_distinct: "distinct (map rt_jti ts)"
    and families_user: "t \<in> set ts \<Longrightarrow> u \<in> set ts \<Longrightarrow> rt_family_id t = rt_family_id u \<Longrightarrow>
      rt_user_id t = rt_user_id u"
    and families_single: "t \<in> set ts \<Longrightarrow> u \<in> set ts \<Longrightarrow> rt_family_id t = rt_family_id u \<Longrightarrow>
      active t \<Longrightarrow> active u \<Longrightarrow> t = u"
    and families_replaced: "t \<in> set ts \<Longrightarrow> rt_replaced_by_jti t = Some j \<Longrightarrow> \<not> active t"
    and families_successor: "t \<in> set ts \<Longrightarrow> rt_replaced_by_jti t = Some j \<Longrightarrow>
      \<exists>u \<in> set ts. rt_jti u = j \<and> rt_family_id u = rt_family_id t"
  using assms unfolding families_ok_def by blast+

lemma in_update_jti:
  assumes "distinct (map rt_jti ts)" and "t \<in> set ts"
  shows "u \<in> set (update_where (\<lambda>r. rt_jti r = rt_jti t) f ts) \<longleftrightarrow> u = f t \<or> u \<in> set ts \<and> u \<noteq> t"
proof -
  have "rt_jti r = rt_jti t \<longleftrightarrow> r = t" if "r \<in> set ts" for r
    using assms that by (auto simp: distinct_map dest: inj_onD)
  with assms(2) show ?thesis by (auto simp: in_update_where)
qed

lemma revoke_families_ok:
  assumes ok: "families_ok ts"
  shows "families_ok (update_where (\<lambda>t. P t \<and> active t) (rt_revoked_at_update (\<lambda>_. Some now)) ts)"
    (is "families_ok ?rows")
proof -
  have row: "\<exists>t \<in> set ts. rt_jti t = rt_jti a \<and> rt_family_id t = rt_family_id a \<and>
      rt_user_id t = rt_user_id a \<and> rt_replaced_by_jti t = rt_replaced_by_jti a \<and> (active a \<longrightarrow> t = a)"
    if "a \<in> set ?rows" for a
  proof -
    from that obtain t where t: "t \<in> set ts"
      "a = (if P t \<and> active t then t\<lparr>rt_revoked_at := Some now\<rparr> else t)"
      unfolding in_update_where by blast
    then show ?thesis by (intro bexI [of _ t]) (simp_all split: if_splits)
  qed
  have kept: "\<exists>a \<in> set ?rows. rt_jti a = rt_jti t \<and> rt_family_id a = rt_family_id t"
    if "t \<in> set ts" for t
    unfolding Bex_def in_update_where using that
    by (intro exI [of _ "if P t \<and> active t then t\<lparr>rt_revoked_at := Some now\<rparr> else t"]) auto
  show ?thesis
  proof (rule families_okI)
    show "distinct (map rt_jti ?rows)"
      using families_distinct [OF ok] by (simp add: map_update_where)
  next
    fix a b assume "a \<in> set ?rows" "b \<in> set ?rows" "rt_family_id a = rt_family_id b"
    with row [of a] row [of b] families_user [OF ok] show "rt_user_id a = rt_user_id b" by metis
  next
    fix a b assume "a \<in> set ?rows" "b \<in> set ?rows" "rt_family_id a = rt_family_id b"
      and "active a" "active b"
    with row [of a] row [of b] families_single [OF ok] show "a = b" by metis
  next
    fix a j assume "a \<in> set ?rows" "rt_replaced_by_jti a = Some j"
    with row [of a] families_replaced [OF ok] show "\<not> active a" by metis
  next
    fix a j assume "a \<in> set ?rows" "rt_replaced_by_jti a = Some j"
    with row [of a] obtain t where "t \<in> set ts" "rt_replaced_by_jti t = Some j"
      "rt_family_id t = rt_family_id a" by metis
    with families_successor [OF ok] kept show "\<exists>u \<in> set ?rows. rt_jti u = j \<and> rt_family_id u = rt_family_id a"
      by metis
  qed
qed

lemma rotate_families_ok:
  assumes ok: "families_ok ts" and t: "t \<in> set ts" "active t"
    and t': "active t'" "rt_replaced_by_jti t' = None" "rt_family_id t' = rt_family_id t"
      "rt_user_id t' = rt_user_id t" "rt_jti t' \<notin> rt_jti ` set ts"
  shows "families_ok (update_where (\<lambda>u. rt_jti u = rt_jti t)
      (\<lambda>u. u\<lparr>rt_revoked_at := Some now, rt_replaced_by_jti := Some (rt_jti t')\<rparr>) ts @ [t'])"
    (is "families_ok (?rows @ _)")
proof -
  define old where "old = t\<lparr>rt_revoked_at := Some now, rt_replaced_by_jti := Some (rt_jti t')\<rparr>"
  have old: "rt_jti old = rt_jti t" "rt_family_id old = rt_family_id t" "rt_user_id old = rt_user_id t"
    "\<not> active old" "rt_replaced_by_jti old = Some (rt_jti t')"
    by (simp_all add: old_def)
  have mem: "u \<in> set (?rows @ [t']) \<longleftrightarrow> u = old \<or> u = t' \<or> u \<in> set ts \<and> u \<noteq> t" for u
    using in_update_jti [OF families_distinct [OF ok] t(1)] unfolding old_def by auto
  have ids: "map rt_jti ?rows = map rt_jti ts" by (rule map_update_where) simp
  show ?thesis
  proof (rule families_okI)
    show "distinct (map rt_jti (?rows @ [t']))"
      using families_distinct [OF ok] t'(5) arg_cong [OF ids, of set] by (simp add: ids)
  next
    fix a b assume "a \<in> set (?rows @ [t'])" "b \<in> set (?rows @ [t'])" "rt_family_id a = rt_family_id b"
    then show "rt_user_id a = rt_user_id b"
      unfolding mem using old(2,3) t(1) t'(3,4) families_user [OF ok, of a t] families_user [OF ok, of t b]
        families_user [OF ok, of a b] by auto
  next
    fix a b assume "a \<in> set (?rows @ [t'])" "b \<in> set (?rows @ [t'])" "rt_family_id a = rt_family_id b"
      and act: "active a" "active b"
    note ab = this(1,2) [unfolded mem] this(3)
    have new: "x = t'" if "x = old \<or> x = t' \<or> x \<in> set ts \<and> x \<noteq> t" "active x" "rt_family_id x = rt_family_id t" for x
      using that old(4) families_single [OF ok _ t(1) _ _ t(2)] by metis
    show "a = b"
    proof (cases "rt_family_id a = rt_family_id t")
      case True
      with ab act new show ?thesis by metis
    next
      case False
      with ab t'(3) old(2) have "a \<in> set ts" "b \<in> set ts" by metis+
      from families_single [OF ok this ab(3) act] show ?thesis .
    qed
  next
    fix a j assume "a \<in> set (?rows @ [t'])" "rt_replaced_by_jti a = Some j"
    then show "\<not> active a" unfolding mem using old(4) t'(2) families_replaced [OF ok] by (metis option.distinct(1))
  next
    fix a j assume a: "a \<in> set (?rows @ [t'])" "rt_replaced_by_jti a = Some j"
    show "\<exists>v \<in> set (?rows @ [t']). rt_jti v = j \<and> rt_family_id v = rt_family_id a"
    proof (cases "a = old")
      case True
      with a(2) old t'(3) show ?thesis by (intro bexI [of _ t']) simp_all
    next
      case False
      with a t'(2) have "a \<in> set ts" unfolding mem by auto
      from families_successor [OF ok this a(2)]
      obtain v where "v \<in> set ts" "rt_jti v = j" "rt_family_id v = rt_family_id a" by blast
      then show ?thesis unfolding Bex_def mem using old(1,2) by metis
    qed
  qed
qed

lemma issue_families_ok:
  assumes ok: "families_ok ts" and t: "rt_replaced_by_jti t = None" "rt_jti t \<notin> rt_jti ` set ts"
    "rt_family_id t \<notin> rt_family_id ` set ts"
  shows "families_ok (ts @ [t])"
proof (rule families_okI)
  show "distinct (map rt_jti (ts @ [t]))" using families_distinct [OF ok] t(2) by simp
next
  fix a j assume "a \<in> set (ts @ [t])" "rt_replaced_by_jti a = Some j"
  then have "a \<in> set ts" using t(1) by auto
  with families_successor [OF ok] \<open>rt_replaced_by_jti a = Some j\<close>
  show "\<exists>u \<in> set (ts @ [t]). rt_jti u = j \<and> rt_family_id u = rt_family_id a" by fastforce
next
  fix a j assume "a \<in> set (ts @ [t])" "rt_replaced_by_jti a = Some j"
  then show "\<not> active a" using t(1) families_replaced [OF ok, of a j] by auto
next
  fix a b assume ab: "a \<in> set (ts @ [t])" "b \<in> set (ts @ [t])" "rt_family_id a = rt_family_id b"
  then consider "a = t \<and> b = t" | "a \<in> set ts \<and> b \<in> set ts" using t(3) by (auto simp: image_iff)
  then show "rt_user_id a = rt_user_id b"
    by cases (use families_user [OF ok, of a b] ab(3) in auto)
next
  fix a b assume ab: "a \<in> set (ts @ [t])" "b \<in> set (ts @ [t])" "rt_family_id a = rt_family_id b"
    and act: "active a" "active b"
  then consider "a = t \<and> b = t" | "a \<in> set ts \<and> b \<in> set ts" using t(3) by (auto simp: image_iff)
  then show "a = b"
    by cases (use families_single [OF ok, of a b] ab(3) act in auto)
qed

lemma token_step_families_ok:
  "token_step ts ts' \<Longrightarrow> families_ok ts \<Longrightarrow> families_ok ts'"
proof (induction rule: token_step.induct)
  case (revoke ts P now)
  then show ?case by (rule revoke_families_ok)
next
  case (issue t ts)
  then show ?case by (intro issue_families_ok)
next
  case (rotate t ts t' now)
  then show ?case by (intro rotate_families_ok)
qed

text \<open>A revoked row is never touched again.\<close>

lemma token_step_keeps_revoked:
  assumes "token_step ts ts'" and "distinct (map rt_jti ts)" and "t \<in> set ts" and "\<not> active t"
  shows "t \<in> set ts'"
  using assms
proof (induction rule: token_step.induct)
  case (revoke ts P now)
  then have "\<not> (P t \<and> active t)" by simp
  with revoke show ?case unfolding in_update_where by (intro bexI [of _ t]) simp_all
next
  case (issue u ts)
  then show ?case by simp
next
  case (rotate u ts t' now)
  then show ?case using in_update_jti [of ts u] by auto
qed

subsection \<open>The operations are steps of the machine\<close>

datatype auth_call =
    Register user_draws draws string string
  | Login draws string string
  | Refresh draws string
  | Logout instant string
  | Logout_All instant ident

fun auth_effect :: "settings \<Rightarrow> crypto \<Rightarrow> jwt_lib \<Rightarrow> auth_call \<Rightarrow> db \<Rightarrow> db" where
  "auth_effect S C J (Register ud d email password) db = snd (register S C J ud d email password db)"
| "auth_effect S C J (Login d email password) db = snd (login S C J d email password db)"
| "auth_effect S C J (Refresh d raw) db = snd (refresh S C J d raw db)"
| "auth_effect S C J (Logout now raw) db = snd (logout C now raw db)"
| "auth_effect S C J (Logout_All now user_id) db = logout_all now user_id db"

text \<open>The \<^verbatim>\<open>uuid4\<close> drawn for a new family is not one already in the table.\<close>

fun fresh_family :: "auth_call \<Rightarrow> db \<Rightarrow> bool" where
  "fresh_family (Register ud d email password) db \<longleftrightarrow>
     d_family_id d \<notin> rt_family_id ` set (refresh_tokens db)"
| "fresh_family (Login d email password) db \<longleftrightarrow>
     d_family_id d \<notin> rt_family_id ` set (refresh_tokens db)"
| "fresh_family _ db \<longleftrightarrow> True"

inductive auth_reach :: "settings \<Rightarrow> crypto \<Rightarrow> jwt_lib \<Rightarrow> db \<Rightarrow> db \<Rightarrow> bool"
  for S C J db0 where
  start: "auth_reach S C J db0 db0"
| call: "auth_reach S C J db0 db \<Longrightarrow> fresh_family c db \<Longrightarrow> auth_reach S C J db0 (auth_effect S C J c db)"

inductive_cases auth_reachE: "auth_reach S C J db0 db"

lemma token_step_refl: "token_step ts ts"
  using token_step.revoke [of ts "\<lambda>_. False" 0] by (simp add: update_where_none)

lemma revoke_where_step:
  "token_step (refresh_tokens db) (refresh_tokens (revoke_where (\<lambda>t. P t \<and> active t) now db))"
  by (simp add: revoke_where_def token_step.revoke)

lemma stamp_revoked_step:
  assumes "db_ok db" and "t \<in> set (refresh_tokens db)" and "active t"
  shows "token_step (refresh_tokens db) (refresh_tokens (stamp_revoked t now db))"
proof -
  have "rt_jti r = rt_jti t \<longleftrightarrow> rt_jti r = rt_jti t \<and> active r" if "r \<in> set (refresh_tokens db)" for r
    using assms that by (auto simp: db_ok_defs distinct_map dest: inj_onD)
  then have "refresh_tokens (stamp_revoked t now db) =
      update_where (\<lambda>r. rt_jti r = rt_jti t \<and> active r) (rt_revoked_at_update (\<lambda>_. Some now)) (refresh_tokens db)"
    unfolding stamp_revoked_def set_token_def by (simp cong: update_where_cong)
  then show ?thesis by (simp add: token_step.revoke)
qed

lemma issue_tokens_step:
  assumes "d_family_id d \<notin> rt_family_id ` set (refresh_tokens db)"
  shows "token_step (refresh_tokens db) (refresh_tokens (snd (issue_tokens S C J d u db)))"
proof (cases "insert_token (new_refresh_row S C d (u_id u) (d_family_id d)) db")
  case (Inl e)
  then show ?thesis by (simp add: issue_tokens_def token_step_refl)
next
  case (Inr db')
  then have "d_jti d \<notin> rt_jti ` set (refresh_tokens db)"
      "refresh_tokens db' = refresh_tokens db @ [new_refresh_row S C d (u_id u) (d_family_id d)]"
    by (auto simp: insert_token_Inr_iff)
  with Inr assms show ?thesis by (simp add: issue_tokens_def token_step.issue)
qed

lemma register_step:
  assumes "d_family_id d \<notin> rt_family_id ` set (refresh_tokens db)"
  shows "token_step (refresh_tokens db) (refresh_tokens (snd (register S C J ud d email password db)))"
proof -
  have "token_step (refresh_tokens db) (refresh_tokens (snd (issue_tokens S C J d u db1)))"
    if "insert_user u db = Inr db1" for u db1
    using assms issue_tokens_step [of d db1 S C J u] that by (auto simp: insert_user_Inr_iff)
  then show ?thesis
    by (auto simp: register_def Let_def token_step_refl split: option.split sum.split)
qed

lemma login_step:
  "d_family_id d \<notin> rt_family_id ` set (refresh_tokens db) \<Longrightarrow>
     token_step (refresh_tokens db) (refresh_tokens (snd (login S C J d email password db)))"
  by (auto simp: login_def token_step_refl issue_tokens_step split: option.split sum.split bool.split)

lemma refresh_step:
  assumes ok: "db_ok db"
  shows "token_step (refresh_tokens db) (refresh_tokens (snd (refresh S C J d raw db)))"
proof (cases "get_refresh_token C raw db")
  case (Inl e)
  then show ?thesis by (simp add: refresh_def token_step_refl)
next
  case (Inr t)
  with ok have t: "t \<in> set (refresh_tokens db)" by (simp add: get_refresh_token_cases)
  obtain u where u: "find_by u_id (users db) (rt_user_id t) = Some u" "u_id u = rt_user_id t"
    using token_owner [OF ok t] by metis
  let ?new = "new_refresh_row S C d (u_id u) (rt_family_id t)"
  show ?thesis
  proof (cases "active t \<and> \<not> rt_expires_at t \<le> d_now d")
    case False
    with Inr t ok stamp_revoked_step [OF ok t] show ?thesis
      by (auto simp: refresh_def Let_def revoke_family_def revoke_where_step)
  next
    case True
    show ?thesis
    proof (cases "insert_token ?new (replace_token t (d_now d) (d_jti d) db)")
      case (Inl e)
      with Inr True u show ?thesis by (simp add: refresh_def Let_def token_step_refl)
    next
      case (Inr db')

      from Inr have "d_jti d \<notin> rt_jti ` set (refresh_tokens db)"
        "refresh_tokens db' = refresh_tokens (replace_token t (d_now d) (d_jti d) db) @ [?new]"
        by (auto simp: insert_token_Inr_iff replace_token_def set_token_def image_update_where)
      with token_step.rotate [OF t, of ?new "d_now d"] True u Inr \<open>get_refresh_token C raw db = Inr t\<close>
      show ?thesis by (simp add: refresh_def Let_def) (simp add: replace_token_def set_token_def)
    qed
  qed
qed

lemma logout_step:
  assumes "db_ok db"
  shows "token_step (refresh_tokens db) (refresh_tokens (snd (logout C now raw db)))"
  using assms stamp_revoked_step [OF assms]
  by (auto simp: logout_def token_step_refl get_refresh_token_cases split: sum.split)

lemma auth_effect_step:
  "db_ok db \<Longrightarrow> fresh_family c db \<Longrightarrow>
     token_step (refresh_tokens db) (refresh_tokens (auth_effect S C J c db))"
  by (cases c) (simp_all add: register_step login_step refresh_step logout_step logout_all_def revoke_where_step)

lemma auth_effect_db_ok: "db_ok db \<Longrightarrow> db_ok (auth_effect S C J c db)"
  by (cases c) (simp_all add: register_db_ok login_db_ok refresh_db_ok logout_db_ok logout_all_db_ok)

lemma auth_reach_db_ok: "auth_reach S C J db0 db \<Longrightarrow> db_ok db0 \<Longrightarrow> db_ok db"
  by (induction rule: auth_reach.induct) (simp_all add: auth_effect_db_ok)

lemma auth_reach_families:
  "auth_reach S C J db0 db \<Longrightarrow> db_ok db0 \<Longrightarrow> families_ok (refresh_tokens db0) \<Longrightarrow>
     families_ok (refresh_tokens db)"
  by (induction rule: auth_reach.induct)
    (use auth_reach_db_ok auth_effect_step token_step_families_ok in blast)+

lemma auth_reach_keeps_revoked:
  assumes "auth_reach S C J db0 db" and "db_ok db0" and "t \<in> set (refresh_tokens db0)" and "\<not> active t"
  shows "t \<in> set (refresh_tokens db)"
  using assms
proof (induction rule: auth_reach.induct)
  case (call db c)
  then have "db_ok db" using auth_reach_db_ok by blast
  with call auth_effect_step [of db c S C J] token_step_keeps_revoked show ?case
    by (auto simp: db_ok_defs)
qed simp

end
