(* ===== verification/Schemas.thy ===== *)
theory Schemas
  imports Models
begin

text \<open>
  The request and response schemas of \<^verbatim>\<open>app/schemas\<close>: records for the payloads, a
  predicate for what each accepts, and the JSON each response model produces (camel-case
  keys, decimals as their \<^verbatim>\<open>str\<close>).  The Pydantic constraints used are \<^verbatim>\<open>gt\<close>, \<^verbatim>\<open>ge\<close>,
  \<^verbatim>\<open>le\<close>, string lengths, and \<^verbatim>\<open>max_digits\<close> with \<^verbatim>\<open>decimal_places\<close>: at most that many
  decimal places and at most \<^verbatim>\<open>max_digits - decimal_places\<close> digits before the point,
  trailing zeros not counted.  What \<^verbatim>\<open>EmailStr\<close> accepts is a parameter.
\<close>

definition decimal_digits_ok :: "nat \<Rightarrow> nat \<Rightarrow> decimal \<Rightarrow> bool" where
  "decimal_digits_ok max_digits decimal_places d \<longleftrightarrow>
     dec_scale_ok decimal_places d \<and> dec_whole_lt (max_digits - decimal_places) d"

definition positive_weight :: "decimal \<Rightarrow> bool" where
  "positive_weight d \<longleftrightarrow> dec_zero < d \<and> decimal_digits_ok 10 3 d"

definition non_negative_money :: "decimal \<Rightarrow> bool" where
  "non_negative_money d \<longleftrightarrow> dec_zero \<le> d \<and> decimal_digits_ok 14 2 d"

record parcel_create =
  pc_name :: string
  pc_weight_kg :: decimal
  pc_declared_value_usd :: decimal
  pc_parcel_type_id :: ident

definition valid_parcel_create :: "parcel_create \<Rightarrow> bool" where
  "valid_parcel_create b \<longleftrightarrow>
     length (pc_name b) \<le> 255 \<and> positive_weight (pc_weight_kg b) \<and>
     non_negative_money (pc_declared_value_usd b)"

record pagination_params =
  pg_limit :: int
  pg_offset :: int

text \<open>The query parameters \<^verbatim>\<open>limit\<close> and \<^verbatim>\<open>offset\<close>, with their defaults and bounds.\<close>

definition parse_pagination :: "int option \<Rightarrow> int option \<Rightarrow> pagination_params result" where
  "parse_pagination limit offset =
     (let l = (case limit of None \<Rightarrow> 20 | Some l \<Rightarrow> l);
          off = (case offset of None \<Rightarrow> 0 | Some off \<Rightarrow> off)
      in if 1 \<le> l \<and> l \<le> 100 \<and> 0 \<le> off then Inr \<lparr>pg_limit = l, pg_offset = off\<rparr>
         else Inl (RequestValidationError []))"

text \<open>\<^verbatim>\<open>type_id\<close> is a UUID4 in its canonical text form.\<close>

record parcel_filter_params =
  type_id :: "ident option"
  has_cost :: "bool option"

record user_register =
  ur_email :: string
  ur_password :: string

definition valid_user_register :: "(string \<Rightarrow> bool) \<Rightarrow> user_register \<Rightarrow> bool" where
  "valid_user_register email_str b \<longleftrightarrow>
     email_str (ur_email b) \<and> 8 \<le> length (ur_password b) \<and> length (ur_password b) \<le> 128"

definition parcel_type_read :: "parcel_type \<Rightarrow> json" where
  "parcel_type_read t = JObj [(''id'', JStr (pt_id t)), (''name'', JStr (pt_name t))]"

definition decimal_json :: "decimal option \<Rightarrow> json" where
  "decimal_json d = (case d of None \<Rightarrow> JNull | Some x \<Rightarrow> JStr (dec_str x))"

definition parcel_read :: "parcel \<Rightarrow> parcel_type \<Rightarrow> json" where
  "parcel_read p t = JObj
     [(''id'', JStr (p_id p)), (''name'', JStr (p_name p)),
      (''weightKg'', decimal_json (Some (p_weight_kg p))),
      (''declaredValueUsd'', decimal_json (Some (p_declared_value_usd p))),
      (''deliveryCostRub'', decimal_json (p_delivery_cost_rub p)),
      (''parcelType'', parcel_type_read t)]"

definition parcel_create_response :: "ident \<Rightarrow> ident \<Rightarrow> json" where
  "parcel_create_response i owner = JObj [(''id'', JStr i), (''owner_id'', JStr owner)]"

definition token_response :: "string \<Rightarrow> json" where
  "token_response access_token =
     JObj [(''access_token'', JStr access_token), (''token_type'', JStr ''bearer'')]"

lemma positive_weightD:
  "positive_weight d \<Longrightarrow> 0 < dec_val d \<and> dec_scale_ok 3 d \<and> dec_whole_lt 7 d"
  by (simp add: positive_weight_def decimal_digits_ok_def less_decimal_def)

lemma non_negative_moneyD:
  "non_negative_money d \<Longrightarrow> 0 \<le> dec_val d \<and> dec_scale_ok 2 d \<and> dec_whole_lt 12 d"
  by (simp add: non_negative_money_def decimal_digits_ok_def less_eq_decimal_def)

lemma parse_pagination_bounds:
  "parse_pagination l off = Inr pg \<Longrightarrow> 1 \<le> pg_limit pg \<and> pg_limit pg \<le> 100 \<and> 0 \<le> pg_offset pg"
  by (auto simp: parse_pagination_def Let_def split: if_splits)

end
