(* ===== verification/Auth_Guarantees.thy ===== *)
theory Auth_Guarantees
  imports Token_Families Schemas
begin

text \<open>
  What the authentication service guarantees: who can register and log in, which refresh
  tokens are accepted and what rotation does, detection of replayed tokens, and that
  revocation, logout and logout from all devices are final, whatever calls follow.
\<close>

abbreviation invalid_refresh :: "'a result" where
  "invalid_refresh \<equiv> Inl (UnauthorizedError ''Invalid refresh token'')"

text \<open>Draws that fit the columns and collide with no stored token.\<close>

definition usable_draws :: "crypto \<Rightarrow> db \<Rightarrow> draws \<Rightarrow> bool" where
  "usable_draws C db d \<longleftrightarrow>
     length (d_jti d) \<le> 36 \<and> length (d_family_id d) \<le> 36 \<and>
     d_jti d \<notin> rt_jti ` set (refresh_tokens db) \<and>
     hash_token C (d_raw_token d) \<notin> rt_token_hash ` set (refresh_tokens db)"

subsection \<open>Shared lemmas\<close>

lemma users_ok_rows: "db_ok db \<Longrightarrow> u \<in> set (users db) \<Longrightarrow> user_row_ok u"
  by (auto simp: db_ok_defs list_all_iff)

lemma tokens_ok_rows: "db_ok db \<Longrightarrow> t \<in> set (refresh_tokens db) \<Longrightarrow> token_row_ok t"
  by (auto simp: db_ok_defs list_all_iff)

lemma same_hash:
  assumes "db_ok db" and "t \<in> set (refresh_tokens db)" and "u \<in> set (refresh_tokens db)"
    and "rt_token_hash t = rt_token_hash u"
  shows "t = u"
proof -
  have "inj_on rt_token_hash (set (refresh_tokens db))"
    using assms(1) by (simp add: db_ok_defs distinct_map)
  from inj_onD [OF this assms(4,2,3)] show ?thesis .
qed

lemma set_replace_token:
  assumes "db_ok db" and "t \<in> set (refresh_tokens db)"
  shows "u \<in> set (refresh_tokens (replace_token t now jti db)) \<longleftrightarrow>
    u = t\<lparr>rt_revoked_at := Some now, rt_replaced_by_jti := Some jti\<rparr> \<or>
    u \<in> set (refresh_tokens db) \<and> u \<noteq> t"
  using set_token_unique [OF assms] by (simp add: replace_token_def set_token_def)

lemma set_stamp_revoked:
  assumes "db_ok db" and "t \<in> set (refresh_tokens db)"
  shows "u \<in> set (refresh_tokens (stamp_revoked t now db)) \<longleftrightarrow>
    u = t\<lparr>rt_revoked_at := Some now\<rparr> \<or> u \<in> set (refresh_tokens db) \<and> u \<noteq> t"
  using set_token_unique [OF assms] by (simp add: stamp_revoked_def set_token_def)

lemma replace_token_columns:
  "rt_jti ` set (refresh_tokens (replace_token t now jti db)) = rt_jti ` set (refresh_tokens db)"
  "rt_token_hash ` set (refresh_tokens (replace_token t now jti db)) =
     rt_token_hash ` set (refresh_tokens db)"
  by (simp_all add: replace_token_def set_token_def image_update_where)

context crypto_library
begin

lemma token_insertable:
  assumes "usable_draws C db d" and "u \<in> set (users db)" and "user_row_ok u" and "length f \<le> 36"
  shows "insert_token (new_refresh_row S C d (u_id u) f) db =
    Inr (db\<lparr>refresh_tokens := refresh_tokens db @ [new_refresh_row S C d (u_id u) f]\<rparr>)"
  using assms length_sha256
  by (simp add: insert_token_Inr_iff usable_draws_def token_row_ok_def user_row_ok_def hash_token_def)

lemma issue_tokens_ok:
  assumes "usable_draws C db d" and "u \<in> set (users db)" and "user_row_ok u"
  shows "issue_tokens S C J d u db = (Inr (new_auth_result S J d u),
    db\<lparr>refresh_tokens := refresh_tokens db @ [new_refresh_row S C d (u_id u) (d_family_id d)]\<rparr>)"
  using token_insertable [OF assms] assms(1) by (simp add: issue_tokens_def usable_draws_def)

end

lemma refresh_revoked:
  assumes "db_ok db" and "t \<in> set (refresh_tokens db)" and "rt_token_hash t = hash_token C raw"
    and "\<not> active t"
  shows "refresh S C J d raw db = (invalid_refresh, revoke_family (rt_family_id t) (d_now d) db)"
proof -
  have "get_refresh_token C raw db = Inr t" using assms by (simp add: get_refresh_token_cases)
  with assms(4) show ?thesis by (simp add: refresh_def)
qed

text \<open>Once revoked, never accepted again, in any later state.\<close>

lemma revoked_never_refreshes:
  assumes "auth_reach S C J db0 db" and "db_ok db0" and "t \<in> set (refresh_tokens db0)"
    and "\<not> active t" and "rt_token_hash t = hash_token C raw"
  shows "fst (refresh S C J d raw db) = invalid_refresh"
  using refresh_revoked [OF auth_reach_db_ok [OF assms(1,2)] auth_reach_keeps_revoked [OF assms(1-4)]
      assms(5,4)] by simp

subsection \<open>Registration and login\<close>

text \<open>
  C39: registering an address has three outcomes.  A registered address is a business error
  and an address not yet registered whose password bcrypt takes (up to 72 bytes) becomes a
  user with the role \<^verbatim>\<open>user\<close>, the hash of the password, and one active token of a new
  family.  A password of more than 72 bytes, which the schema allows up to 128 characters,
  is neither: bcrypt raises, nothing is stored and the client sees an internal error (500).
\<close>

theorem register_outcome:
  assumes "crypto_library C" and "db_ok db" and "usable_draws C db d"
    and "length (d_user_id ud) \<le> 36" and "d_user_id ud \<notin> u_id ` set (users db)"
    and "length email \<le> 255"
  shows "if email \<in> u_email ` set (users db)
    then register S C J ud d email password db = (Inl (BusinessError ''Email already registered''), db)
    else if 72 < utf8_len password
    then \<exists>m. register S C J ud d email password db = (Inl (UnexpectedError m), db) \<and>
      status_code (handle_exception (UnexpectedError m)) = 500
    else \<exists>u h. bcrypt_hash C password (d_salt ud) = Inr h \<and>
      u = \<lparr>u_id = d_user_id ud, u_email = email, u_hashed_password = h, u_role = ''user'',
           u_created_at = d_created_at ud\<rparr> \<and>
      register S C J ud d email password db =
        (Inr (new_auth_result S J d u),
         db\<lparr>users := users db @ [u],
            refresh_tokens := refresh_tokens db @
              [new_refresh_row S C d (d_user_id ud) (d_family_id d)]\<rparr>)"
proof (cases "find_by u_email (users db) email")
  case (Some u)
  then have "email \<in> u_email ` set (users db)" by (metis find_by_SomeD imageI)
  with Some show ?thesis by (simp add: register_def)
next
  case None
  then have new: "email \<notin> u_email ` set (users db)" by (rule find_by_NoneD)
  show ?thesis
  proof (cases "72 < utf8_len password")
    case True
    then obtain m where "bcrypt_hash C password (d_salt ud) = Inl (UnexpectedError m)"
      using crypto_library.bcrypt_hash_long [OF assms(1)] by blast
    with None new True show ?thesis by (simp add: register_def hash_password_def handler_defs)
  next
    case False
    then obtain h where h: "bcrypt_hash C password (d_salt ud) = Inr h" "length h \<le> 255"
      using crypto_library.bcrypt_hash_short [OF assms(1)] by (metis not_less)
    define u where "u = \<lparr>u_id = d_user_id ud, u_email = email, u_hashed_password = h,
      u_role = DEFAULT_USER_ROLE, u_created_at = d_created_at ud\<rparr>"
    have row: "user_row_ok u" using assms(4,6) h(2) by (simp add: user_row_ok_def u_def DEFAULT_USER_ROLE_def)
    have ins: "insert_user u db = Inr (db\<lparr>users := users db @ [u]\<rparr>)"
      using row assms(5) new by (simp add: insert_user_Inr_iff) (simp add: u_def)
    have "issue_tokens S C J d u (db\<lparr>users := users db @ [u]\<rparr>) = (Inr (new_auth_result S J d u),
        db\<lparr>users := users db @ [u], refresh_tokens := refresh_tokens db @
          [new_refresh_row S C d (u_id u) (d_family_id d)]\<rparr>)"
      using crypto_library.issue_tokens_ok [OF assms(1) _ _ row, of "db\<lparr>users := users db @ [u]\<rparr>" d S J]
        assms(3) by (simp add: usable_draws_def)
    with None ins h have "register S C J ud d email password db = (Inr (new_auth_result S J d u),
        db\<lparr>users := users db @ [u], refresh_tokens := refresh_tokens db @
          [new_refresh_row S C d (u_id u) (d_family_id d)]\<rparr>)"
      by (simp add: register_def hash_password_def u_def Let_def)
    with new False h(1) show ?thesis by (simp add: u_def DEFAULT_USER_ROLE_def)
  qed
qed

definition sample_draws :: "string \<Rightarrow> ident \<Rightarrow> ident \<Rightarrow> instant \<Rightarrow> draws" where
  "sample_draws raw jti family now = \<lparr>d_now = now, d_access_now = now, d_raw_token = raw,
     d_jti = jti, d_csrf = ''c'', d_family_id = family, d_access_jti = ''a''\<rparr>"

definition sample_user_draws :: user_draws where
  "sample_user_draws = \<lparr>d_salt = ''salt'', d_user_id = ''u1'', d_created_at = 0\<rparr>"

definition empty_db :: db where
  "empty_db = \<lparr>parcel_types = [], parcels = [], users = [], refresh_tokens = []\<rparr>"

definition sample_user :: user where
  "sample_user = \<lparr>u_id = ''u1'', u_email = ''a@b.co'', u_hashed_password = ''salt$secret12'',
     u_role = ''user'', u_created_at = 0\<rparr>"

definition sample_auth_db :: db where
  "sample_auth_db = empty_db\<lparr>users := [sample_user],
     refresh_tokens := [new_refresh_row default_settings reference_crypto
       (sample_draws ''r1'' ''j1'' ''f1'' 0) ''u1'' ''f1'']\<rparr>"

abbreviation sample_token :: refresh_token where
  "sample_token \<equiv> new_refresh_row default_settings reference_crypto
     (sample_draws ''r1'' ''j1'' ''f1'' 0) ''u1'' ''f1''"

lemma sample_auth_rows: "users sample_auth_db = [sample_user]" "refresh_tokens sample_auth_db = [sample_token]"
  by (simp_all add: sample_auth_db_def)

lemma sample_draws_simps [simp]:
  "d_now (sample_draws raw jti family now) = now" "d_raw_token (sample_draws raw jti family now) = raw"
  "d_jti (sample_draws raw jti family now) = jti" "d_family_id (sample_draws raw jti family now) = family"
  "d_access_now (sample_draws raw jti family now) = now"
  by (simp_all add: sample_draws_def)

lemma refresh_expires_default [simp]: "refresh_expires_at default_settings t = t + 2592000"
  by (simp add: refresh_expires_at_def)

lemma empty_db_ok: "db_ok empty_db"
  by (simp add: db_ok_defs empty_db_def)

lemma hash_token_r [simp]:
  "hash_token reference_crypto ''r1'' = ''r1'' @ replicate 62 (CHR ''0'')"
  "hash_token reference_crypto ''r2'' = ''r2'' @ replicate 62 (CHR ''0'')"
  by (simp_all add: hash_token_def reference_crypto_def take_replicate)

lemma sample_usable:
  "usable_draws reference_crypto empty_db (sample_draws ''r1'' ''j1'' ''f1'' 0)"
  "usable_draws reference_crypto sample_auth_db (sample_draws ''r2'' ''j2'' ''f2'' 60)"
  by (simp_all add: usable_draws_def sample_draws_def empty_db_def sample_auth_db_def)

lemma sample_auth_db_ok: "db_ok sample_auth_db"
  by (simp add: db_ok_defs sample_auth_db_def empty_db_def sample_user_def user_row_ok_def
      token_row_ok_def sample_draws_def)

theorem register_outcome_witness:
  "register default_settings reference_crypto reference_jwt sample_user_draws
      (sample_draws ''r1'' ''j1'' ''f1'' 0) ''a@b.co'' ''secret12'' empty_db =
    (Inr (new_auth_result default_settings reference_jwt (sample_draws ''r1'' ''j1'' ''f1'' 0) sample_user),
     sample_auth_db) \<and>
   (\<exists>m. register default_settings reference_crypto reference_jwt sample_user_draws
      (sample_draws ''r1'' ''j1'' ''f1'' 0) ''a@b.co'' (replicate 73 (CHR ''x'')) empty_db =
    (Inl (UnexpectedError m), empty_db)) \<and>
   valid_user_register (\<lambda>_. True) \<lparr>ur_email = ''a@b.co'', ur_password = replicate 73 (CHR ''x'')\<rparr>"
proof -
  have lens: "utf8_len ''secret12'' = 8" "utf8_len (replicate 73 (CHR ''x'')) = 73"
    by (simp_all add: utf8_len_def sum_list_replicate)
  note out = register_outcome [OF ref_crypto.crypto_library_axioms empty_db_ok sample_usable(1),
      of sample_user_draws "''a@b.co''"]
  have "bcrypt_hash reference_crypto ''secret12'' ''salt'' = Inr ''salt$secret12''"
    using lens(1) by (simp add: reference_crypto_def)
  with out [of default_settings reference_jwt "''secret12''"] lens(1)
  have "register default_settings reference_crypto reference_jwt sample_user_draws
      (sample_draws ''r1'' ''j1'' ''f1'' 0) ''a@b.co'' ''secret12'' empty_db =
    (Inr (new_auth_result default_settings reference_jwt (sample_draws ''r1'' ''j1'' ''f1'' 0) sample_user),
     sample_auth_db)"
    by (simp add: empty_db_def sample_user_draws_def sample_auth_db_def sample_user_def)
  moreover from out [of default_settings reference_jwt "replicate 73 (CHR ''x'')"]
  have "\<exists>m. register default_settings reference_crypto reference_jwt sample_user_draws
      (sample_draws ''r1'' ''j1'' ''f1'' 0) ''a@b.co'' (replicate 73 (CHR ''x'')) empty_db =
    (Inl (UnexpectedError m), empty_db)"
    unfolding lens(2) by (auto simp: empty_db_def sample_user_draws_def)
  ultimately show ?thesis by (simp add: valid_user_register_def)
qed

lemma register_Inr:
  assumes "register S C J ud d email password db = (Inr r, db')"
  shows "\<exists>u h. bcrypt_hash C password (d_salt ud) = Inr h \<and> u_email u = email \<and>
    u_hashed_password u = h \<and> u_role u = DEFAULT_USER_ROLE \<and> user_row_ok u \<and>
    r = new_auth_result S J d u \<and> users db' = users db @ [u] \<and> email \<notin> u_email ` set (users db)"
proof -
  from assms obtain h where h: "hash_password C (d_salt ud) password = Inr h"
    and none: "find_by u_email (users db) email = None"
    by (auto simp: register_def split: option.splits sum.splits)
  define u where "u = \<lparr>u_id = d_user_id ud, u_email = email, u_hashed_password = h,
      u_role = DEFAULT_USER_ROLE, u_created_at = d_created_at ud\<rparr>"
  from assms h none obtain db1 where "insert_user u db = Inr db1"
    and "issue_tokens S C J d u db1 = (Inr r, db')"
    by (auto simp: register_def Let_def u_def split: sum.splits)
  then have "user_row_ok u" "r = new_auth_result S J d u" "users db' = users db @ [u]"
    by (auto simp: insert_user_Inr_iff issue_tokens_def insert_token_Inr_iff split: sum.splits)
  with h find_by_NoneD [OF none] show ?thesis
    by (intro exI [of _ u] exI [of _ h]) (simp add: hash_password_def u_def)
qed

text \<open>
  C40: registration and login fit together: the account just registered can log in with the
  same address and password, as the same user and into a new token family; and the access
  token registration returned authenticates that user, with both parcel scopes, for exactly
  its lifetime.
\<close>

theorem register_then_login:
  assumes "crypto_library C" and "jwt_library J" and "jwt_configured S" and "db_ok db"
    and "register S C J ud d email password db = (Inr r, db')" and "usable_draws C db' d'"
  shows "(\<exists>r' db''. login S C J d' email password db' = (Inr r', db'') \<and>
      ar_user r' = ar_user r \<and> u_email (ar_user r) = email \<and>
      refresh_tokens db'' = refresh_tokens db' @
        [new_refresh_row S C d' (u_id (ar_user r)) (d_family_id d')]) \<and>
    (\<forall>t. map_option tc_sub (decode_token S J t (ar_access_token r) DEFAULT_USER_SCOPES) =
      (if d_access_now d \<le> t \<and> t < d_access_now d + JWT_ACCESS_TOKEN_EXPIRE_MIN S * 60
       then Some (u_id (ar_user r)) else None))"
proof -
  obtain u h where u: "bcrypt_hash C password (d_salt ud) = Inr h" "u_email u = email"
      "u_hashed_password u = h" "u_role u = DEFAULT_USER_ROLE" "user_row_ok u"
      "r = new_auth_result S J d u" "users db' = users db @ [u]" "email \<notin> u_email ` set (users db)"
    using register_Inr [OF assms(5)] by blast
  have ok: "db_ok db'" using register_db_ok [OF assms(4), of S C J ud d email password] assms(5) by simp
  have "find_by u_email (users db') email = Some u"
    using ok u(2,7) by (auto simp: find_by_iff db_ok_defs)
  moreover have "verify_password C password h = Inr True"
    using crypto_library.bcrypt_check_hash [OF assms(1) u(1)] by (simp add: verify_password_def)
  ultimately have "login S C J d' email password db' = (Inr (new_auth_result S J d' u),
      db'\<lparr>refresh_tokens := refresh_tokens db' @ [new_refresh_row S C d' (u_id u) (d_family_id d')]\<rparr>)"
    using crypto_library.issue_tokens_ok [OF assms(1,6) _ u(5)] u(3,7) by (simp add: login_def)
  moreover have "map_option tc_sub (decode_token S J t (ar_access_token r) DEFAULT_USER_SCOPES) =
      (if d_access_now d \<le> t \<and> t < d_access_now d + JWT_ACCESS_TOKEN_EXPIRE_MIN S * 60
       then Some (u_id u) else None)" for t
    using jwt_library.decode_created [OF assms(2,3) default_scope_words]
    by (simp add: u(6) new_auth_result_def create_user_access_token_def)
  ultimately show ?thesis using u(2) by (simp add: u(6) new_auth_result_def)
qed

lemma sample_register_on:
  assumes "users db = []" and "refresh_tokens db = []"
  shows "register default_settings reference_crypto reference_jwt sample_user_draws
      (sample_draws ''r1'' ''j1'' ''f1'' 0) ''a@b.co'' ''secret12'' db =
    (Inr (new_auth_result default_settings reference_jwt (sample_draws ''r1'' ''j1'' ''f1'' 0) sample_user),
     db\<lparr>users := [sample_user], refresh_tokens := [sample_token]\<rparr>)"
proof -
  have len: "utf8_len ''secret12'' = 8" by (simp add: utf8_len_def)
  have "issue_tokens default_settings reference_crypto reference_jwt (sample_draws ''r1'' ''j1'' ''f1'' 0)
      sample_user (db\<lparr>users := [sample_user]\<rparr>) =
    (Inr (new_auth_result default_settings reference_jwt (sample_draws ''r1'' ''j1'' ''f1'' 0) sample_user),
     db\<lparr>users := [sample_user], refresh_tokens := [sample_token]\<rparr>)"
    using ref_crypto.issue_tokens_ok [of "db\<lparr>users := [sample_user]\<rparr>"
        "sample_draws ''r1'' ''j1'' ''f1'' 0" sample_user default_settings reference_jwt] assms
    by (simp add: usable_draws_def user_row_ok_def sample_user_def)
  moreover have "hash_password reference_crypto ''salt'' ''secret12'' = Inr ''salt$secret12''"
    using len by (simp add: hash_password_def reference_crypto_def)
  moreover have "insert_user sample_user db = Inr (db\<lparr>users := [sample_user]\<rparr>)"
    using assms by (simp add: insert_user_Inr_iff user_row_ok_def sample_user_def)
  ultimately show ?thesis
    using assms by (simp add: register_def Let_def find_by_def sample_user_draws_def sample_user_def
        DEFAULT_USER_ROLE_def)
qed

lemma sample_registered:
  "register default_settings reference_crypto reference_jwt sample_user_draws
      (sample_draws ''r1'' ''j1'' ''f1'' 0) ''a@b.co'' ''secret12'' empty_db =
    (Inr (new_auth_result default_settings reference_jwt (sample_draws ''r1'' ''j1'' ''f1'' 0) sample_user),
     sample_auth_db)"
  using sample_register_on [of empty_db] by (simp add: empty_db_def sample_auth_db_def)

theorem register_then_login_witness:
  "\<exists>r' db''. login default_settings reference_crypto reference_jwt
      (sample_draws ''r2'' ''j2'' ''f2'' 60) ''a@b.co'' ''secret12'' sample_auth_db = (Inr r', db'') \<and>
    ar_user r' = sample_user"
  using register_then_login [OF ref_crypto.crypto_library_axioms ref_jwt.jwt_library_axioms
      default_jwt_configured empty_db_ok sample_registered sample_usable(2)]
  by (auto simp: new_auth_result_def)

subsection \<open>Refresh\<close>

lemma refresh_cases:
  assumes "db_ok db"
  shows "hash_token C raw \<notin> rt_token_hash ` set (refresh_tokens db) \<Longrightarrow>
      refresh S C J d raw db = (invalid_refresh, db)"
    and "t \<in> set (refresh_tokens db) \<Longrightarrow> rt_token_hash t = hash_token C raw \<Longrightarrow>
      refresh S C J d raw db =
      (if \<not> active t then (invalid_refresh, revoke_family (rt_family_id t) (d_now d) db)
       else if rt_expires_at t \<le> d_now d then (invalid_refresh, stamp_revoked t (d_now d) db)
       else case find_by u_id (users db) (rt_user_id t) of
              None \<Rightarrow> (invalid_refresh, stamp_revoked t (d_now d) db)
            | Some u \<Rightarrow>
                (case insert_token (new_refresh_row S C d (u_id u) (rt_family_id t))
                        (replace_token t (d_now d) (d_jti d) db) of
                   Inl e \<Rightarrow> (Inl e, db)
                 | Inr db' \<Rightarrow> (Inr (new_auth_result S J d u), db')))"
proof -
  assume "hash_token C raw \<notin> rt_token_hash ` set (refresh_tokens db)"
  then have "get_refresh_token C raw db = invalid_refresh" by (simp add: get_refresh_token_cases [OF assms])
  then show "refresh S C J d raw db = (invalid_refresh, db)" by (simp add: refresh_def)
next
  assume "t \<in> set (refresh_tokens db)" and "rt_token_hash t = hash_token C raw"
  then have "get_refresh_token C raw db = Inr t" by (simp add: get_refresh_token_cases [OF assms])
  then show "refresh S C J d raw db =
      (if \<not> active t then (invalid_refresh, revoke_family (rt_family_id t) (d_now d) db)
       else if rt_expires_at t \<le> d_now d then (invalid_refresh, stamp_revoked t (d_now d) db)
       else case find_by u_id (users db) (rt_user_id t) of
              None \<Rightarrow> (invalid_refresh, stamp_revoked t (d_now d) db)
            | Some u \<Rightarrow>
                (case insert_token (new_refresh_row S C d (u_id u) (rt_family_id t))
                        (replace_token t (d_now d) (d_jti d) db) of
                   Inl e \<Rightarrow> (Inl e, db)
                 | Inr db' \<Rightarrow> (Inr (new_auth_result S J d u), db')))"
    by (simp add: refresh_def Let_def)
qed

lemma refresh_active:
  assumes "crypto_library C" and "db_ok db" and "usable_draws C db d"
    and t: "t \<in> set (refresh_tokens db)" "rt_token_hash t = hash_token C raw" "active t"
      "d_now d < rt_expires_at t"
  shows "\<exists>u \<in> set (users db). u_id u = rt_user_id t \<and>
    refresh S C J d raw db = (Inr (new_auth_result S J d u),
      (replace_token t (d_now d) (d_jti d) db)\<lparr>refresh_tokens :=
        refresh_tokens (replace_token t (d_now d) (d_jti d) db) @
          [new_refresh_row S C d (rt_user_id t) (rt_family_id t)]\<rparr>)"
proof -
  obtain u where u: "find_by u_id (users db) (rt_user_id t) = Some u" "u \<in> set (users db)"
      "u_id u = rt_user_id t"
    using token_owner [OF assms(2) t(1)] .
  let ?db = "replace_token t (d_now d) (d_jti d) db"
  have "usable_draws C ?db d" using assms(3) by (simp add: usable_draws_def replace_token_columns)
  moreover have "u \<in> set (users ?db)" using u(2) by (simp add: replace_token_def)
  moreover have "length (rt_family_id t) \<le> 36"
    using tokens_ok_rows [OF assms(2) t(1)] by (simp add: token_row_ok_def)
  ultimately have "insert_token (new_refresh_row S C d (u_id u) (rt_family_id t)) ?db =
      Inr (?db\<lparr>refresh_tokens := refresh_tokens ?db @ [new_refresh_row S C d (u_id u) (rt_family_id t)]\<rparr>)"
    using crypto_library.token_insertable [OF assms(1)] users_ok_rows [OF assms(2) u(2)] by blast
  with u t show ?thesis using refresh_cases(2) [OF assms(2) t(1,2)] by (intro bexI [of _ u]) simp_all
qed

text \<open>
  A refresh token is exchanged for new credentials exactly when it is stored, not
  revoked and not expired; every other string, whatever it is, gets the same 401.
\<close>

theorem refresh_accepts_exactly:
  assumes "crypto_library C" and "db_ok db" and "usable_draws C db d"
  shows "if \<exists>t \<in> set (refresh_tokens db). rt_token_hash t = hash_token C raw \<and> active t \<and>
        d_now d < rt_expires_at t
    then \<exists>r. fst (refresh S C J d raw db) = Inr r
    else fst (refresh S C J d raw db) = invalid_refresh \<and>
      status_code (handle_exception (UnauthorizedError ''Invalid refresh token'')) = 401"
proof (cases "hash_token C raw \<in> rt_token_hash ` set (refresh_tokens db)")
  case False
  then show ?thesis using refresh_cases(1) [OF assms(2) False] by (force simp: handler_defs)
next
  case True
  then obtain t where t: "t \<in> set (refresh_tokens db)" "rt_token_hash t = hash_token C raw" by auto
  have only: "u = t" if "u \<in> set (refresh_tokens db)" "rt_token_hash u = hash_token C raw" for u
    using same_hash [OF assms(2) that(1) t(1)] t(2) that(2) by simp
  show ?thesis
  proof (cases "active t \<and> d_now d < rt_expires_at t")
    case True
    with refresh_active [OF assms t, of S J] t show ?thesis by auto
  next
    case False
    then have "fst (refresh S C J d raw db) = invalid_refresh"
      using refresh_cases(2) [OF assms(2) t] by (auto simp: not_less)
    with False only show ?thesis by (auto simp: handler_defs)
  qed
qed

theorem refresh_accepts_exactly_witness:
  "\<exists>r. fst (refresh default_settings reference_crypto reference_jwt
      (sample_draws ''r2'' ''j2'' ''f2'' 60) ''r1'' sample_auth_db) = Inr r"
  using refresh_accepts_exactly [OF ref_crypto.crypto_library_axioms sample_auth_db_ok sample_usable(2),
      of "''r1''" default_settings reference_jwt]
  by (simp add: sample_auth_rows)

lemma refresh_Inr:
  assumes "db_ok db" and "refresh S C J d raw db = (Inr r, db')"
  shows "\<exists>t u. t \<in> set (refresh_tokens db) \<and> rt_token_hash t = hash_token C raw \<and> active t \<and>
    d_now d < rt_expires_at t \<and> u \<in> set (users db) \<and> u_id u = rt_user_id t \<and>
    r = new_auth_result S J d u \<and>
    db' = (replace_token t (d_now d) (d_jti d) db)\<lparr>refresh_tokens :=
        refresh_tokens (replace_token t (d_now d) (d_jti d) db) @
          [new_refresh_row S C d (rt_user_id t) (rt_family_id t)]\<rparr>"
proof (cases "hash_token C raw \<in> rt_token_hash ` set (refresh_tokens db)")
  case False
  with assms refresh_cases(1) [OF assms(1) False] show ?thesis by simp
next
  case True
  then obtain t where t: "t \<in> set (refresh_tokens db)" "rt_token_hash t = hash_token C raw" by auto
  obtain u where u: "find_by u_id (users db) (rt_user_id t) = Some u" "u \<in> set (users db)"
      "u_id u = rt_user_id t"
    using token_owner [OF assms(1) t(1)] .
  from assms(2) refresh_cases(2) [OF assms(1) t, of S J d] u
  have act: "active t" "d_now d < rt_expires_at t"
    and "insert_token (new_refresh_row S C d (rt_user_id t) (rt_family_id t))
      (replace_token t (d_now d) (d_jti d) db) = Inr db'" "r = new_auth_result S J d u"
    by (auto simp: not_le split: if_splits sum.splits)
  with t u show ?thesis by (intro exI [of _ t] exI [of _ u]) (simp add: insert_token_Inr_iff)
qed

text \<open>
  C5: a successful refresh rotates.  The token presented is revoked now and points to its
  successor; one new active token is added, in the same family, for the same user, with a
  fresh expiry, under the hash of the token returned to the client; nothing else in the
  database changes; and presenting the old token again is refused.
\<close>

theorem refresh_rotates:
  assumes "db_ok db" and "refresh S C J d raw db = (Inr r, db')"
  shows "\<exists>t n. t \<in> set (refresh_tokens db) \<and> rt_token_hash t = hash_token C raw \<and> active t \<and>
    n = new_refresh_row S C d (rt_user_id t) (rt_family_id t) \<and>
    rt_token_hash n = hash_token C (ar_refresh_token r) \<and>
    u_id (ar_user r) = rt_user_id t \<and>
    set (refresh_tokens db') = {n} \<union> (set (refresh_tokens db) - {t}) \<union>
      {t\<lparr>rt_revoked_at := Some (d_now d), rt_replaced_by_jti := Some (rt_jti n)\<rparr>} \<and>
    length (refresh_tokens db') = length (refresh_tokens db) + 1 \<and>
    users db' = users db \<and> parcels db' = parcels db \<and> parcel_types db' = parcel_types db \<and>
    (\<forall>d'. fst (refresh S C J d' raw db') = invalid_refresh)"
proof -
  obtain t u where t: "t \<in> set (refresh_tokens db)" "rt_token_hash t = hash_token C raw" "active t"
      and u: "u_id u = rt_user_id t" "r = new_auth_result S J d u"
      and db': "db' = (replace_token t (d_now d) (d_jti d) db)\<lparr>refresh_tokens :=
        refresh_tokens (replace_token t (d_now d) (d_jti d) db) @
          [new_refresh_row S C d (rt_user_id t) (rt_family_id t)]\<rparr>"
    using refresh_Inr [OF assms] by blast
  let ?old = "t\<lparr>rt_revoked_at := Some (d_now d), rt_replaced_by_jti := Some (d_jti d)\<rparr>"
  have rows: "set (refresh_tokens db') = {new_refresh_row S C d (rt_user_id t) (rt_family_id t)} \<union>
      (set (refresh_tokens db) - {t}) \<union> {?old}"
    using set_replace_token [OF assms(1) t(1), of _ "d_now d" "d_jti d"] by (auto simp: db')
  have ok: "db_ok db'" using refresh_db_ok [OF assms(1), of S C J d raw] assms(2) by simp
  have "fst (refresh S C J d' raw db') = invalid_refresh" for d'
    using refresh_revoked [OF ok, of ?old C raw S J d'] rows t(2) by simp
  with t u rows show ?thesis
    by (intro exI [of _ t] exI [of _ "new_refresh_row S C d (rt_user_id t) (rt_family_id t)"])
      (simp add: db' new_auth_result_def replace_token_def set_token_def)
qed

lemma sample_refreshed:
  obtains r db' where "refresh default_settings reference_crypto reference_jwt
    (sample_draws ''r2'' ''j2'' ''f2'' 60) ''r1'' sample_auth_db = (Inr r, db')"
  using refresh_active [OF ref_crypto.crypto_library_axioms sample_auth_db_ok sample_usable(2),
      of sample_token "''r1''" default_settings reference_jwt]
  by (auto simp: sample_auth_rows)

theorem refresh_rotates_witness:
  "\<exists>r db'. refresh default_settings reference_crypto reference_jwt
      (sample_draws ''r2'' ''j2'' ''f2'' 60) ''r1'' sample_auth_db = (Inr r, db') \<and>
    length (refresh_tokens db') = 2 \<and>
    fst (refresh default_settings reference_crypto reference_jwt
      (sample_draws ''r3'' ''j3'' ''f3'' 61) ''r1'' db') = invalid_refresh"
proof -
  obtain r db' where r: "refresh default_settings reference_crypto reference_jwt
    (sample_draws ''r2'' ''j2'' ''f2'' 60) ''r1'' sample_auth_db = (Inr r, db')"
    by (rule sample_refreshed)
  from refresh_rotates [OF sample_auth_db_ok r] r show ?thesis by (auto simp: sample_auth_rows)
qed

text \<open>
  C6: a replayed token (one already revoked: rotated, logged out or expired) is a sign of
  theft.  The call fails, and it revokes every token of the family, so that no token of that
  family, known to whom it may be, is accepted from then on; the tokens of other families
  are left as they were and no token is issued.
\<close>

theorem reuse_revokes_family:
  assumes "db_ok db" and "t \<in> set (refresh_tokens db)" and "rt_token_hash t = hash_token C raw"
    and "\<not> active t" and "refresh S C J d raw db = (res, db')"
  shows "res = invalid_refresh \<and>
    (\<forall>u \<in> set (refresh_tokens db'). rt_family_id u = rt_family_id t \<longrightarrow> \<not> active u) \<and>
    (\<forall>raw' d'. (\<exists>u \<in> set (refresh_tokens db). rt_family_id u = rt_family_id t \<and>
        rt_token_hash u = hash_token C raw') \<longrightarrow>
      fst (refresh S C J d' raw' db') = invalid_refresh) \<and>
    map rt_jti (refresh_tokens db') = map rt_jti (refresh_tokens db) \<and>
    (\<forall>u \<in> set (refresh_tokens db). rt_family_id u \<noteq> rt_family_id t \<longrightarrow> u \<in> set (refresh_tokens db'))"
proof -
  let ?f = "rt_revoked_at_update (\<lambda>_. Some (d_now d))"
  have r: "res = invalid_refresh" "db' = revoke_family (rt_family_id t) (d_now d) db"
    using refresh_revoked [OF assms(1-4), of S J d] assms(5) by simp_all
  have rows: "refresh_tokens db' = update_where (\<lambda>u. rt_family_id u = rt_family_id t \<and> active u) ?f (refresh_tokens db)"
    by (simp add: r(2) revoke_family_def revoke_where_def)
  have ok: "db_ok db'" using r(2) revoke_family_db_ok [OF assms(1)] by simp
  have dead: "\<not> active u" if "u \<in> set (refresh_tokens db')" "rt_family_id u = rt_family_id t" for u
    using that unfolding rows in_update_where by auto
  have "fst (refresh S C J d' raw' db') = invalid_refresh"
    if u: "u \<in> set (refresh_tokens db)" "rt_family_id u = rt_family_id t" "rt_token_hash u = hash_token C raw'"
    for u raw' d'
  proof -
    let ?u = "if rt_family_id u = rt_family_id t \<and> active u then ?f u else u"
    have "?u \<in> set (refresh_tokens db')" using u(1) unfolding rows in_update_where by blast
    moreover have "\<not> active ?u" "rt_token_hash ?u = hash_token C raw'" using u by simp_all
    ultimately show ?thesis using refresh_revoked [OF ok, of ?u C raw'] by simp
  qed
  moreover have "u \<in> set (refresh_tokens db')"
    if "u \<in> set (refresh_tokens db)" "rt_family_id u \<noteq> rt_family_id t" for u
    unfolding rows in_update_where using that by (intro bexI [of _ u]) simp_all
  moreover have "map rt_jti (refresh_tokens db') = map rt_jti (refresh_tokens db)"
    unfolding rows by (rule map_update_where) simp
  ultimately show ?thesis using r(1) dead by blast
qed

theorem reuse_revokes_family_witness:
  "\<exists>r db' res db''. refresh default_settings reference_crypto reference_jwt
      (sample_draws ''r2'' ''j2'' ''f2'' 60) ''r1'' sample_auth_db = (Inr r, db') \<and>
    refresh default_settings reference_crypto reference_jwt
      (sample_draws ''r3'' ''j3'' ''f3'' 61) ''r1'' db' = (res, db'') \<and> res = invalid_refresh \<and>
    (\<forall>u \<in> set (refresh_tokens db''). rt_family_id u = ''f1'' \<longrightarrow> \<not> active u)"
proof -
  obtain r db' where r: "refresh default_settings reference_crypto reference_jwt
    (sample_draws ''r2'' ''j2'' ''f2'' 60) ''r1'' sample_auth_db = (Inr r, db')"
    by (rule sample_refreshed)
  have ok: "db_ok db'" using refresh_db_ok [OF sample_auth_db_ok] r by (metis snd_conv)
  let ?old = "sample_token\<lparr>rt_revoked_at := Some 60, rt_replaced_by_jti := Some ''j2''\<rparr>"
  have "?old \<in> set (refresh_tokens db')"
    using refresh_Inr [OF sample_auth_db_ok r]
      set_replace_token [OF sample_auth_db_ok, of sample_token ?old 60 "''j2''"]
    by (auto simp: sample_auth_rows)
  moreover obtain res db'' where res: "refresh default_settings reference_crypto reference_jwt
      (sample_draws ''r3'' ''j3'' ''f3'' 61) ''r1'' db' = (res, db'')" by fastforce
  ultimately show ?thesis
    using reuse_revokes_family [OF ok _ _ _ res, of ?old] r by (auto 0 3)
qed

subsection \<open>Sequences of calls\<close>

text \<open>
  C12: revocation is for ever: whatever sequence of registrations, logins, refreshes and
  logouts follows, a revoked token keeps its row, with its first revocation time, and every
  attempt to use it is refused.
\<close>

theorem revocation_is_permanent:
  assumes "auth_reach S C J db db'" and "db_ok db" and "t \<in> set (refresh_tokens db)" and "\<not> active t"
  shows "t \<in> set (refresh_tokens db') \<and>
    (\<forall>raw d. hash_token C raw = rt_token_hash t \<longrightarrow> fst (refresh S C J d raw db') = invalid_refresh)"
  using auth_reach_keeps_revoked [OF assms] revoked_never_refreshes [OF assms] by auto

text \<open>
  C11: from a consistent database (an empty one, say), every sequence of calls leads to one in
  which each token family belongs to one user and has at most one active token, and each
  replaced token is revoked and points to a token of its family.  So a stolen token and the
  token that replaced it are never usable together.
\<close>

theorem one_active_token_per_family:
  assumes "auth_reach S C J db db'" and "db_ok db" and "families_ok (refresh_tokens db)"
    and "t \<in> set (refresh_tokens db')" and "u \<in> set (refresh_tokens db')"
    and "rt_family_id t = rt_family_id u"
  shows "rt_user_id t = rt_user_id u \<and> (active t \<and> active u \<longrightarrow> t = u) \<and>
    (\<forall>j. rt_replaced_by_jti t = Some j \<longrightarrow> \<not> active t \<and>
      (\<exists>s \<in> set (refresh_tokens db'). rt_jti s = j \<and> rt_family_id s = rt_family_id t))"
  using auth_reach_families [OF assms(1-3)] assms(4-6) unfolding families_ok_def by blast

lemma logout_revokes:
  assumes "db_ok db" and "t \<in> set (refresh_tokens db)" and "rt_token_hash t = hash_token C raw"
  shows "\<exists>db1. logout C now raw db = (Inr (), db1) \<and> db_ok db1 \<and>
    (\<exists>t' \<in> set (refresh_tokens db1). \<not> active t' \<and> rt_token_hash t' = hash_token C raw) \<and>
    (\<forall>u \<in> set (refresh_tokens db). u \<noteq> t \<longrightarrow> u \<in> set (refresh_tokens db1))"
proof -
  have get: "get_refresh_token C raw db = Inr t" using assms by (simp add: get_refresh_token_cases)
  show ?thesis
  proof (cases "active t")
    case False
    with get assms show ?thesis by (auto simp: logout_def)
  next
    case True
    have "t\<lparr>rt_revoked_at := Some now\<rparr> \<in> set (refresh_tokens (stamp_revoked t now db))"
      using set_stamp_revoked [OF assms(1,2)] by simp
    moreover have "u \<in> set (refresh_tokens (stamp_revoked t now db))"
      if "u \<in> set (refresh_tokens db)" "u \<noteq> t" for u
      using set_stamp_revoked [OF assms(1,2)] that by simp
    ultimately show ?thesis using True get assms(3) stamp_revoked_db_ok [OF assms(1)]
      by (auto simp: logout_def intro!: bexI [of _ "t\<lparr>rt_revoked_at := Some now\<rparr>"])
  qed
qed

text \<open>
  Logout ends the session for good: with a stored token it succeeds (also a second
  time), leaves every other token alone, and in every database any later calls lead to the
  token is refused.
\<close>

theorem logout_ends_session:
  assumes "db_ok db" and "t \<in> set (refresh_tokens db)" and "rt_token_hash t = hash_token C raw"
  shows "\<exists>db1. logout C now raw db = (Inr (), db1) \<and>
    (\<forall>u \<in> set (refresh_tokens db). u \<noteq> t \<longrightarrow> u \<in> set (refresh_tokens db1)) \<and>
    (\<exists>db2. logout C now' raw db1 = (Inr (), db2)) \<and>
    (\<forall>S J db2 d. auth_reach S C J db1 db2 \<longrightarrow> fst (refresh S C J d raw db2) = invalid_refresh)"
proof -
  obtain db1 t' where db1: "logout C now raw db = (Inr (), db1)" "db_ok db1"
      "t' \<in> set (refresh_tokens db1)" "\<not> active t'" "rt_token_hash t' = hash_token C raw"
      "\<forall>u \<in> set (refresh_tokens db). u \<noteq> t \<longrightarrow> u \<in> set (refresh_tokens db1)"
    using logout_revokes [OF assms] by blast
  then show ?thesis
    using logout_revokes [OF db1(2,3,5), of now'] revoked_never_refreshes [OF _ db1(2-5)] by blast
qed

text \<open>
  Logout from all devices ends every session of the user: in every database any later
  calls lead to, no refresh token the user had is accepted; the tokens of the other users
  are untouched.  (Access tokens already issued are not stored and stay valid until they
  expire.)
\<close>

theorem logout_all_ends_sessions:
  assumes "db_ok db" and "auth_reach S C J (logout_all now user_id db) db'"
  shows "(\<forall>t raw d. t \<in> set (refresh_tokens db) \<longrightarrow> rt_user_id t = user_id \<longrightarrow>
      rt_token_hash t = hash_token C raw \<longrightarrow> fst (refresh S C J d raw db') = invalid_refresh) \<and>
    (\<forall>t \<in> set (refresh_tokens db). rt_user_id t \<noteq> user_id \<longrightarrow>
      t \<in> set (refresh_tokens (logout_all now user_id db)))"
proof -
  let ?f = "rt_revoked_at_update (\<lambda>_. Some now)"
  have rows: "refresh_tokens (logout_all now user_id db) =
      update_where (\<lambda>t. rt_user_id t = user_id \<and> active t) ?f (refresh_tokens db)"
    by (simp add: logout_all_def revoke_where_def)
  have "fst (refresh S C J d raw db') = invalid_refresh"
    if t: "t \<in> set (refresh_tokens db)" "rt_user_id t = user_id" "rt_token_hash t = hash_token C raw"
    for t raw d
  proof -
    let ?t = "if rt_user_id t = user_id \<and> active t then ?f t else t"
    have "?t \<in> set (refresh_tokens (logout_all now user_id db))"
      using t(1) unfolding rows in_update_where by blast
    moreover have "\<not> active ?t" "rt_token_hash ?t = hash_token C raw" using t by simp_all
    ultimately show ?thesis
      by (rule revoked_never_refreshes [OF assms(2) logout_all_db_ok [OF assms(1)]])
  qed
  moreover have "t \<in> set (refresh_tokens (logout_all now user_id db))"
    if "t \<in> set (refresh_tokens db)" "rt_user_id t \<noteq> user_id" for t
    unfolding rows in_update_where using that by (intro bexI [of _ t]) simp_all
  ultimately show ?thesis by blast
qed

lemma auth_effect_tables:
  "parcels (auth_effect S C J c db) = parcels db \<and>
   parcel_types (auth_effect S C J c db) = parcel_types db \<and>
   set (users db) \<subseteq> set (users (auth_effect S C J c db)) \<and>
   length (refresh_tokens db) \<le> length (refresh_tokens (auth_effect S C J c db))"
proof (cases c)
  case (Register ud d email password)
  then show ?thesis
    by (auto simp: register_def issue_tokens_def Let_def insert_user_Inr_iff insert_token_Inr_iff
        split: option.split sum.split)
next
  case (Login d email password)
  then show ?thesis
    by (auto simp: login_def issue_tokens_def insert_token_Inr_iff split: option.split sum.split bool.split)
next
  case (Refresh d raw)
  then show ?thesis
    by (auto simp: refresh_def Let_def insert_token_Inr_iff revoke_family_def stamp_revoked_def
        replace_token_def revoke_where_def set_token_def split: option.split sum.split)
next
  case (Logout now raw)
  then show ?thesis
    by (auto simp: logout_def stamp_revoked_def set_token_def split: sum.split)
next
  case (Logout_All now user_id)
  then show ?thesis by (simp add: logout_all_def revoke_where_def)
qed

text \<open>
  No authentication call, in any state and with any outcome, violates a declared
  constraint (unique addresses and token hashes, foreign keys, lengths), touches parcels or
  parcel types, or loses a user or a token row.
\<close>

theorem auth_keeps_constraints:
  assumes "auth_reach S C J db db'" and "db_ok db"
  shows "db_ok db' \<and> parcels db' = parcels db \<and> parcel_types db' = parcel_types db \<and>
    set (users db) \<subseteq> set (users db') \<and> length (refresh_tokens db) \<le> length (refresh_tokens db')"
proof -
  have "parcels db' = parcels db \<and> parcel_types db' = parcel_types db \<and>
    set (users db) \<subseteq> set (users db') \<and> length (refresh_tokens db) \<le> length (refresh_tokens db')"
    using assms(1)
  proof (induction rule: auth_reach.induct)
    case (call db' c)
    with auth_effect_tables [of S C J c db'] show ?case by (auto intro: order_trans)
  qed simp
  with auth_reach_db_ok [OF assms] show ?thesis by simp
qed

subsection \<open>Concrete sessions\<close>

definition logged_out_db :: db where
  "logged_out_db = sample_auth_db\<lparr>refresh_tokens := [sample_token\<lparr>rt_revoked_at := Some 30\<rparr>]\<rparr>"

lemma logged_out_db_ok: "db_ok logged_out_db"
  using sample_auth_db_ok
  by (simp add: logged_out_db_def db_ok_defs sample_auth_rows token_row_ok_def)
    (simp add: sample_user_def)

abbreviation sample_login :: auth_call where
  "sample_login \<equiv> Login (sample_draws ''r2'' ''j2'' ''f2'' 60) ''a@b.co'' ''secret12''"

abbreviation sample_effect :: "auth_call \<Rightarrow> db \<Rightarrow> db" where
  "sample_effect \<equiv> auth_effect default_settings reference_crypto reference_jwt"

lemma one_call_reach: "fresh_family c db \<Longrightarrow> auth_reach S C J db (auth_effect S C J c db)"
  by (rule auth_reach.call [OF auth_reach.start])

theorem revocation_is_permanent_witness:
  "fst (refresh default_settings reference_crypto reference_jwt (sample_draws ''r3'' ''j3'' ''f3'' 90)
      ''r1'' (sample_effect sample_login logged_out_db)) = invalid_refresh"
proof -
  have "auth_reach default_settings reference_crypto reference_jwt logged_out_db
      (sample_effect sample_login logged_out_db)"
    by (rule one_call_reach) (simp add: logged_out_db_def)
  from revocation_is_permanent [OF this logged_out_db_ok, of "sample_token\<lparr>rt_revoked_at := Some 30\<rparr>"]
  show ?thesis by (simp add: logged_out_db_def)
qed

lemma sample_families: "families_ok (refresh_tokens sample_auth_db)"
  by (simp add: families_ok_def sample_auth_rows)

theorem one_active_token_per_family_witness:
  "\<exists>s \<in> set (refresh_tokens (sample_effect (Refresh (sample_draws ''r2'' ''j2'' ''f2'' 60) ''r1'') sample_auth_db)).
     rt_jti s = ''j2'' \<and> rt_family_id s = ''f1''"
proof -
  obtain r db' where r: "refresh default_settings reference_crypto reference_jwt
    (sample_draws ''r2'' ''j2'' ''f2'' 60) ''r1'' sample_auth_db = (Inr r, db')"
    by (rule sample_refreshed)
  let ?old = "sample_token\<lparr>rt_revoked_at := Some 60, rt_replaced_by_jti := Some ''j2''\<rparr>"
  have old: "?old \<in> set (refresh_tokens db')"
    using refresh_Inr [OF sample_auth_db_ok r]
      set_replace_token [OF sample_auth_db_ok, of sample_token ?old 60 "''j2''"]
    by (auto simp: sample_auth_rows)
  have "auth_reach default_settings reference_crypto reference_jwt sample_auth_db
      (sample_effect (Refresh (sample_draws ''r2'' ''j2'' ''f2'' 60) ''r1'') sample_auth_db)"
    by (rule one_call_reach) simp
  with r have "auth_reach default_settings reference_crypto reference_jwt sample_auth_db db'" by simp
  from one_active_token_per_family [OF this sample_auth_db_ok sample_families old old] r
  show ?thesis by auto
qed

theorem logout_ends_session_witness:
  "\<exists>db1. logout reference_crypto 30 ''r1'' sample_auth_db = (Inr (), db1) \<and>
    fst (refresh default_settings reference_crypto reference_jwt (sample_draws ''r3'' ''j3'' ''f3'' 90)
      ''r1'' db1) = invalid_refresh"
proof -
  obtain db1 where db1: "logout reference_crypto 30 ''r1'' sample_auth_db = (Inr (), db1)"
      "\<And>S J db2 d. auth_reach S reference_crypto J db1 db2 \<Longrightarrow>
        fst (refresh S reference_crypto J d ''r1'' db2) = invalid_refresh"
    using logout_ends_session [OF sample_auth_db_ok, of sample_token reference_crypto "''r1''" 30 40]
    by (auto simp: sample_auth_rows)
  with auth_reach.start show ?thesis by blast
qed

theorem logout_all_ends_sessions_witness:
  "fst (refresh default_settings reference_crypto reference_jwt (sample_draws ''r3'' ''j3'' ''f3'' 90)
      ''r1'' (logout_all 30 ''u1'' sample_auth_db)) = invalid_refresh"
  using logout_all_ends_sessions [OF sample_auth_db_ok auth_reach.start, where S = default_settings
      and C = reference_crypto and J = reference_jwt and now = 30 and user_id = "''u1''"]
  by (simp add: sample_auth_rows)

theorem auth_keeps_constraints_witness:
  "db_ok (sample_effect (Register sample_user_draws (sample_draws ''r1'' ''j1'' ''f1'' 0) ''a@b.co''
      ''secret12'') empty_db)"
proof -
  have "fresh_family (Register sample_user_draws (sample_draws ''r1'' ''j1'' ''f1'' 0) ''a@b.co''
      ''secret12'') empty_db"
    by (simp add: empty_db_def)
  from auth_keeps_constraints [OF one_call_reach [OF this] empty_db_ok] show ?thesis by blast
qed

end
