(* ===== verification/Redis.thy ===== *)
theory Redis
  imports Errors
begin

text \<open>
  The Redis commands the program issues, as a record of operations on an opaque store: the
  service itself is not under \<^verbatim>\<open>src/\<close>.  The locale \<open>redis_store\<close> states the documented
  meaning of \<^verbatim>\<open>GET\<close>, \<^verbatim>\<open>SET [EX]\<close>, \<^verbatim>\<open>SET EX NX\<close> and \<^verbatim>\<open>DEL\<close>, each at the instant it is
  executed; it is interpreted on \<open>reference_redis\<close>, a map from keys to values with an
  optional expiry.
\<close>

record 'r redis_ops =
  r_get :: "'r \<Rightarrow> instant \<Rightarrow> string \<Rightarrow> string option"
  r_set :: "'r \<Rightarrow> instant \<Rightarrow> string \<Rightarrow> string \<Rightarrow> seconds option \<Rightarrow> 'r"
  r_set_nx :: "'r \<Rightarrow> instant \<Rightarrow> string \<Rightarrow> string \<Rightarrow> seconds \<Rightarrow> 'r \<times> bool"
  r_delete :: "'r \<Rightarrow> instant \<Rightarrow> string \<Rightarrow> 'r"

definition live :: "instant \<Rightarrow> instant \<Rightarrow> seconds option \<Rightarrow> bool" where
  "live set_at t ex \<longleftrightarrow> (case ex of None \<Rightarrow> True | Some ttl \<Rightarrow> t < set_at + ttl)"

locale redis_store =
  fixes R :: "'r redis_ops"
  assumes get_set:
      "now \<le> t \<Longrightarrow> r_get R (r_set R r now k v ex) t k' =
         (if k' = k then (if live now t ex then Some v else None) else r_get R r t k')"
    and set_nx_free:
      "r_get R r now k = None \<Longrightarrow> r_set_nx R r now k v ttl = (r_set R r now k v (Some ttl), True)"
    and set_nx_held:
      "r_get R r now k = Some w \<Longrightarrow> r_set_nx R r now k v ttl = (r, False)"
    and get_delete:
      "now \<le> t \<Longrightarrow> r_get R (r_delete R r now k) t k' = (if k' = k then None else r_get R r t k')"
begin

lemma set_nx_snd: "snd (r_set_nx R r now k v ttl) \<longleftrightarrow> r_get R r now k = None"
  by (cases "r_get R r now k") (simp_all add: set_nx_free set_nx_held)

lemma get_after_set_nx:
  assumes "r_set_nx R r now k v ttl = (r', True)" and "now \<le> t"
  shows "r_get R r' t k' =
    (if k' = k then (if t < now + ttl then Some v else None) else r_get R r t k')"
proof -
  from assms(1) have "r_get R r now k = None" using set_nx_snd [of r now k v ttl] by simp
  with assms show ?thesis by (auto simp: set_nx_free get_set live_def)
qed

text \<open>A second conditional set before the expiry is refused and changes nothing.\<close>

lemma set_nx_twice:
  assumes "r_set_nx R r t0 k v ttl = (r', True)" and "t0 \<le> t1" and "t1 < t0 + ttl"
  shows "r_set_nx R r' t1 k w ttl' = (r', False)"
  using assms by (intro set_nx_held) (simp add: get_after_set_nx)

lemma set_nx_after_delete:
  "r_set_nx R (r_delete R r now k) now k v ttl =
     (r_set R (r_delete R r now k) now k v (Some ttl), True)"
  by (rule set_nx_free) (simp add: get_delete)

end

subsection \<open>A reference store\<close>

type_synonym kv = "string \<Rightarrow> (string \<times> instant option) option"

definition reference_redis :: "kv redis_ops" where
  "reference_redis = \<lparr>
     r_get = (\<lambda>m t k. case m k of None \<Rightarrow> None
       | Some (v, None) \<Rightarrow> Some v
       | Some (v, Some e) \<Rightarrow> if t < e then Some v else None),
     r_set = (\<lambda>m now k v ex. m(k := Some (v, map_option (\<lambda>ttl. now + ttl) ex))),
     r_set_nx = (\<lambda>m now k v ttl.
       (case (case m k of None \<Rightarrow> None | Some (w, None) \<Rightarrow> Some w
              | Some (w, Some e) \<Rightarrow> if now < e then Some w else None) of
          None \<Rightarrow> (m(k := Some (v, Some (now + ttl))), True)
        | Some w \<Rightarrow> (m, False))),
     r_delete = (\<lambda>m now k. m(k := None))\<rparr>"

definition empty_kv :: kv where
  "empty_kv = (\<lambda>_. None)"

lemma reference_redis_simps [simp]:
  "r_set reference_redis m now k v ex = m(k := Some (v, map_option (\<lambda>ttl. now + ttl) ex))"
  "r_delete reference_redis m now k = m(k := None)"
  "r_get reference_redis m t k = (case m k of None \<Rightarrow> None
     | Some (v, None) \<Rightarrow> Some v
     | Some (v, Some e) \<Rightarrow> if t < e then Some v else None)"
  "r_set_nx reference_redis m now k v ttl =
     (case r_get reference_redis m now k of
        None \<Rightarrow> (m(k := Some (v, Some (now + ttl))), True) | Some w \<Rightarrow> (m, False))"
  by (simp_all add: reference_redis_def)

interpretation ref_redis: redis_store reference_redis
  by unfold_locales (auto simp: live_def split: option.splits)

end
