(* ===== verification/Metrics.thy ===== *)
theory Metrics
  imports Models Redis
begin

text \<open>
  The domain metrics of \<^verbatim>\<open>app/core/metrics.py\<close> (one labelled counter, one histogram, one
  counter), and the state the process works on: the database, the Redis store and the
  metrics.
\<close>

record metrics =
  PARCELS_CREATED :: "ident \<Rightarrow> nat"
  DELIVERY_RECALC_DURATION :: "seconds list"
  DELIVERY_RECALC_PARCELS :: nat

definition init_metrics :: metrics where
  "init_metrics =
     \<lparr>PARCELS_CREATED = (\<lambda>_. 0), DELIVERY_RECALC_DURATION = [], DELIVERY_RECALC_PARCELS = 0\<rparr>"

record 'r app =
  app_db :: db
  app_redis :: 'r
  app_metrics :: metrics

end
