(* ===== verification/Parcel_Service.thy ===== *)
theory Parcel_Service
  imports Schemas Metrics
begin

text \<open>
  \<^verbatim>\<open>app/services/parcel.py\<close> and \<^verbatim>\<open>app/services/parcel_type.py\<close>, with the generic queries of
  \<^verbatim>\<open>app/services/base.py\<close>.  A query is a function of the database; \<^verbatim>\<open>create_from_dto\<close> also
  counts the parcel in the metrics, so it works on the application state.  The identifier a
  new row gets from \<^verbatim>\<open>uuid4\<close> is an argument.
\<close>

subsection \<open>Generic queries\<close>

definition crud_get :: "('a \<Rightarrow> ident) \<Rightarrow> 'a list \<Rightarrow> ident \<Rightarrow> 'a option" where
  "crud_get pk rows i = find_by pk rows i"

definition crud_list :: "('a \<Rightarrow> bool) list \<Rightarrow> 'a list \<Rightarrow> 'a list" where
  "crud_list filters rows = filter (\<lambda>r. list_all (\<lambda>f. f r) filters) rows"

text \<open>\<^verbatim>\<open>_commit\<close> of one new parcel: insert, commit, reload; an exception rolls back.\<close>

definition commit_new :: "engine \<Rightarrow> parcel \<Rightarrow> 'r app \<Rightarrow> parcel result \<times> 'r app" where
  "commit_new E p st =
     (case insert_parcel E p (app_db st) of
        Inl e \<Rightarrow> (Inl e, st)
      | Inr (p', db') \<Rightarrow> (Inr p', st\<lparr>app_db := db'\<rparr>))"

subsection \<open>Parcels\<close>

definition new_parcel :: "settings \<Rightarrow> ident \<Rightarrow> parcel_create \<Rightarrow> ident \<Rightarrow> parcel" where
  "new_parcel S i data owner = \<lparr>
     p_id = i, p_name = pc_name data, p_weight_kg = pc_weight_kg data,
     p_declared_value_usd = pc_declared_value_usd data,
     p_session_id = (if \<not> AUTH_REQUIRED S then owner else []),
     p_delivery_cost_rub = None,
     p_parcel_type_id = pc_parcel_type_id data,
     p_user_id = (if AUTH_REQUIRED S then Some owner else None)\<rparr>"

definition count_created :: "ident \<Rightarrow> metrics \<Rightarrow> metrics" where
  "count_created t m =
     m\<lparr>PARCELS_CREATED := (PARCELS_CREATED m)(t := PARCELS_CREATED m t + 1)\<rparr>"

definition create_from_dto ::
  "settings \<Rightarrow> engine \<Rightarrow> ident \<Rightarrow> parcel_create \<Rightarrow> ident \<Rightarrow> 'r app \<Rightarrow> parcel result \<times> 'r app" where
  "create_from_dto S E i data owner st =
     (let type_exists = map_option pt_id (crud_get pt_id (parcel_types (app_db st)) (pc_parcel_type_id data))
      in if type_exists = None \<or> type_exists = Some [] then
           (Inl (BusinessError ''Unknown parcel type''), st)
         else if pc_weight_kg data \<le> dec_zero then
           (Inl (BusinessError ''Weight must be positive''), st)
         else case commit_new E (new_parcel S i data owner) st of
                (Inl e, st') \<Rightarrow> (Inl e, st')
              | (Inr p, st') \<Rightarrow>
                  (Inr p, st'\<lparr>app_metrics := count_created (pc_parcel_type_id data) (app_metrics st')\<rparr>))"

definition owner_match :: "settings \<Rightarrow> ident \<Rightarrow> parcel \<Rightarrow> bool" where
  "owner_match S owner p \<longleftrightarrow>
     (if AUTH_REQUIRED S then p_user_id p = Some owner else p_session_id p = owner)"

text \<open>\<^verbatim>\<open>selectinload(Parcel.parcel_type)\<close>: the row with its parcel type.\<close>

definition with_type :: "db \<Rightarrow> parcel \<Rightarrow> parcel \<times> parcel_type option" where
  "with_type db p = (p, crud_get pt_id (parcel_types db) (p_parcel_type_id p))"

definition get_owned ::
  "settings \<Rightarrow> ident \<Rightarrow> ident \<Rightarrow> db \<Rightarrow> (parcel \<times> parcel_type option) result" where
  "get_owned S parcel_id owner db =
     (case crud_get p_id (parcels db) parcel_id of
        None \<Rightarrow> Inl (NotFoundError ''Parcel not found'')
      | Some p \<Rightarrow>
          if \<not> owner_match S owner p then Inl (UnauthorizedError ''Parcel not found'')
          else Inr (with_type db p))"

definition list_conditions ::
  "settings \<Rightarrow> ident \<Rightarrow> parcel_filter_params \<Rightarrow> (parcel \<Rightarrow> bool) list" where
  "list_conditions S owner fs =
     [owner_match S owner]
     @ (case type_id fs of None \<Rightarrow> [] | Some t \<Rightarrow> [\<lambda>p. p_parcel_type_id p = t])
     @ (if has_cost fs = Some True then [\<lambda>p. p_delivery_cost_rub p \<noteq> None] else [])
     @ (if has_cost fs = Some False then [\<lambda>p. p_delivery_cost_rub p = None] else [])"

definition matching_parcels :: "settings \<Rightarrow> ident \<Rightarrow> parcel_filter_params \<Rightarrow> db \<Rightarrow> parcel list" where
  "matching_parcels S owner fs db = crud_list (list_conditions S owner fs) (parcels db)"

definition list_owned ::
  "settings \<Rightarrow> ident \<Rightarrow> parcel_filter_params \<Rightarrow> nat \<Rightarrow> nat \<Rightarrow> db \<Rightarrow>
     nat \<times> (parcel \<times> parcel_type option) list" where
  "list_owned S owner fs limit offset db =
     (let rows = matching_parcels S owner fs db
      in (length rows, map (with_type db) (page_of limit offset (sort_key p_id rows))))"

definition set_delivery_cost :: "engine \<Rightarrow> parcel \<Rightarrow> decimal \<Rightarrow> db \<Rightarrow> db result" where
  "set_delivery_cost E p cost db = update_cost E (p_id p) cost db"

subsection \<open>Parcel types\<close>

definition list_all_types :: "db \<Rightarrow> parcel_type list" where
  "list_all_types db = sort_key pt_name (parcel_types db)"

definition total_types :: "db \<Rightarrow> nat" where
  "total_types db = length (crud_list [] (parcel_types db))"

subsection \<open>Lemmas\<close>

lemma crud_get_SomeD: "crud_get pk rows i = Some r \<Longrightarrow> r \<in> set rows \<and> pk r = i"
  unfolding crud_get_def by (rule find_by_SomeD)

lemma crud_get_None_iff: "crud_get pk rows i = None \<longleftrightarrow> i \<notin> pk ` set rows"
  unfolding crud_get_def by (rule find_by_None_iff)

lemma crud_get_iff:
  "distinct (map pk rows) \<Longrightarrow> crud_get pk rows i = Some r \<longleftrightarrow> r \<in> set rows \<and> pk r = i"
  by (simp add: crud_get_def find_by_iff)

lemma matching_parcels_iff:
  "p \<in> set (matching_parcels S owner fs db) \<longleftrightarrow>
     p \<in> set (parcels db) \<and> owner_match S owner p \<and>
     (\<forall>t. type_id fs = Some t \<longrightarrow> p_parcel_type_id p = t) \<and>
     (\<forall>b. has_cost fs = Some b \<longrightarrow> (p_delivery_cost_rub p \<noteq> None) = b)"
  by (cases "has_cost fs"; cases "type_id fs"; cases "the (has_cost fs)")
    (auto simp: matching_parcels_def crud_list_def list_conditions_def)

lemma list_owned_simps:
  "fst (list_owned S owner fs limit offset db) = length (matching_parcels S owner fs db)"
  "snd (list_owned S owner fs limit offset db) =
     map (with_type db) (page_of limit offset (sort_key p_id (matching_parcels S owner fs db)))"
  by (simp_all add: list_owned_def Let_def)

lemma create_from_dto_Inr:
  assumes "create_from_dto S E i data owner st = (Inr p, st')"
  shows "insert_parcel E (new_parcel S i data owner) (app_db st) = Inr (p, app_db st') \<and>
    st' = st\<lparr>app_db := app_db st', app_metrics := count_created (pc_parcel_type_id data) (app_metrics st)\<rparr> \<and>
    0 < dec_val (pc_weight_kg data)"
  using assms
  by (auto simp: create_from_dto_def commit_new_def Let_def less_eq_decimal_def not_le
      split: if_splits sum.splits prod.splits)

lemma create_from_dto_Inl:
  "create_from_dto S E i data owner st = (Inl e, st') \<Longrightarrow> st' = st"
  by (auto simp: create_from_dto_def commit_new_def Let_def split: if_splits sum.splits prod.splits)

lemma owner_match_new: "owner_match S owner (new_parcel S i data owner')= (owner' = owner)"
  by (auto simp: owner_match_def new_parcel_def)

lemma owner_match_store:
  "store_parcel E p = Inr p' \<Longrightarrow> owner_match S owner p' = owner_match S owner p"
  by (auto simp: owner_match_def dest: store_parcel_InrD)

lemma create_appends:
  assumes "create_from_dto S E i data owner st = (Inr p, st')"
  shows "parcels (app_db st') = parcels (app_db st) @ [p]" and "p_id p = i"
    and "parcel_types (app_db st') = parcel_types (app_db st)"
    and "owner_match S owner' p \<longleftrightarrow> owner' = owner" and "i \<notin> p_id ` set (parcels (app_db st))"
proof -
  from create_from_dto_Inr [OF assms] have ins:
    "insert_parcel E (new_parcel S i data owner) (app_db st) = Inr (p, app_db st')" by simp
  then have st: "store_parcel E (new_parcel S i data owner) = Inr p"
    by (simp add: insert_parcel_Inr_iff)
  from store_parcel_InrD [OF st] show "p_id p = i" by (simp add: new_parcel_def)
  with ins show "parcels (app_db st') = parcels (app_db st) @ [p]"
    and "parcel_types (app_db st') = parcel_types (app_db st)"
    and "i \<notin> p_id ` set (parcels (app_db st))"
    by (auto simp: insert_parcel_Inr_iff)
  show "owner_match S owner' p \<longleftrightarrow> owner' = owner"
    using owner_match_store [OF st, of S owner'] owner_match_new by auto
qed

end
