(* ===== verification/Rates.thy ===== *)
theory Rates
  imports Redis Settings
begin

text \<open>
  \<^verbatim>\<open>app/services/rates.py\<close>: the USD/RUB rate, cached in Redis by UTC date and otherwise
  fetched from the Central Bank mirror with up to three attempts.

  The HTTP exchange and the retry decorator (\<^verbatim>\<open>httpx\<close>, \<^verbatim>\<open>tenacity\<close>) are the record
  \<open>rate_source\<close>: the outcome of the n-th request (its JSON body, or the exception raised by
  the request or by \<^verbatim>\<open>raise_for_status\<close>), and what \<^verbatim>\<open>retry(stop_after_attempt(n),
  reraise=True)\<close> makes of a function.  The locale \<open>retry_policy\<close> states the latter.
\<close>

record rate_source =
  cbr_get :: "nat \<Rightarrow> json result"
  with_retry :: "nat \<Rightarrow> (nat \<Rightarrow> decimal result) \<Rightarrow> decimal result"

locale retry_policy =
  fixes H :: rate_source
  assumes retry_first_success:
      "i < n \<Longrightarrow> attempt i = Inr x \<Longrightarrow> \<forall>j<i. isl (attempt j) \<Longrightarrow> with_retry H n attempt = Inr x"
    and retry_reraise:
      "\<forall>j\<le>n. isl (attempt j) \<Longrightarrow> with_retry H (Suc n) attempt = attempt n"

fun reference_retry :: "nat \<Rightarrow> nat \<Rightarrow> (nat \<Rightarrow> 'a result) \<Rightarrow> 'a result" where
  "reference_retry 0 i attempt = attempt (i - 1)"
| "reference_retry (Suc n) i attempt =
     (case attempt i of Inr x \<Rightarrow> Inr x | Inl e \<Rightarrow> reference_retry n (Suc i) attempt)"

definition reference_source :: "(nat \<Rightarrow> json result) \<Rightarrow> rate_source" where
  "reference_source http = \<lparr>cbr_get = http, with_retry = (\<lambda>n. reference_retry n 0)\<rparr>"

lemma reference_retry_success:
  "i < n \<Longrightarrow> attempt (k + i) = Inr x \<Longrightarrow> \<forall>j<i. isl (attempt (k + j)) \<Longrightarrow>
     reference_retry n k attempt = Inr x"
proof (induction n arbitrary: i k)
  case 0
  then show ?case by simp
next
  case (Suc n)
  show ?case
  proof (cases i)
    case 0
    with Suc.prems show ?thesis by simp
  next
    case (Suc i')
    have "isl (attempt (k + 0))" using Suc.prems(3) Suc by blast
    moreover have "reference_retry n (Suc k) attempt = Inr x"
    proof (rule Suc.IH [of i'])
      show "i' < n" "attempt (Suc k + i') = Inr x" using Suc.prems Suc by simp_all
      show "\<forall>j<i'. isl (attempt (Suc k + j))"
        using Suc.prems(3) Suc by (metis Suc_less_eq add_Suc_shift)
    qed
    ultimately show ?thesis by (cases "attempt k") simp_all
  qed
qed

lemma reference_retry_fail:
  "\<forall>j\<le>n. isl (attempt (k + j)) \<Longrightarrow> reference_retry (Suc n) k attempt = attempt (k + n)"
proof (induction n arbitrary: k)
  case 0
  then show ?case by (cases "attempt k") simp_all
next
  case (Suc n)
  then have "isl (attempt (k + 0))" by blast
  moreover have "reference_retry (Suc n) (Suc k) attempt = attempt (Suc k + n)"
    using Suc.prems by (intro Suc.IH) (metis Suc_le_mono add_Suc_shift)
  ultimately show ?case by (cases "attempt k") simp_all
qed

interpretation ref_retry: retry_policy "reference_source http"
proof
  show "with_retry (reference_source http) n attempt = Inr x"
    if "i < n" "attempt i = Inr x" "\<forall>j<i. isl (attempt j)" for i n attempt x
    using that reference_retry_success [of i n attempt 0 x] by (simp add: reference_source_def)
  show "with_retry (reference_source http) (Suc n) attempt = attempt n"
    if "\<forall>j\<le>n. isl (attempt j)" for n attempt
    using that reference_retry_fail [of n attempt 0]
    by (simp add: reference_source_def del: reference_retry.simps)
qed

text \<open>Requests fail with \<^verbatim>\<open>httpx\<close>'s exceptions, never with the program's own.\<close>

locale rate_client = retry_policy H for H :: rate_source +
  assumes request_errors: "cbr_get H i = Inl e \<Longrightarrow> \<exists>m. e = HttpClientError m"

subsection \<open>Dates\<close>

definition civil_from_days :: "int \<Rightarrow> int \<times> int \<times> int" where
  "civil_from_days z =
     (let z' = z + 719468; era = z' div 146097; doe = z' mod 146097;
          yoe = (doe - doe div 1460 + doe div 36524 - doe div 146096) div 365;
          doy = doe - (365 * yoe + yoe div 4 - yoe div 100);
          mp = (5 * doy + 2) div 153;
          d = doy - (153 * mp + 2) div 5 + 1;
          m = (if mp < 10 then mp + 3 else mp - 9);
          y = yoe + era * 400
      in (if m \<le> 2 then y + 1 else y, m, d))"

definition pad :: "nat \<Rightarrow> int \<Rightarrow> string" where
  "pad k i = (let ds = show_nat (nat i) in replicate (k - length ds) CHR ''0'' @ ds)"

text \<open>\<^verbatim>\<open>datetime.now(UTC).date().isoformat()\<close> and \<^verbatim>\<open>datetime.now(UTC).isoformat()\<close>.\<close>

definition iso_date :: "instant \<Rightarrow> string" where
  "iso_date t = (let (y, m, d) = civil_from_days (t div 86400)
     in pad 4 y @ ''-'' @ pad 2 m @ ''-'' @ pad 2 d)"

definition iso_datetime :: "instant \<Rightarrow> string" where
  "iso_datetime t = (let s = t mod 86400
     in iso_date t @ ''T'' @ pad 2 (s div 3600) @ '':'' @ pad 2 (s mod 3600 div 60) @ '':''
        @ pad 2 (s mod 60) @ ''+00:00'')"

lemma iso_date_same_day: "t div 86400 = t' div 86400 \<Longrightarrow> iso_date t = iso_date t'"
  by (simp add: iso_date_def)

subsection \<open>The rate\<close>

definition json_field :: "string \<Rightarrow> json \<Rightarrow> json result" where
  "json_field k j =
     (case j of
        JObj kvs \<Rightarrow> (case map_of kvs k of None \<Rightarrow> Inl (UnexpectedError ''KeyError'') | Some v \<Rightarrow> Inr v)
      | _ \<Rightarrow> Inl (UnexpectedError ''TypeError''))"

text \<open>\<^verbatim>\<open>Decimal(str(v))\<close> of a JSON value: only numbers and numeric strings are accepted.\<close>

definition decimal_of_json :: "json \<Rightarrow> decimal result" where
  "decimal_of_json v =
     (case (case v of JInt i \<Rightarrow> dec_parse (show_int i) | JFloat s \<Rightarrow> dec_parse s
            | JStr s \<Rightarrow> dec_parse s | _ \<Rightarrow> None) of
        None \<Rightarrow> Inl (UnexpectedError ''InvalidOperation'') | Some d \<Rightarrow> Inr d)"

definition cbr_attempt :: "rate_source \<Rightarrow> nat \<Rightarrow> decimal result" where
  "cbr_attempt H i =
     bind_result (cbr_get H i) (\<lambda>data.
     bind_result (json_field ''Valute'' data) (\<lambda>valute.
     bind_result (json_field ''USD'' valute) (\<lambda>usd.
     bind_result (json_field ''Value'' usd) decimal_of_json)))"

definition fetch_rate_from_cbr :: "rate_source \<Rightarrow> decimal result" where
  "fetch_rate_from_cbr H = with_retry H 3 (cbr_attempt H)"

definition rate_key :: "instant \<Rightarrow> string" where
  "rate_key now = ''usd_rub:'' @ iso_date now"

definition get_usd_rub_rate ::
  "settings \<Rightarrow> 'r redis_ops \<Rightarrow> rate_source \<Rightarrow> instant \<Rightarrow> 'r \<Rightarrow> decimal result \<times> 'r" where
  "get_usd_rub_rate S R H now r =
     (let key = rate_key now
      in case r_get R r now key of
           Some raw \<Rightarrow>
             (case dec_parse raw of
                Some d \<Rightarrow> (Inr d, r)
              | None \<Rightarrow> (Inl (UnexpectedError ''InvalidOperation''), r))
         | None \<Rightarrow>
             (case fetch_rate_from_cbr H of
                Inl e \<Rightarrow> (Inl e, r)
              | Inr rate \<Rightarrow> (Inr rate, r_set R r now key (dec_str rate) (Some (CACHE_TTL_RATE S)))))"

lemma rate_key_not_lock: "rate_key now \<noteq> ''delivery_job_lock''"
  by (simp add: rate_key_def)

context redis_store
begin

lemma rate_cached:
  assumes "get_usd_rub_rate S R H t0 r = (Inr rate, r')" and "r_get R r t0 (rate_key t0) = None"
    and "t0 \<le> t1" and "t1 < t0 + CACHE_TTL_RATE S" and "t1 div 86400 = t0 div 86400"
  shows "get_usd_rub_rate S R H' t1 r' = (Inr rate, r')"
proof -
  have key: "rate_key t1 = rate_key t0"
    using iso_date_same_day [OF assms(5)] by (simp add: rate_key_def)
  have "r' = r_set R r t0 (rate_key t0) (dec_str rate) (Some (CACHE_TTL_RATE S))"
    using assms(1,2) by (auto simp: get_usd_rub_rate_def Let_def split: sum.splits)
  then have "r_get R r' t1 (rate_key t1) = Some (dec_str rate)"
    using assms(3,4) by (simp add: get_set live_def key)
  then show ?thesis by (simp add: get_usd_rub_rate_def dec_parse_str)
qed

lemma rate_keeps_lock:
  assumes "get_usd_rub_rate S R H t0 r = (res, r')" and "t0 \<le> t"
  shows "r_get R r' t ''delivery_job_lock'' = r_get R r t ''delivery_job_lock''"
  using assms rate_key_not_lock [of t0]
  by (auto simp: get_usd_rub_rate_def Let_def get_set split: option.splits sum.splits)

end

context retry_policy
begin

lemma fetch_third_attempt:
  assumes "i < 3" and "cbr_attempt H i = Inr rate" and "\<forall>j<i. isl (cbr_attempt H j)"
  shows "fetch_rate_from_cbr H = Inr rate"
  unfolding fetch_rate_from_cbr_def using assms by (rule retry_first_success)

lemma fetch_all_fail:
  assumes "\<forall>j<3. isl (cbr_attempt H j)"
  shows "fetch_rate_from_cbr H = cbr_attempt H 2"
  using retry_reraise [of 2 "cbr_attempt H"] assms
  by (simp add: fetch_rate_from_cbr_def numeral_3_eq_3 numeral_2_eq_2 less_Suc_eq_le)

end

context rate_client
begin

text \<open>The exceptions a run of the job may meet here: the client's, or a \<^verbatim>\<open>KeyError\<close> and the like.\<close>

lemma cbr_attempt_error:
  "cbr_attempt H i = Inl e \<Longrightarrow> (\<exists>m. e = HttpClientError m) \<or> (\<exists>m. e = UnexpectedError m)"
  using request_errors [of i]
  by (auto simp: cbr_attempt_def bind_result_def json_field_def decimal_of_json_def
      split: sum.splits json.splits option.splits)

lemma fetch_rate_error:
  assumes "fetch_rate_from_cbr H = Inl e"
  shows "(\<exists>m. e = HttpClientError m) \<or> (\<exists>m. e = UnexpectedError m)"
proof (cases "\<forall>j<3. isl (cbr_attempt H j)")
  case True
  with fetch_all_fail assms cbr_attempt_error [of 2] show ?thesis by simp
next
  case False
  then have "\<exists>j. j < 3 \<and> \<not> isl (cbr_attempt H j)" by blast
  then obtain i where i: "i < 3" "\<not> isl (cbr_attempt H i)" and
      least: "\<forall>j<i. \<not> (j < 3 \<and> \<not> isl (cbr_attempt H j))"
    using exists_least_iff [of "\<lambda>j. j < 3 \<and> \<not> isl (cbr_attempt H j)"] by blast
  have "\<forall>j<i. isl (cbr_attempt H j)" using least i(1) by (meson less_trans)
  moreover obtain x where "cbr_attempt H i = Inr x" using i(2) by (cases "cbr_attempt H i") simp_all
  ultimately have "fetch_rate_from_cbr H = Inr x" using fetch_third_attempt i(1) by blast
  with assms show ?thesis by simp
qed

lemma rate_error:
  "get_usd_rub_rate S R H now r = (Inl e, r') \<Longrightarrow> (\<exists>m. e = HttpClientError m) \<or> (\<exists>m. e = UnexpectedError m)"
  by (cases "r_get R r now (rate_key now)"; cases "fetch_rate_from_cbr H")
    (simp_all add: get_usd_rub_rate_def Let_def fetch_rate_error split: option.splits, blast+)

end

subsection \<open>What the rate service guarantees\<close>

text \<open>
  C36: with no cached rate, the request is tried up to three times and the first success
  counts: it is returned and stored under the day's key with the configured time to live.
  If all three fail, the exception of the third is raised and nothing is cached.
\<close>

theorem rate_fetched_with_retries:
  assumes "retry_policy H" and "r_get R r now (rate_key now) = None"
  shows "(\<forall>i rate. i < 3 \<longrightarrow> cbr_attempt H i = Inr rate \<longrightarrow> (\<forall>j<i. isl (cbr_attempt H j)) \<longrightarrow>
      get_usd_rub_rate S R H now r =
        (Inr rate, r_set R r now (rate_key now) (dec_str rate) (Some (CACHE_TTL_RATE S)))) \<and>
    ((\<forall>j<3. isl (cbr_attempt H j)) \<longrightarrow>
      get_usd_rub_rate S R H now r = (Inl (projl (cbr_attempt H 2)), r))"
proof -
  have "get_usd_rub_rate S R H now r =
      (Inr rate, r_set R r now (rate_key now) (dec_str rate) (Some (CACHE_TTL_RATE S)))"
    if "i < 3" "cbr_attempt H i = Inr rate" "\<forall>j<i. isl (cbr_attempt H j)" for i rate
    using retry_policy.fetch_third_attempt [OF assms(1) that] assms(2) by (simp add: get_usd_rub_rate_def)
  moreover have "get_usd_rub_rate S R H now r = (Inl (projl (cbr_attempt H 2)), r)"
    if "\<forall>j<3. isl (cbr_attempt H j)"
  proof -
    have "isl (cbr_attempt H 2)" using that by simp
    then obtain e where "cbr_attempt H 2 = Inl e" by (auto simp: isl_def)
    with retry_policy.fetch_all_fail [OF assms(1) that] assms(2) show ?thesis
      by (simp add: get_usd_rub_rate_def)
  qed
  ultimately show ?thesis by blast
qed

definition flaky_source :: rate_source where
  "flaky_source = reference_source (\<lambda>i. if i < 2 then Inl (HttpClientError ''timeout'')
     else Inr (JObj [(''Valute'', JObj [(''USD'', JObj [(''Value'', JInt 90)])])]))"

lemma flaky_attempts:
  "cbr_attempt flaky_source 0 = Inl (HttpClientError ''timeout'')"
  "cbr_attempt flaky_source (Suc 0) = Inl (HttpClientError ''timeout'')"
  "cbr_attempt flaky_source 2 = Inr (Dec False 90 0)"
proof -
  have "show_int 90 = ''90''"
    by code_simp
  then have "dec_parse (show_int 90) = Some (Dec False 90 0)"
    by (simp add: dec_parse_def parse_sign_def parse_unsigned_def is_digit_def parse_nat_def
        digit_val_def)
  then show "cbr_attempt flaky_source 2 = Inr (Dec False 90 0)"
    by (simp add: cbr_attempt_def flaky_source_def reference_source_def json_field_def decimal_of_json_def)
qed (simp_all add: cbr_attempt_def flaky_source_def reference_source_def)

lemma flaky_policy: "retry_policy flaky_source"
  unfolding flaky_source_def by (rule ref_retry.retry_policy_axioms)

interpretation flaky: rate_client flaky_source
  using flaky_policy
  by (auto simp: rate_client_def rate_client_axioms_def flaky_source_def reference_source_def split: if_splits)

theorem rate_fetched_with_retries_witness:
  "fst (get_usd_rub_rate default_settings reference_redis flaky_source 0 empty_kv) = Inr (Dec False 90 0)"
proof -
  have "\<forall>j<2. isl (cbr_attempt flaky_source j)" using flaky_attempts by (auto simp: less_2_cases_iff)
  moreover have "r_get reference_redis empty_kv 0 (rate_key 0) = None" by (simp add: empty_kv_def)
  from rate_fetched_with_retries [OF flaky_policy this, THEN conjunct1, rule_format, of 2]
  have "(\<And>j. j < 2 \<Longrightarrow> isl (cbr_attempt flaky_source j)) \<Longrightarrow>
      fst (get_usd_rub_rate default_settings reference_redis flaky_source 0 empty_kv) = Inr (Dec False 90 0)"
    using flaky_attempts(3) by simp
  ultimately show ?thesis by blast
qed

text \<open>
  The rate is fetched once per time to live and day: after a fetch, every later call
  within the time to live and on the same UTC day returns the same rate, digit for digit
  (the cache holds its decimal text), whatever the rate source would answer now, and
  leaves Redis as it is.
\<close>

theorem rate_cached_within_ttl:
  assumes "redis_store R" and "get_usd_rub_rate S R H t0 r = (Inr rate, r')"
    and "r_get R r t0 (rate_key t0) = None" and "t0 \<le> t1" and "t1 < t0 + CACHE_TTL_RATE S"
    and "t1 div 86400 = t0 div 86400"
  shows "get_usd_rub_rate S R H' t1 r' = (Inr rate, r')"
  using redis_store.rate_cached [OF assms] .

theorem rate_cached_within_ttl_witness:
  "\<exists>r'. get_usd_rub_rate default_settings reference_redis flaky_source 0 empty_kv =
      (Inr (Dec False 90 0), r') \<and>
    get_usd_rub_rate default_settings reference_redis
      (reference_source (\<lambda>_. Inl (HttpClientError ''down''))) 599 r' = (Inr (Dec False 90 0), r')"
proof -
  have "fetch_rate_from_cbr flaky_source = Inr (Dec False 90 0)"
    using flaky_attempts
    by (intro retry_policy.fetch_third_attempt [OF flaky_policy, of 2]) (auto simp: less_2_cases_iff)
  then obtain r' where r: "get_usd_rub_rate default_settings reference_redis flaky_source 0 empty_kv =
      (Inr (Dec False 90 0), r')"
    by (simp add: get_usd_rub_rate_def empty_kv_def)
  have "get_usd_rub_rate default_settings reference_redis
      (reference_source (\<lambda>_. Inl (HttpClientError ''down''))) 599 r' = (Inr (Dec False 90 0), r')"
    by (rule rate_cached_within_ttl [OF ref_redis.redis_store_axioms r]) (simp_all add: empty_kv_def)
  with r show ?thesis by blast
qed

end
