(* ===== verification/Delivery.thy ===== *)
theory Delivery
  imports Metrics Rates
begin

text \<open>
  \<^verbatim>\<open>app/tasks/delivery.py\<close>: the recalculation job (lock, rate, batches, last-run metadata)
  and the body of the manual trigger of \<^verbatim>\<open>app/tasks/routes.py\<close>.

  The \<^verbatim>\<open>while\<close> loop over batches is a \<open>partial_function\<close>: \<open>None\<close> is a run that never
  ends.  That it ends is proved below for every engine that meets its contract.
\<close>

definition delivery_formula :: "settings \<Rightarrow> decimal \<Rightarrow> decimal \<Rightarrow> decimal \<Rightarrow> decimal" where
  "delivery_formula S weight declared rate =
     (let cost = weight * DELIVERY_WEIGHT_COEFF S;
          cost = cost + declared * DELIVERY_VALUE_COEFF S
      in cost * rate)"

definition acquire_lock :: "settings \<Rightarrow> 'r redis_ops \<Rightarrow> instant \<Rightarrow> 'r \<Rightarrow> 'r \<times> bool" where
  "acquire_lock S R now r = r_set_nx R r now ''delivery_job_lock'' ''1'' (DELIVERY_LOCK_TTL S)"

abbreviation unpriced :: "parcel \<Rightarrow> bool" where
  "unpriced p \<equiv> p_delivery_cost_rub p = None"

definition fetch_unpriced :: "settings \<Rightarrow> engine \<Rightarrow> db \<Rightarrow> parcel list" where
  "fetch_unpriced S E db =
     limit_rows E (DELIVERY_BATCH_SIZE S) (filter unpriced (parcels db))"

abbreviation parcel_cost :: "settings \<Rightarrow> decimal \<Rightarrow> parcel \<Rightarrow> decimal" where
  "parcel_cost S rate p \<equiv> delivery_formula S (p_weight_kg p) (p_declared_value_usd p) rate"

text \<open>The commit of one batch: an update per parcel, all or nothing.\<close>

fun commit_costs :: "settings \<Rightarrow> engine \<Rightarrow> decimal \<Rightarrow> parcel list \<Rightarrow> db \<Rightarrow> db result" where
  "commit_costs S E rate [] db = Inr db"
| "commit_costs S E rate (p # ps) db =
     (case update_cost E (p_id p) (parcel_cost S rate p) db of
        Inl e \<Rightarrow> Inl e
      | Inr db' \<Rightarrow> commit_costs S E rate ps db')"

partial_function (option) recalc_loop ::
  "settings \<Rightarrow> engine \<Rightarrow> decimal \<Rightarrow> nat \<Rightarrow> db \<Rightarrow> (nat result \<times> db) option" where
  "recalc_loop S E rate updated db =
     (let ps = fetch_unpriced S E db
      in if ps = [] then Some (Inr updated, db)
         else case commit_costs S E rate ps db of
                Inl e \<Rightarrow> Some (Inl e, db)
              | Inr db' \<Rightarrow> recalc_loop S E rate (updated + length ps) db')"

text \<open>The instants at which the run asks for the lock, for the rate, and finishes.\<close>

record run_times =
  at_lock :: instant
  at_rate :: instant
  at_done :: instant

definition run_metadata :: "'r redis_ops \<Rightarrow> instant \<Rightarrow> nat \<Rightarrow> 'r \<Rightarrow> 'r" where
  "run_metadata R now updated r =
     r_set R (r_set R r now ''delivery_last_run_updated'' (show_nat updated) None)
       now ''delivery_last_run_at'' (iso_datetime now) None"

definition record_run :: "seconds \<Rightarrow> nat \<Rightarrow> metrics \<Rightarrow> metrics" where
  "record_run duration updated m =
     m\<lparr>DELIVERY_RECALC_DURATION := DELIVERY_RECALC_DURATION m @ [duration],
       DELIVERY_RECALC_PARCELS := DELIVERY_RECALC_PARCELS m + updated\<rparr>"

definition recalc_delivery_costs ::
  "settings \<Rightarrow> engine \<Rightarrow> 'r redis_ops \<Rightarrow> rate_source \<Rightarrow> run_times \<Rightarrow> 'r app \<Rightarrow>
     (nat result \<times> 'r app) option" where
  "recalc_delivery_costs S E R H tm st =
     (case acquire_lock S R (at_lock tm) (app_redis st) of
        (r1, False) \<Rightarrow> Some (Inr 0, st\<lparr>app_redis := r1\<rparr>)
      | (r1, True) \<Rightarrow>
          (case get_usd_rub_rate S R H (at_rate tm) r1 of
             (Inl e, r2) \<Rightarrow> Some (Inl e, st\<lparr>app_redis := r2\<rparr>)
           | (Inr rate, r2) \<Rightarrow>
               (case recalc_loop S E rate 0 (app_db st) of
                  None \<Rightarrow> None
                | Some (Inl e, db') \<Rightarrow> Some (Inl e, st\<lparr>app_redis := r2, app_db := db'\<rparr>)
                | Some (Inr updated, db') \<Rightarrow>
                    Some (Inr updated,
                      st\<lparr>app_db := db',
                         app_redis := run_metadata R (at_done tm) updated r2,
                         app_metrics :=
                           record_run (at_done tm - at_lock tm) updated (app_metrics st)\<rparr>))))"

definition manual_recalc ::
  "settings \<Rightarrow> engine \<Rightarrow> 'r redis_ops \<Rightarrow> rate_source \<Rightarrow> run_times \<Rightarrow> 'r app \<Rightarrow>
     (nat result \<times> 'r app) option" where
  "manual_recalc S E R H tm st =
     recalc_delivery_costs S E R H tm
       (st\<lparr>app_redis := r_delete R (app_redis st) (at_lock tm) ''delivery_job_lock''\<rparr>)"

subsection \<open>One batch\<close>

definition priced :: "settings \<Rightarrow> engine \<Rightarrow> decimal \<Rightarrow> parcel \<Rightarrow> parcel" where
  "priced S E rate p =
     p\<lparr>p_delivery_cost_rub := numeric_column E 12 2 (parcel_cost S rate p)\<rparr>"

definition cost_storable :: "settings \<Rightarrow> engine \<Rightarrow> decimal \<Rightarrow> parcel \<Rightarrow> bool" where
  "cost_storable S E rate p \<longleftrightarrow>
     (case numeric_column E 12 2 (parcel_cost S rate p) of
        None \<Rightarrow> False | Some c \<Rightarrow> 0 \<le> dec_val c)"

lemma p_id_priced [simp]: "p_id (priced S E rate p) = p_id p"
  by (simp add: priced_def)

lemma priced_not_unpriced: "cost_storable S E rate p \<Longrightarrow> \<not> unpriced (priced S E rate p)"
  by (auto simp: cost_storable_def priced_def split: option.splits)

lemma update_cost_priced:
  assumes "distinct (map p_id (parcels db))" and "p \<in> set (parcels db)"
    and "cost_storable S E rate p"
  shows "update_cost E (p_id p) (parcel_cost S rate p) db =
    Inr (db\<lparr>parcels := update_where (\<lambda>q. p_id q = p_id p) (priced S E rate) (parcels db)\<rparr>)"
proof -
  obtain c where c: "numeric_column E 12 2 (parcel_cost S rate p) = Some c" "0 \<le> dec_val c"
    using assms(3) by (auto simp: cost_storable_def split: option.splits)
  have "(if p_id q = p_id p then q\<lparr>p_delivery_cost_rub := Some c\<rparr> else q) =
      (if p_id q = p_id p then priced S E rate q else q)" if "q \<in> set (parcels db)" for q
  proof (cases "q = p")
    case True
    with c show ?thesis by (simp add: priced_def)
  next
    case False
    with assms(1,2) that have "p_id q \<noteq> p_id p" by (auto simp: distinct_map dest: inj_onD)
    with False show ?thesis by simp
  qed
  then have "update_where (\<lambda>q. p_id q = p_id p) (p_delivery_cost_rub_update (\<lambda>_. Some c)) (parcels db) =
      update_where (\<lambda>q. p_id q = p_id p) (priced S E rate) (parcels db)"
    by (simp add: update_where_def)
  with c show ?thesis by (simp add: update_cost_def not_less)
qed

lemma update_cost_refused:
  assumes "\<not> cost_storable S E rate p"
  shows "\<exists>e. update_cost E (p_id p) (parcel_cost S rate p) db = Inl e"
  using assms by (auto simp: update_cost_def cost_storable_def split: option.splits)

lemma commit_costs_ok:
  assumes "distinct (map p_id (parcels db))" and "distinct (map p_id ps)"
    and "set ps \<subseteq> set (parcels db)" and "\<forall>p \<in> set ps. cost_storable S E rate p"
  shows "commit_costs S E rate ps db =
    Inr (db\<lparr>parcels :=
      update_where (\<lambda>q. p_id q \<in> p_id ` set ps) (priced S E rate) (parcels db)\<rparr>)"
  using assms
proof (induction ps arbitrary: db)
  case Nil
  then show ?case by (simp add: update_where_none)
next
  case (Cons p ps)
  let ?rows = "update_where (\<lambda>q. p_id q = p_id p) (priced S E rate) (parcels db)"
  have step: "update_cost E (p_id p) (parcel_cost S rate p) db = Inr (db\<lparr>parcels := ?rows\<rparr>)"
    using Cons.prems by (intro update_cost_priced) auto
  have notin: "p_id p \<notin> p_id ` set ps" using Cons.prems(2) by simp
  have "commit_costs S E rate ps (db\<lparr>parcels := ?rows\<rparr>) =
      Inr (db\<lparr>parcels := ?rows\<rparr>\<lparr>parcels :=
        update_where (\<lambda>q. p_id q \<in> p_id ` set ps) (priced S E rate) ?rows\<rparr>)"
  proof -
    have "q \<in> set ?rows" if "q \<in> set ps" for q
    proof -
      from that notin have "p_id q \<noteq> p_id p" by (metis imageI)
      moreover have "q \<in> set (parcels db)" using that Cons.prems(3) by auto
      ultimately show ?thesis unfolding in_update_where by (intro bexI [of _ q]) simp_all
    qed
    then show ?thesis
      using Cons.prems Cons.IH [of "db\<lparr>parcels := ?rows\<rparr>"] by (simp add: map_update_where subset_iff)
  qed
  moreover have "update_where (\<lambda>q. p_id q \<in> p_id ` set ps) (priced S E rate) ?rows =
      update_where (\<lambda>q. p_id q \<in> p_id ` set (p # ps)) (priced S E rate) (parcels db)"
    using notin by (simp add: update_where_def)
  ultimately show ?case by (simp add: step)
qed

lemma commit_costs_refused:
  "p \<in> set ps \<Longrightarrow> \<not> cost_storable S E rate p \<Longrightarrow> \<exists>e. commit_costs S E rate ps db = Inl e"
proof (induction ps arbitrary: db)
  case Nil
  then show ?case by simp
next
  case (Cons q ps)
  show ?case
  proof (cases "cost_storable S E rate q")
    case True
    with Cons show ?thesis by (auto split: sum.splits)
  next
    case False
    then obtain e where "update_cost E (p_id q) (parcel_cost S rate q) db = Inl e"
      using update_cost_refused by blast
    then show ?thesis by simp
  qed
qed

lemma filter_unpriced_update:
  assumes "\<And>q. q \<in> A \<Longrightarrow> \<not> unpriced (f q)"
  shows "filter unpriced (update_where (\<lambda>q. q \<in> A) f rows) =
    filter (\<lambda>q. q \<notin> A) (filter unpriced rows)"
  using assms by (induction rows) (simp_all add: update_where_def)

subsection \<open>All batches\<close>

context sql_engine
begin

lemma fetch_unpriced_batch:
  assumes "distinct (map p_id (parcels db))"
  shows "set (fetch_unpriced S E db) \<subseteq> {p \<in> set (parcels db). unpriced p}"
    and "distinct (map p_id (fetch_unpriced S E db))"
    and "length (fetch_unpriced S E db) =
      min (DELIVERY_BATCH_SIZE S) (length (filter unpriced (parcels db)))"
proof -
  show "set (fetch_unpriced S E db) \<subseteq> {p \<in> set (parcels db). unpriced p}"
    using limit_rows_subset [of "DELIVERY_BATCH_SIZE S" "filter unpriced (parcels db)"]
    by (simp add: fetch_unpriced_def)
  have "distinct (map p_id (filter unpriced (parcels db)))"
    using assms by (simp add: distinct_map_filter)
  then show "distinct (map p_id (fetch_unpriced S E db))"
    by (simp add: fetch_unpriced_def limit_rows_distinct)
qed (simp add: fetch_unpriced_def limit_rows_length)

lemma fetch_unpriced_empty_iff:
  assumes "0 < DELIVERY_BATCH_SIZE S"
  shows "fetch_unpriced S E db = [] \<longleftrightarrow> filter unpriced (parcels db) = []"
proof -
  have "length (fetch_unpriced S E db) =
      min (DELIVERY_BATCH_SIZE S) (length (filter unpriced (parcels db)))"
    by (simp add: fetch_unpriced_def limit_rows_length)
  then have "length (fetch_unpriced S E db) = 0 \<longleftrightarrow> length (filter unpriced (parcels db)) = 0"
    using assms by linarith
  then show ?thesis by (simp only: length_0_conv)
qed

lemma batch_progress:
  assumes dist: "distinct (map p_id (parcels db))"
    and ps: "ps = fetch_unpriced S E db"
    and ok: "\<forall>p \<in> set ps. cost_storable S E rate p"
  defines "rows \<equiv> update_where (\<lambda>q. p_id q \<in> p_id ` set ps) (priced S E rate) (parcels db)"
  shows "length (filter unpriced (parcels db)) = length ps + length (filter unpriced rows)"
    and "update_where unpriced (priced S E rate) rows =
      update_where unpriced (priced S E rate) (parcels db)"
    and "{q \<in> set rows. unpriced q} \<subseteq> {q \<in> set (parcels db). unpriced q}"
proof -
  have sub: "set ps \<subseteq> {p \<in> set (parcels db). unpriced p}" and dps: "distinct (map p_id ps)"
    using fetch_unpriced_batch [OF dist] ps by auto
  have in_ps: "p_id q \<in> p_id ` set ps \<longleftrightarrow> q \<in> set ps" if "q \<in> set (parcels db)" for q
    using dist sub that by (auto simp: distinct_map dest: inj_onD)
  have rows: "rows = update_where (\<lambda>q. q \<in> set ps) (priced S E rate) (parcels db)"
    unfolding rows_def using in_ps by (intro update_where_cong) auto
  have now_priced: "\<not> unpriced (priced S E rate q)" if "q \<in> set ps" for q
    using ok that by (simp add: priced_not_unpriced)
  have "filter unpriced rows = filter (\<lambda>q. q \<notin> set ps) (filter unpriced (parcels db))"
    unfolding rows using now_priced by (rule filter_unpriced_update)
  moreover have "length (filter (\<lambda>q. q \<in> set ps) (filter unpriced (parcels db))) = length ps"
  proof -
    have "distinct (filter (\<lambda>q. q \<in> set ps) (filter unpriced (parcels db)))"
      using dist by (simp add: distinct_map)
    moreover have "set (filter (\<lambda>q. q \<in> set ps) (filter unpriced (parcels db))) = set ps"
      using sub by auto
    moreover have "distinct ps" using dps by (simp add: distinct_map)
    ultimately show ?thesis by (metis distinct_card)
  qed
  ultimately show "length (filter unpriced (parcels db)) = length ps + length (filter unpriced rows)"
    using sum_length_filter_compl [of "\<lambda>q. q \<in> set ps" "filter unpriced (parcels db)"] by simp
  show "update_where unpriced (priced S E rate) rows =
      update_where unpriced (priced S E rate) (parcels db)"
  proof -
    have "(if unpriced r then priced S E rate r else r) = (if unpriced q then priced S E rate q else q)"
      if "q \<in> set (parcels db)" and r: "r = (if q \<in> set ps then priced S E rate q else q)" for q r
    proof (cases "q \<in> set ps")
      case True
      with sub have "unpriced q" by auto
      moreover from True r have "\<not> unpriced r" using now_priced by simp
      ultimately show ?thesis using True r by auto
    next
      case False
      with r show ?thesis by simp
    qed
    then show ?thesis unfolding rows update_where_def by simp
  qed
  show "{q \<in> set rows. unpriced q} \<subseteq> {q \<in> set (parcels db). unpriced q}"
  proof -
    have "x \<in> set (parcels db)" if x: "x \<in> set rows" "unpriced x" for x
    proof -
      from x(1) obtain q where q: "q \<in> set (parcels db)"
          "x = (if q \<in> set ps then priced S E rate q else q)"
        by (auto simp: rows in_update_where)
      with x(2) now_priced have "q \<notin> set ps" by metis
      with q show ?thesis by simp
    qed
    then show ?thesis by auto
  qed
qed

lemma recalc_loop_complete:
  assumes "0 < DELIVERY_BATCH_SIZE S" and "distinct (map p_id (parcels db))"
    and "\<forall>p \<in> set (parcels db). unpriced p \<longrightarrow> cost_storable S E rate p"
  shows "recalc_loop S E rate n db =
    Some (Inr (n + length (filter unpriced (parcels db))),
      db\<lparr>parcels := update_where unpriced (priced S E rate) (parcels db)\<rparr>)"
  using assms
proof (induction "length (filter unpriced (parcels db))" arbitrary: n db rule: less_induct)
  case less
  let ?ps = "fetch_unpriced S E db"
  let ?rows = "update_where (\<lambda>q. p_id q \<in> p_id ` set ?ps) (priced S E rate) (parcels db)"
  let ?db = "db\<lparr>parcels := ?rows\<rparr>"
  note batch = fetch_unpriced_batch [OF less.prems(2), of S]
  show ?case
  proof (cases "?ps = []")
    case True
    then have "filter unpriced (parcels db) = []"
      using less.prems(1) by (simp only: fetch_unpriced_empty_iff)
    then have "update_where unpriced (priced S E rate) (parcels db) = parcels db"
      by (intro update_where_none) (simp add: filter_empty_conv)
    with True \<open>filter unpriced (parcels db) = []\<close> show ?thesis
      by (subst recalc_loop.simps) simp
  next
    case False
    have ok: "\<forall>p \<in> set ?ps. cost_storable S E rate p" using batch(1) less.prems(3) by auto
    note prog = batch_progress [OF less.prems(2) refl ok]
    have commit: "commit_costs S E rate ?ps db = Inr ?db"
      using less.prems(2) batch ok by (intro commit_costs_ok) auto
    have "recalc_loop S E rate (n + length ?ps) ?db =
        Some (Inr (n + length ?ps + length (filter unpriced ?rows)),
          ?db\<lparr>parcels := update_where unpriced (priced S E rate) ?rows\<rparr>)"
      using less.hyps [of ?db] less.prems prog False by (auto simp: map_update_where)
    with commit False prog show ?thesis by (subst recalc_loop.simps) (simp add: Let_def)
  qed
qed

text \<open>
  A parcel whose cost the column refuses aborts every run: the batch that contains it is
  rolled back, and it stays unpriced.
\<close>

lemma recalc_loop_poisoned:
  assumes "0 < DELIVERY_BATCH_SIZE S" and "distinct (map p_id (parcels db))"
    and "p \<in> set (parcels db)" and "unpriced p" and "\<not> cost_storable S E rate p"
  shows "\<exists>e db'. recalc_loop S E rate n db = Some (Inl e, db') \<and> p \<in> set (parcels db') \<and>
    map p_id (parcels db') = map p_id (parcels db)"
  using assms
proof (induction "length (filter unpriced (parcels db))" arbitrary: n db rule: less_induct)
  case less
  let ?ps = "fetch_unpriced S E db"
  note batch = fetch_unpriced_batch [OF less.prems(2), of S]
  have "filter unpriced (parcels db) \<noteq> []" using less.prems by (auto simp: filter_empty_conv)
  then have ne: "?ps \<noteq> []" using less.prems(1) by (simp add: fetch_unpriced_empty_iff)
  show ?case
  proof (cases "\<forall>q \<in> set ?ps. cost_storable S E rate q")
    case False
    then obtain e where "commit_costs S E rate ?ps db = Inl e"
      using commit_costs_refused by blast
    with ne less.prems show ?thesis by (subst recalc_loop.simps) (simp add: Let_def)
  next
    case ok: True
    let ?rows = "update_where (\<lambda>q. p_id q \<in> p_id ` set ?ps) (priced S E rate) (parcels db)"
    let ?db = "db\<lparr>parcels := ?rows\<rparr>"
    note prog = batch_progress [OF less.prems(2) refl ok]
    have commit: "commit_costs S E rate ?ps db = Inr ?db"
      using less.prems(2) batch ok by (intro commit_costs_ok) auto
    have "p \<notin> set ?ps" using ok less.prems(5) by auto
    then have "p_id p \<notin> p_id ` set ?ps"
      using batch(1) less.prems(2,3) by (auto simp: distinct_map dest: inj_onD)
    then have "p \<in> set ?rows" using less.prems(3) by (force simp: in_update_where)
    then have "\<exists>e db'. recalc_loop S E rate (n + length ?ps) ?db = Some (Inl e, db') \<and>
        p \<in> set (parcels db') \<and> map p_id (parcels db') = map p_id (parcels ?db)"
      using less.prems prog ne by (intro less.hyps) (auto simp: map_update_where)
    with commit ne show ?thesis by (subst recalc_loop.simps) (simp add: Let_def map_update_where)
  qed
qed

end

subsection \<open>A whole run\<close>

text \<open>The client of both services: what a run may rely on.\<close>

locale delivery_env = sql_engine E + redis_store R for E :: engine and R :: "'r redis_ops"
begin

lemma acquire_lock_free:
  assumes "r_get R r now ''delivery_job_lock'' = None"
  shows "acquire_lock S R now r =
    (r_set R r now ''delivery_job_lock'' ''1'' (Some (DELIVERY_LOCK_TTL S)), True)"
  using assms by (simp add: acquire_lock_def set_nx_free)

lemma acquire_lock_held:
  assumes "r_get R r now ''delivery_job_lock'' \<noteq> None"
  shows "acquire_lock S R now r = (r, False)"
  using assms by (auto simp: acquire_lock_def set_nx_held)

lemma recalc_skips:
  assumes "r_get R (app_redis st) (at_lock tm) ''delivery_job_lock'' \<noteq> None"
  shows "recalc_delivery_costs S E R H tm st = Some (Inr 0, st)"
  using assms by (simp add: recalc_delivery_costs_def acquire_lock_held)

lemma metadata_keeps_lock:
  "now \<le> t \<Longrightarrow> r_get R (run_metadata R now n r) t ''delivery_job_lock'' =
     r_get R r t ''delivery_job_lock''"
  by (simp add: run_metadata_def get_set)

text \<open>No path of a run gives the lock back: it is held until its time to live runs out.\<close>

lemma lock_outlives_run:
  assumes "r_get R (app_redis st) (at_lock tm) ''delivery_job_lock'' = None"
    and "recalc_delivery_costs S E R H tm st = Some (res, st')"
    and "at_lock tm \<le> at_rate tm" and "at_rate tm \<le> at_done tm" and "at_done tm \<le> t"
  shows "r_get R (app_redis st') t ''delivery_job_lock'' =
    (if t < at_lock tm + DELIVERY_LOCK_TTL S then Some ''1'' else None)"
proof -
  define r1 where "r1 = r_set R (app_redis st) (at_lock tm) ''delivery_job_lock'' ''1''
    (Some (DELIVERY_LOCK_TTL S))"
  have r1: "r_get R r1 t ''delivery_job_lock'' =
      (if t < at_lock tm + DELIVERY_LOCK_TTL S then Some ''1'' else None)"
    using assms(3-5) by (simp add: r1_def get_set live_def)
  obtain rres r2 where rate: "get_usd_rub_rate S R H (at_rate tm) r1 = (rres, r2)" by fastforce
  have r2: "r_get R r2 t ''delivery_job_lock'' = r_get R r1 t ''delivery_job_lock''"
    using rate_keeps_lock [OF rate, of t] assms(3-5) by simp
  have "app_redis st' = r2 \<or> (\<exists>n. app_redis st' = run_metadata R (at_done tm) n r2)"
    using assms(1,2) rate
    by (auto simp: recalc_delivery_costs_def acquire_lock_free r1_def
        split: sum.splits option.splits prod.splits)
  with r1 r2 assms(5) show ?thesis by (auto simp: metadata_keeps_lock)
qed

lemma recalc_runs:
  assumes "r_get R (app_redis st) (at_lock tm) ''delivery_job_lock'' = None"
    and "get_usd_rub_rate S R H (at_rate tm) (fst (acquire_lock S R (at_lock tm) (app_redis st)))
      = (Inr rate, r2)"
    and "recalc_loop S E rate 0 (app_db st) = Some (Inr n, db')"
  shows "recalc_delivery_costs S E R H tm st =
    Some (Inr n, st\<lparr>app_db := db', app_redis := run_metadata R (at_done tm) n r2,
      app_metrics := record_run (at_done tm - at_lock tm) n (app_metrics st)\<rparr>)"
  using assms by (simp add: recalc_delivery_costs_def acquire_lock_free)

lemma recalc_rate_error:
  assumes "r_get R (app_redis st) (at_lock tm) ''delivery_job_lock'' = None"
    and "get_usd_rub_rate S R H (at_rate tm) (fst (acquire_lock S R (at_lock tm) (app_redis st)))
      = (Inl e, r2)"
  shows "recalc_delivery_costs S E R H tm st = Some (Inl e, st\<lparr>app_redis := r2\<rparr>)"
  using assms by (simp add: recalc_delivery_costs_def acquire_lock_free)

lemma recalc_loop_error:
  assumes "r_get R (app_redis st) (at_lock tm) ''delivery_job_lock'' = None"
    and "get_usd_rub_rate S R H (at_rate tm) (fst (acquire_lock S R (at_lock tm) (app_redis st)))
      = (Inr rate, r2)"
    and "recalc_loop S E rate 0 (app_db st) = Some (Inl e, db')"
  shows "recalc_delivery_costs S E R H tm st =
    Some (Inl e, st\<lparr>app_redis := r2, app_db := db'\<rparr>)"
  using assms by (simp add: recalc_delivery_costs_def acquire_lock_free)

lemma lock_free_after_delete:
  "r_get R (r_delete R r now ''delivery_job_lock'') now ''delivery_job_lock'' = None"
  by (simp add: get_delete)

end

interpretation ref_delivery: delivery_env reference_engine reference_redis
  by unfold_locales

subsection \<open>The price\<close>

text \<open>
  A row read from the tables: \<^verbatim>\<open>weight_kg\<close> is a \<^verbatim>\<open>Numeric(10, 3)\<close> and
  \<^verbatim>\<open>declared_value_usd\<close> a \<^verbatim>\<open>Numeric(12, 2)\<close>.
\<close>

definition column_decimal :: "nat \<Rightarrow> nat \<Rightarrow> decimal \<Rightarrow> bool" where
  "column_decimal p s d \<longleftrightarrow> dec_exp d = - int s \<and> dec_coeff d < 10 ^ p"

lemma column_decimal_abs:
  assumes "column_decimal p s d" and "s \<le> p"
  shows "\<bar>dec_val d\<bar> < 10 ^ (p - s)"
proof -
  have "\<bar>dec_val d\<bar> = of_nat (dec_coeff d) / 10 ^ s"
    using assms(1) by (simp add: abs_dec_val column_decimal_def power_int_minus field_simps)
  also have "\<dots> < of_nat (10 ^ p) / 10 ^ s"
    using assms(1) by (intro divide_strict_right_mono) (auto simp: column_decimal_def simp flip: of_nat_power)
  also have "\<dots> = 10 ^ (p - s)"
    using assms(2) by (simp add: power_diff)
  finally show ?thesis .
qed

lemma dec_coeff_fix: "c < 10 ^ context_prec \<Longrightarrow> dec_coeff (dec_fix s c e) = c"
  by (simp add: dec_fix_exact)

lemma delivery_formula_value:
  assumes w: "column_decimal 10 3 w" and v: "column_decimal 12 2 v"
    and r: "dec_coeff rate < 10 ^ 15"
    and S: "DELIVERY_WEIGHT_COEFF S = Dec False 5 (-1)" "DELIVERY_VALUE_COEFF S = Dec False 1 (-2)"
  shows "dec_val (delivery_formula S w v rate) = (dec_val w / 2 + dec_val v / 100) * dec_val rate"
proof -
  let ?a = "w * DELIVERY_WEIGHT_COEFF S" and ?b = "v * DELIVERY_VALUE_COEFF S"
  have cw: "dec_coeff w < 10 ^ 10" and cv: "dec_coeff v < 10 ^ 12"
    using w v by (simp_all add: column_decimal_def)
  have a: "?a = Dec (dec_neg w) (dec_coeff w * 5) (-4)"
    using w cw S by (simp add: times_decimal_def column_decimal_def dec_fix_exact context_prec_def)
  have b: "?b = Dec (dec_neg v) (dec_coeff v) (-4)"
    using v cv S by (simp add: times_decimal_def column_decimal_def dec_fix_exact context_prec_def)
  have va: "dec_val ?a = dec_val w / 2"
    using w by (simp add: a dec_val_eq column_decimal_def power_int_minus field_simps)
  have vb: "dec_val ?b = dec_val v / 100"
    using v by (simp add: b dec_val_eq column_decimal_def power_int_minus field_simps)
  have "\<bar>plus_int ?a ?b\<bar> \<le> int (dec_coeff w * 5) + int (dec_coeff v)"
    by (auto simp: a b plus_int_def dec_int_def abs_if)
  then have sum: "nat \<bar>plus_int ?a ?b\<bar> < 1050000000000" using cw cv by simp
  then have ab: "dec_coeff (?a + ?b) = nat \<bar>plus_int ?a ?b\<bar>"
    by (simp add: plus_decimal_alt dec_fix_exact context_prec_def)
  have "dec_val (?a + ?b) = dec_val w / 2 + dec_val v / 100"
    using sum by (simp add: dec_val_plus va vb context_prec_def)
  moreover have "dec_coeff (?a + ?b) * dec_coeff rate < 10 ^ context_prec"
  proof -
    have "dec_coeff (?a + ?b) * dec_coeff rate \<le> 1050000000000 * 10 ^ 15"
      using sum r by (intro mult_le_mono) (simp_all add: ab)
    also have "\<dots> < 10 ^ context_prec" by (simp add: context_prec_def)
    finally show ?thesis .
  qed
  ultimately show ?thesis
    by (simp add: delivery_formula_def Let_def dec_val_times)
qed

text \<open>
  The delivery price is computed without any rounding: for a weight and a declared value
  as the columns hold them and a rate of at most 15 significant digits, the default
  coefficients make \<^verbatim>\<open>_formula\<close> return exactly \<open>(weight / 2 + value / 100) * rate\<close>, although
  every operation rounds to the 28 digits of the decimal context.
\<close>

theorem delivery_formula_exact:
  assumes "column_decimal 10 3 w" and "column_decimal 12 2 v" and "dec_coeff rate < 10 ^ 15"
  shows "dec_val (delivery_formula default_settings w v rate) =
    (dec_val w / 2 + dec_val v / 100) * dec_val rate"
  using assms by (rule delivery_formula_value) simp_all

theorem delivery_formula_exact_witness:
  "dec_val (delivery_formula default_settings (Dec False 2000 (-3)) (Dec False 10000 (-2)) (Dec False 900 (-1)))
     = (dec_val (Dec False 2000 (-3)) / 2 + dec_val (Dec False 10000 (-2)) / 100) * dec_val (Dec False 900 (-1))"
  using delivery_formula_exact [of "Dec False 2000 (-3)" "Dec False 10000 (-2)" "Dec False 900 (-1)"]
  by (simp add: column_decimal_def)



subsection \<open>Properties of a run\<close>

lemma commit_costs_db_ok: "commit_costs S E rate ps db = Inr db' \<Longrightarrow> db_ok db \<Longrightarrow> db_ok db'"
  by (induction ps arbitrary: db) (auto split: sum.splits dest: update_cost_db_ok)

text \<open>A run writes the cost column of parcels and nothing else.\<close>

definition same_but_costs :: "db \<Rightarrow> db \<Rightarrow> bool" where
  "same_but_costs db db' \<longleftrightarrow>
     parcel_types db' = parcel_types db \<and> users db' = users db \<and>
     refresh_tokens db' = refresh_tokens db \<and>
     map (p_delivery_cost_rub_update (\<lambda>_. None)) (parcels db') =
       map (p_delivery_cost_rub_update (\<lambda>_. None)) (parcels db)"

lemma commit_costs_frame: "commit_costs S E rate ps db = Inr db' \<Longrightarrow> same_but_costs db db'"
proof (induction ps arbitrary: db)
  case Nil
  then show ?case by (simp add: same_but_costs_def)
next
  case (Cons p ps)
  then obtain db1 where "update_cost E (p_id p) (parcel_cost S rate p) db = Inr db1"
      and rest: "commit_costs S E rate ps db1 = Inr db'"
    by (auto split: sum.splits)
  then have "same_but_costs db db1"
    by (auto simp: update_cost_Inr_iff same_but_costs_def update_where_def)
  with Cons.IH [OF rest] show ?case by (simp add: same_but_costs_def)
qed

lemma recalc_loop_keeps:
  assumes "recalc_loop S E rate n db = Some (res, db')"
  shows "same_but_costs db db' \<and> (db_ok db \<longrightarrow> db_ok db')"
proof -
  let ?P = "\<lambda>db y. same_but_costs db (snd y) \<and> (db_ok db \<longrightarrow> db_ok (snd y))"
  have "?P db y" if "recalc_loop S E rate n db = Some y" for y
  proof (rule recalc_loop.raw_induct [where P = "\<lambda>S E rate n db y. ?P db y", OF _ that])
    fix f S E rate n db y
    assume IH: "\<And>S E rate n db y. f S E rate n db = Some y \<Longrightarrow> ?P db y"
      and eq: "(let ps = fetch_unpriced S E db
        in if ps = [] then Some (Inr n, db)
           else case commit_costs S E rate ps db of
                  Inl e \<Rightarrow> Some (Inl e, db)
                | Inr db' \<Rightarrow> f S E rate (n + length ps) db') = Some y"
    show "?P db y"
    proof (cases "fetch_unpriced S E db = [] \<or> (\<exists>e. commit_costs S E rate (fetch_unpriced S E db) db = Inl e)")
      case True
      with eq show ?thesis by (auto simp: Let_def same_but_costs_def split: if_splits)
    next
      case False
      then obtain db1 where c: "commit_costs S E rate (fetch_unpriced S E db) db = Inr db1"
        by (cases "commit_costs S E rate (fetch_unpriced S E db) db") auto
      with eq False have "f S E rate (n + length (fetch_unpriced S E db)) db1 = Some y"
        by (simp add: Let_def)
      from IH [OF this] commit_costs_frame [OF c] commit_costs_db_ok [OF c] show ?thesis
        by (auto simp: same_but_costs_def)
    qed
  qed
  with assms show ?thesis by auto
qed

lemma run_frame:
  assumes "recalc_delivery_costs S E R H tm st = Some (res, st')" and "db_ok (app_db st)"
  shows "same_but_costs (app_db st) (app_db st') \<and> db_ok (app_db st')"
proof -
  have "same_but_costs db db" for db by (simp add: same_but_costs_def)
  with assms show ?thesis
    by (auto simp: recalc_delivery_costs_def split: prod.splits bool.splits sum.splits
        option.splits dest: recalc_loop_keeps)
qed

text \<open>
  Whatever the database engine, Redis and the rate service do, a run of the job that
  ends, with a result or with an exception, has changed nothing in the database but
  delivery costs, and every declared constraint still holds.
\<close>

theorem recalc_keeps_constraints:
  assumes "recalc_delivery_costs S E R H tm st = Some (res, st')" and "db_ok (app_db st)"
  shows "same_but_costs (app_db st) (app_db st') \<and> db_ok (app_db st')"
  using assms by (rule run_frame)

context sql_engine
begin

lemma recalc_loop_terminates:
  assumes "distinct (map p_id (parcels db))"
  shows "\<exists>res db'. recalc_loop S E rate n db = Some (res, db')"
proof (cases "DELIVERY_BATCH_SIZE S = 0")
  case True
  then have "length (fetch_unpriced S E db) = 0"
    by (simp add: fetch_unpriced_def limit_rows_length)
  then show ?thesis by (subst recalc_loop.simps) simp
next
  case False
  show ?thesis
  proof (cases "\<forall>p \<in> set (parcels db). unpriced p \<longrightarrow> cost_storable S E rate p")
    case True
    with False assms recalc_loop_complete [of S db rate n] show ?thesis by simp
  next
    case ex: False
    then obtain p where "p \<in> set (parcels db)" "unpriced p" "\<not> cost_storable S E rate p" by auto
    with False assms recalc_loop_poisoned [of S db p rate n] show ?thesis by auto
  qed
qed

end

text \<open>
  C34: the job always ends: on a consistent database, with an engine and a Redis that meet
  their contracts, the \<^verbatim>\<open>while\<close> loop over batches stops for every batch size, rate and
  number of pending parcels (each committed batch leaves strictly fewer pending parcels).
\<close>

theorem recalc_terminates:
  assumes "delivery_env E R" and "db_ok (app_db st)"
  shows "\<exists>res st'. recalc_delivery_costs S E R H tm st = Some (res, st')"
proof -
  have E: "sql_engine E" using assms(1) by (simp add: delivery_env_def)
  have dist: "distinct (map p_id (parcels (app_db st)))" using assms(2) by (simp add: db_ok_defs)
  obtain r1 b where lock: "acquire_lock S R (at_lock tm) (app_redis st) = (r1, b)" by fastforce
  obtain rr r2 where rate: "get_usd_rub_rate S R H (at_rate tm) r1 = (rr, r2)" by fastforce
  show ?thesis
  proof (cases b)
    case False
    with lock show ?thesis by (simp add: recalc_delivery_costs_def)
  next
    case True
    show ?thesis
    proof (cases rr)
      case (Inl e)
      with True lock rate show ?thesis by (simp add: recalc_delivery_costs_def)
    next
      case (Inr rate')
      obtain res db' where "recalc_loop S E rate' 0 (app_db st) = Some (res, db')"
        using sql_engine.recalc_loop_terminates [OF E dist] by blast
      with True Inr lock rate show ?thesis
        by (cases res) (simp_all add: recalc_delivery_costs_def)
    qed
  qed
qed

definition sample_parcel :: parcel where
  "sample_parcel = \<lparr>p_id = ''p1'', p_name = ''box'', p_weight_kg = Dec False 2000 (-3),
     p_declared_value_usd = Dec False 10000 (-2), p_session_id = ''s1'',
     p_delivery_cost_rub = None, p_parcel_type_id = ''t1'', p_user_id = None\<rparr>"

definition sample_db :: db where
  "sample_db = \<lparr>parcel_types = [\<lparr>pt_id = ''t1'', pt_name = ''misc''\<rparr>],
     parcels = [sample_parcel], users = [], refresh_tokens = []\<rparr>"

definition sample_app :: "kv app" where
  "sample_app = \<lparr>app_db = sample_db, app_redis = empty_kv, app_metrics = init_metrics\<rparr>"

definition sample_source :: rate_source where
  "sample_source = reference_source (\<lambda>_. Inr (JObj [(''Valute'', JObj [(''USD'',
     JObj [(''Value'', JFloat ''90.0'')])])]))"

definition sample_times :: "instant \<Rightarrow> run_times" where
  "sample_times t = \<lparr>at_lock = t, at_rate = t + 1, at_done = t + 2\<rparr>"

lemma sample_db_ok: "db_ok sample_db"
  by (simp add: db_ok_defs sample_db_def sample_parcel_def type_row_ok_def parcel_row_ok_def
      parcel_refs_ok_def dec_val_Dec)

abbreviation sample_rate :: decimal where
  "sample_rate \<equiv> Dec False 900 (-1)"

lemma sample_formula:
  "delivery_formula default_settings (Dec False 2000 (-3)) (Dec False 10000 (-2)) sample_rate =
     Dec False 18000000 (-5)"
  by (simp add: delivery_formula_def times_decimal_def plus_decimal_def dec_fix_exact
      context_prec_def dec_int_def)

lemma sample_storable: "cost_storable default_settings reference_engine sample_rate sample_parcel"
  by (simp add: cost_storable_def sample_parcel_def sample_formula reference_numeric_def scaled_def
      dec_val_Dec)

lemma sample_loop:
  "recalc_loop default_settings reference_engine sample_rate 0 sample_db =
     Some (Inr 1, sample_db\<lparr>parcels :=
       [priced default_settings reference_engine sample_rate sample_parcel]\<rparr>)"
  using ref_engine.recalc_loop_complete [of default_settings sample_db sample_rate 0] sample_storable
  by (simp add: sample_db_def sample_parcel_def update_where_def)

lemma sample_rate_fetched:
  assumes "m (rate_key t) = None"
  shows "get_usd_rub_rate default_settings reference_redis sample_source t m =
    (Inr sample_rate, m(rate_key t := Some (dec_str sample_rate, Some (t + 600))))"
proof -
  have "dec_parse ''90.0'' = Some sample_rate"
    by (simp add: dec_parse_def parse_sign_def parse_unsigned_def is_digit_def parse_nat_def
        digit_val_def)
  then have "fetch_rate_from_cbr sample_source = Inr sample_rate"
    by (simp add: fetch_rate_from_cbr_def sample_source_def reference_source_def cbr_attempt_def
        json_field_def decimal_of_json_def numeral_3_eq_3)
  with assms show ?thesis by (simp add: get_usd_rub_rate_def)
qed

definition sample_after :: "kv app" where
  "sample_after = \<lparr>
     app_db = sample_db\<lparr>parcels := [priced default_settings reference_engine sample_rate sample_parcel]\<rparr>,
     app_redis = run_metadata reference_redis 2 1
       (empty_kv(''delivery_job_lock'' := Some (''1'', Some 330),
                 rate_key 1 := Some (dec_str sample_rate, Some 601))),
     app_metrics = record_run 2 1 init_metrics\<rparr>"

lemma sample_run:
  "recalc_delivery_costs default_settings reference_engine reference_redis sample_source
     (sample_times 0) sample_app = Some (Inr 1, sample_after)"
proof -
  let ?m = "empty_kv(''delivery_job_lock'' := Some (''1'', Some 330))"
  have "get_usd_rub_rate default_settings reference_redis sample_source 1 ?m =
      (Inr sample_rate, ?m(rate_key 1 := Some (dec_str sample_rate, Some 601)))"
    using sample_rate_fetched [of ?m 1] rate_key_not_lock [of 1] by (simp add: empty_kv_def)
  then show ?thesis
    by (simp add: recalc_delivery_costs_def acquire_lock_def sample_app_def sample_times_def
        sample_loop sample_after_def empty_kv_def)
qed

theorem recalc_keeps_constraints_witness:
  "same_but_costs (app_db sample_app) (app_db sample_after) \<and> db_ok (app_db sample_after)"
  by (rule recalc_keeps_constraints [OF sample_run]) (simp add: sample_app_def sample_db_ok)

theorem recalc_terminates_witness:
  "\<exists>res st'. recalc_delivery_costs default_settings reference_engine reference_redis
     sample_source (sample_times 0) sample_app = Some (res, st')"
  by (rule recalc_terminates [OF ref_delivery.delivery_env_axioms])
    (simp add: sample_app_def sample_db_ok)

end
