(* ===== verification/Recalc_Runs.thy ===== *)
theory Recalc_Runs
  imports Delivery
begin

text \<open>
  What one run of the recalculation job achieves, and how runs follow one another: complete
  pricing, idempotence, the lock between runs (scheduled ticks and the manual trigger), and
  the two error paths (no rate, a cost the column refuses).  The contracts of the database
  engine and of Redis are the locale \<open>delivery_env\<close>.
\<close>

text \<open>The rate the run at \<open>tm\<close> obtains, once it holds the lock.\<close>

definition rate_of_run ::
  "settings \<Rightarrow> 'r redis_ops \<Rightarrow> rate_source \<Rightarrow> run_times \<Rightarrow> 'r \<Rightarrow> decimal result" where
  "rate_of_run S R H tm r =
     fst (get_usd_rub_rate S R H (at_rate tm) (fst (acquire_lock S R (at_lock tm) r)))"

definition lock_free :: "'r redis_ops \<Rightarrow> 'r \<Rightarrow> instant \<Rightarrow> bool" where
  "lock_free R r t \<longleftrightarrow> r_get R r t ''delivery_job_lock'' = None"

definition ordered_times :: "run_times \<Rightarrow> bool" where
  "ordered_times tm \<longleftrightarrow> at_lock tm \<le> at_rate tm \<and> at_rate tm \<le> at_done tm"

context delivery_env
begin

lemma rate_of_runE:
  assumes "rate_of_run S R H tm r = x"
  obtains r2 where "get_usd_rub_rate S R H (at_rate tm) (fst (acquire_lock S R (at_lock tm) r)) = (x, r2)"
  using assms by (metis rate_of_run_def prod.collapse)

lemma run_prices_all:
  assumes "0 < DELIVERY_BATCH_SIZE S" and "db_ok (app_db st)"
    and "lock_free R (app_redis st) (at_lock tm)"
    and "rate_of_run S R H tm (app_redis st) = Inr rate"
    and storable: "\<forall>p \<in> set (parcels (app_db st)). unpriced p \<longrightarrow> cost_storable S E rate p"
  shows "\<exists>st'. recalc_delivery_costs S E R H tm st =
      Some (Inr (length (filter unpriced (parcels (app_db st)))), st') \<and>
    app_db st' = app_db st\<lparr>parcels := update_where unpriced (priced S E rate) (parcels (app_db st))\<rparr> \<and>
    (\<forall>p \<in> set (parcels (app_db st')). \<not> unpriced p) \<and>
    DELIVERY_RECALC_PARCELS (app_metrics st') =
      DELIVERY_RECALC_PARCELS (app_metrics st) + length (filter unpriced (parcels (app_db st)))"
proof -
  obtain r2 where "get_usd_rub_rate S R H (at_rate tm)
      (fst (acquire_lock S R (at_lock tm) (app_redis st))) = (Inr rate, r2)"
    using assms(4) by (rule rate_of_runE)
  moreover have "distinct (map p_id (parcels (app_db st)))"
    using assms(2) by (simp add: db_ok_defs)
  then have "recalc_loop S E rate 0 (app_db st) =
      Some (Inr (0 + length (filter unpriced (parcels (app_db st)))),
        app_db st\<lparr>parcels := update_where unpriced (priced S E rate) (parcels (app_db st))\<rparr>)"
    using assms(1) storable by (intro recalc_loop_complete) auto
  ultimately have "recalc_delivery_costs S E R H tm st =
    Some (Inr (length (filter unpriced (parcels (app_db st)))),
      st\<lparr>app_db := app_db st\<lparr>parcels := update_where unpriced (priced S E rate) (parcels (app_db st))\<rparr>,
        app_redis := run_metadata R (at_done tm) (length (filter unpriced (parcels (app_db st)))) r2,
        app_metrics := record_run (at_done tm - at_lock tm)
          (length (filter unpriced (parcels (app_db st)))) (app_metrics st)\<rparr>)"
    using assms(3) by (simp add: lock_free_def recalc_runs)
  moreover have "\<not> unpriced p"
    if "p \<in> set (update_where unpriced (priced S E rate) (parcels (app_db st)))" for p
    using that storable priced_not_unpriced by (fastforce simp: in_update_where split: if_splits)
  ultimately show ?thesis by (simp add: record_run_def)
qed

lemma run_skips_when_locked:
  "\<not> lock_free R (app_redis st) (at_lock tm) \<Longrightarrow>
     recalc_delivery_costs S E R H tm st = Some (Inr 0, st)"
  by (simp add: lock_free_def recalc_skips)

lemma lock_after_run:
  assumes "lock_free R (app_redis st) (at_lock tm)" and "ordered_times tm"
    and "recalc_delivery_costs S E R H tm st = Some (res, st')" and "at_done tm \<le> t"
  shows "lock_free R (app_redis st') t \<longleftrightarrow> at_lock tm + DELIVERY_LOCK_TTL S \<le> t"
  using lock_outlives_run [of st tm S H res st' t] assms
  by (auto simp: lock_free_def ordered_times_def)

lemma lock_free_deleted: "lock_free R (r_delete R r t ''delivery_job_lock'') t"
  by (simp add: lock_free_def lock_free_after_delete)

end


lemma sample_lock_free: "lock_free reference_redis (app_redis sample_app) t"
  by (simp add: lock_free_def sample_app_def empty_kv_def)

lemma sample_rate_of_run:
  "rate_of_run default_settings reference_redis sample_source (sample_times 0) (app_redis sample_app)
     = Inr sample_rate"
  using sample_rate_fetched [of "empty_kv(''delivery_job_lock'' := Some (''1'', Some 330))" 1]
    rate_key_not_lock [of 1]
  by (simp add: rate_of_run_def acquire_lock_def sample_app_def sample_times_def empty_kv_def)

lemma sample_pending:
  "parcels (app_db sample_app) = [sample_parcel]" "unpriced sample_parcel" "db_ok (app_db sample_app)"
  by (simp_all add: sample_app_def sample_db_ok) (simp_all add: sample_db_def sample_parcel_def)


text \<open>
  The job is idempotent: once a run has priced everything, any later run, whatever rate
  it obtains, either is skipped or updates nothing; in both cases it returns 0 and leaves
  the database as it is.
\<close>

theorem recalc_idempotent:
  assumes "delivery_env E R" and "\<forall>p \<in> set (parcels (app_db st)). \<not> unpriced p"
    and "db_ok (app_db st)" and "rate_of_run S R H tm (app_redis st) = Inr rate"
  shows "\<exists>st'. recalc_delivery_costs S E R H tm st = Some (Inr 0, st') \<and> app_db st' = app_db st"
proof (cases "lock_free R (app_redis st) (at_lock tm)")
  case False
  with assms(1) show ?thesis by (simp add: delivery_env.run_skips_when_locked)
next
  case True
  obtain r2 where rate: "get_usd_rub_rate S R H (at_rate tm)
      (fst (acquire_lock S R (at_lock tm) (app_redis st))) = (Inr rate, r2)"
    using delivery_env.rate_of_runE [OF assms(1) assms(4)] by blast
  have "sql_engine E" using assms(1) by (simp add: delivery_env_def)
  moreover have "filter unpriced (parcels (app_db st)) = []"
    using assms(2) by (simp add: filter_empty_conv)
  ultimately have "length (fetch_unpriced S E (app_db st)) = 0"
    by (simp add: fetch_unpriced_def sql_engine.limit_rows_length)
  then have "recalc_loop S E rate 0 (app_db st) = Some (Inr 0, app_db st)"
    by (subst recalc_loop.simps) simp
  with True rate show ?thesis
    using delivery_env.recalc_runs [OF assms(1)] by (simp add: lock_free_def)
qed

theorem recalc_idempotent_witness:
  "\<exists>st'. recalc_delivery_costs default_settings reference_engine reference_redis sample_source
      (sample_times 0) (sample_app\<lparr>app_db := app_db sample_after\<rparr>) = Some (Inr 0, st') \<and>
    app_db st' = app_db sample_after"
proof -
  have "\<forall>p \<in> set (parcels (app_db sample_after)). \<not> unpriced p"
    using priced_not_unpriced [OF sample_storable] by (simp add: sample_after_def)
  moreover have "db_ok (app_db sample_after)"
    using recalc_loop_keeps [OF sample_loop] by (simp add: sample_after_def sample_db_ok)
  ultimately show ?thesis
    using recalc_idempotent [OF ref_delivery.delivery_env_axioms,
        of "sample_app\<lparr>app_db := app_db sample_after\<rparr>" default_settings sample_source
          "sample_times 0" sample_rate] sample_rate_of_run
    by simp
qed



text \<open>
  A run that gets the lock but no rate raises that error before it touches the database:
  the database and the metrics are as before, and the lock stays taken, so that runs within
  its time to live are skipped.
\<close>

theorem recalc_rate_failure:
  assumes "delivery_env E R" and "lock_free R (app_redis st) (at_lock tm)" and "ordered_times tm"
    and "rate_of_run S R H tm (app_redis st) = Inl e"
    and "at_done tm \<le> t" and "t < at_lock tm + DELIVERY_LOCK_TTL S"
  shows "\<exists>st'. recalc_delivery_costs S E R H tm st = Some (Inl e, st') \<and>
    app_db st' = app_db st \<and> app_metrics st' = app_metrics st \<and>
    \<not> lock_free R (app_redis st') t"
proof -
  obtain r2 where "get_usd_rub_rate S R H (at_rate tm)
      (fst (acquire_lock S R (at_lock tm) (app_redis st))) = (Inl e, r2)"
    using delivery_env.rate_of_runE [OF assms(1) assms(4)] by blast
  then have run: "recalc_delivery_costs S E R H tm st = Some (Inl e, st\<lparr>app_redis := r2\<rparr>)"
    using delivery_env.recalc_rate_error [OF assms(1)] assms(2) by (simp add: lock_free_def)
  have "\<not> lock_free R (app_redis (st\<lparr>app_redis := r2\<rparr>)) t"
    using delivery_env.lock_after_run [OF assms(1,2,3) run assms(5)] assms(6) by simp
  with run show ?thesis by auto
qed

definition failing_source :: rate_source where
  "failing_source = reference_source (\<lambda>_. Inl (HttpClientError ''timeout''))"

theorem recalc_rate_failure_witness:
  "\<exists>st'. recalc_delivery_costs default_settings reference_engine reference_redis failing_source
      (sample_times 0) sample_app = Some (Inl (HttpClientError ''timeout''), st') \<and>
    app_db st' = app_db sample_app \<and> app_metrics st' = app_metrics sample_app \<and>
    \<not> lock_free reference_redis (app_redis st') 300"
proof (rule recalc_rate_failure [OF ref_delivery.delivery_env_axioms sample_lock_free])
  show "rate_of_run default_settings reference_redis failing_source (sample_times 0)
      (app_redis sample_app) = Inl (HttpClientError ''timeout'')"
    using rate_key_not_lock [of 1]
    by (simp add: rate_of_run_def acquire_lock_def sample_app_def sample_times_def empty_kv_def
        get_usd_rub_rate_def fetch_rate_from_cbr_def failing_source_def reference_source_def
        cbr_attempt_def numeral_3_eq_3)
qed (simp_all add: ordered_times_def sample_times_def)

text \<open>
  One parcel whose cost the \<^verbatim>\<open>Numeric(12, 2)\<close> column or its \<^verbatim>\<open>CHECK\<close> refuses blocks the
  job: every run that reaches the database raises, and the parcel is still pending
  afterwards, so the next run meets it again.
\<close>

theorem recalc_blocked_by_unstorable_cost:
  assumes "delivery_env E R" and "0 < DELIVERY_BATCH_SIZE S" and "db_ok (app_db st)"
    and "lock_free R (app_redis st) (at_lock tm)"
    and "rate_of_run S R H tm (app_redis st) = Inr rate"
    and "p \<in> set (parcels (app_db st))" and "unpriced p" and "\<not> cost_storable S E rate p"
  shows "\<exists>e st'. recalc_delivery_costs S E R H tm st = Some (Inl e, st') \<and>
    p \<in> set (parcels (app_db st')) \<and> app_metrics st' = app_metrics st"
proof -
  obtain r2 where rate: "get_usd_rub_rate S R H (at_rate tm)
      (fst (acquire_lock S R (at_lock tm) (app_redis st))) = (Inr rate, r2)"
    using delivery_env.rate_of_runE [OF assms(1) assms(5)] by blast
  have "sql_engine E" using assms(1) by (simp add: delivery_env_def)
  moreover have "distinct (map p_id (parcels (app_db st)))"
    using assms(3) by (simp add: db_ok_defs)
  ultimately obtain e db' where "recalc_loop S E rate 0 (app_db st) = Some (Inl e, db')"
      and p: "p \<in> set (parcels db')"
    using sql_engine.recalc_loop_poisoned assms(2,6-8) by blast
  then have "recalc_delivery_costs S E R H tm st =
      Some (Inl e, st\<lparr>app_redis := r2, app_db := db'\<rparr>)"
    using delivery_env.recalc_loop_error [OF assms(1)] assms(4) rate by (simp add: lock_free_def)
  with p show ?thesis by auto
qed

definition dear_parcel :: parcel where
  "dear_parcel = sample_parcel\<lparr>p_declared_value_usd := Dec False 999999999999 (-2)\<rparr>"

definition dear_app :: "kv app" where
  "dear_app = sample_app\<lparr>app_db := sample_db\<lparr>parcels := [dear_parcel]\<rparr>\<rparr>"

definition rate_100_source :: rate_source where
  "rate_100_source = reference_source (\<lambda>_. Inr (JObj [(''Valute'', JObj [(''USD'',
     JObj [(''Value'', JInt 100)])])]))"

lemma dear_not_storable: "\<not> cost_storable default_settings reference_engine (Dec False 100 0) dear_parcel"
proof -
  have "delivery_formula default_settings (Dec False 2000 (-3)) (Dec False 999999999999 (-2))
      (Dec False 100 0) = Dec False 100000000999900 (-4)"
    by (simp add: delivery_formula_def times_decimal_def plus_decimal_def dec_fix_exact
        context_prec_def dec_int_def)
  then show ?thesis
    by (simp add: cost_storable_def dear_parcel_def sample_parcel_def reference_numeric_def scaled_def
        dec_int_def Let_def)
qed

lemma dear_rate_of_run:
  "rate_of_run default_settings reference_redis rate_100_source (sample_times 0) (app_redis dear_app)
     = Inr (Dec False 100 0)"
proof -
  have "dec_parse (show_int 100) = Some (Dec False 100 0)"
    by code_simp
  then have "fetch_rate_from_cbr rate_100_source = Inr (Dec False 100 0)"
    by (simp add: fetch_rate_from_cbr_def rate_100_source_def reference_source_def cbr_attempt_def
        json_field_def decimal_of_json_def numeral_3_eq_3)
  then show ?thesis
    using rate_key_not_lock [of 1]
    by (simp add: rate_of_run_def acquire_lock_def sample_app_def dear_app_def sample_times_def
        empty_kv_def get_usd_rub_rate_def)
qed

theorem recalc_blocked_by_unstorable_cost_witness:
  "\<exists>e st'. recalc_delivery_costs default_settings reference_engine reference_redis rate_100_source
      (sample_times 0) dear_app = Some (Inl e, st') \<and>
    dear_parcel \<in> set (parcels (app_db st')) \<and> app_metrics st' = app_metrics dear_app"
proof (rule recalc_blocked_by_unstorable_cost [OF ref_delivery.delivery_env_axioms _ _ _ dear_rate_of_run])
  show "db_ok (app_db dear_app)"
    by (simp add: dear_app_def db_ok_defs sample_db_def dear_parcel_def sample_parcel_def
        type_row_ok_def parcel_row_ok_def parcel_refs_ok_def dec_val_Dec)
  show "\<not> cost_storable default_settings reference_engine (Dec False 100 0) dear_parcel"
    by (rule dear_not_storable)
qed (simp_all add: dear_app_def sample_app_def lock_free_def empty_kv_def dear_parcel_def
    sample_parcel_def)

subsection \<open>Scheduled ticks and the manual trigger\<close>

text \<open>
  \<^verbatim>\<open>app/tasks/scheduler.py\<close>: the job's registration, and the instants at which its cron
  trigger \<^verbatim>\<open>minute="*/n"\<close> fires.
\<close>

record scheduled_job =
  job_trigger :: string
  job_minute :: string
  job_id :: string
  job_max_instances :: nat
  job_coalesce :: bool
  job_replace_existing :: bool

definition init_scheduler :: "settings \<Rightarrow> scheduled_job" where
  "init_scheduler S = \<lparr>job_trigger = ''cron'',
     job_minute = ''*/'' @ show_nat (DELIVERY_JOB_INTERVAL_MIN S), job_id = ''recalc_delivery'',
     job_max_instances = 1, job_coalesce = True, job_replace_existing = True\<rparr>"

definition cron_fires :: "settings \<Rightarrow> instant \<Rightarrow> bool" where
  "cron_fires S t \<longleftrightarrow>
     t mod 60 = 0 \<and> (t div 60 mod 60) mod int (DELIVERY_JOB_INTERVAL_MIN S) = 0"

text \<open>
  With the shipped settings the lock (330 s, never released by the job) outlives the
  scheduler interval (5 minutes): after a tick whose run got the lock, the next tick fires
  but its run is skipped, and the lock is free again only for the tick after that.  The
  effective period is ten minutes, not the documented five.
\<close>

theorem default_schedule_skips_next_tick:
  assumes "delivery_env E R" and "cron_fires default_settings (at_lock tm)"
    and "lock_free R (app_redis st) (at_lock tm)" and "ordered_times tm"
    and "recalc_delivery_costs default_settings E R H tm st = Some (res, st')"
    and "at_done tm \<le> at_lock tm + 300" and "at_lock tm' = at_lock tm + 300"
  shows "cron_fires default_settings (at_lock tm') \<and>
    recalc_delivery_costs default_settings E R H' tm' st' = Some (Inr 0, st') \<and>
    lock_free R (app_redis st') (at_lock tm + 600)"
proof -
  note after = delivery_env.lock_after_run [OF assms(1,3,4,5)]
  have "cron_fires default_settings (at_lock tm')"
  proof -
    have "(at_lock tm + 300) div 60 = at_lock tm div 60 + 5" and "(at_lock tm + 300) mod 60 = at_lock tm mod 60"
      using div_mult_self1 [of 60 "at_lock tm" 5] mod_mult_self1 [of "at_lock tm" 5 60] by simp_all
    moreover have "(x mod 60) mod 5 = x mod (5::int)" for x by (simp add: mod_mod_cancel)
    ultimately show ?thesis using assms(2,7) by (simp add: cron_fires_def)
  qed
  moreover have "\<not> lock_free R (app_redis st') (at_lock tm')"
    using after [of "at_lock tm'"] assms(6,7) by simp
  then have "recalc_delivery_costs default_settings E R H' tm' st' = Some (Inr 0, st')"
    by (rule delivery_env.run_skips_when_locked [OF assms(1)])
  moreover have "lock_free R (app_redis st') (at_lock tm + 600)"
    using after [of "at_lock tm + 600"] assms(6) by simp
  ultimately show ?thesis by simp
qed

theorem default_schedule_skips_next_tick_witness:
  "cron_fires default_settings 300 \<and>
    recalc_delivery_costs default_settings reference_engine reference_redis sample_source
      (sample_times 300) sample_after = Some (Inr 0, sample_after) \<and>
    lock_free reference_redis (app_redis sample_after) 600"
  using default_schedule_skips_next_tick [OF ref_delivery.delivery_env_axioms _ sample_lock_free _
      sample_run, of "sample_times 300" sample_source]
  by (simp add: cron_fires_def ordered_times_def sample_times_def)

text \<open>
  The manual trigger overrides the lock: while another run holds it, so that a scheduled
  run would be skipped, the manual one deletes it, runs, and prices every pending parcel.
  (Two runs can therefore be active at the same time.)
\<close>

theorem manual_recalc_overrides_lock:
  assumes "delivery_env E R" and "0 < DELIVERY_BATCH_SIZE S" and "db_ok (app_db st)"
    and "\<not> lock_free R (app_redis st) (at_lock tm)"
    and "rate_of_run S R H tm (r_delete R (app_redis st) (at_lock tm) ''delivery_job_lock'') = Inr rate"
    and "\<forall>p \<in> set (parcels (app_db st)). unpriced p \<longrightarrow> cost_storable S E rate p"
  shows "recalc_delivery_costs S E R H tm st = Some (Inr 0, st) \<and>
    (\<exists>st'. manual_recalc S E R H tm st =
        Some (Inr (length (filter unpriced (parcels (app_db st)))), st') \<and>
      (\<forall>p \<in> set (parcels (app_db st')). \<not> unpriced p))"
proof -
  let ?st = "st\<lparr>app_redis := r_delete R (app_redis st) (at_lock tm) ''delivery_job_lock''\<rparr>"
  have "lock_free R (app_redis ?st) (at_lock tm)"
    using delivery_env.lock_free_deleted [OF assms(1)] by simp
  then obtain st' where "recalc_delivery_costs S E R H tm ?st =
      Some (Inr (length (filter unpriced (parcels (app_db ?st)))), st')"
      "\<forall>p \<in> set (parcels (app_db st')). \<not> unpriced p"
    using assms delivery_env.run_prices_all [OF assms(1,2), of ?st tm H rate] by auto
  moreover have "recalc_delivery_costs S E R H tm st = Some (Inr 0, st)"
    using delivery_env.run_skips_when_locked [OF assms(1,4)] .
  ultimately show ?thesis by (auto simp: manual_recalc_def)
qed

definition locked_app :: "kv app" where
  "locked_app = sample_app\<lparr>app_redis := empty_kv(''delivery_job_lock'' := Some (''1'', Some 330))\<rparr>"

theorem manual_recalc_overrides_lock_witness:
  "recalc_delivery_costs default_settings reference_engine reference_redis sample_source
      (sample_times 0) locked_app = Some (Inr 0, locked_app) \<and>
    (\<exists>st'. manual_recalc default_settings reference_engine reference_redis sample_source
        (sample_times 0) locked_app = Some (Inr 1, st') \<and>
      (\<forall>p \<in> set (parcels (app_db st')). \<not> unpriced p))"
proof -
  have del: "r_delete reference_redis (app_redis locked_app) 0 ''delivery_job_lock'' = app_redis sample_app"
    by (simp add: locked_app_def sample_app_def empty_kv_def fun_eq_iff)
  have "\<not> lock_free reference_redis (app_redis locked_app) 0"
    by (simp add: lock_free_def locked_app_def)
  then show ?thesis
    using manual_recalc_overrides_lock [OF ref_delivery.delivery_env_axioms,
        of default_settings locked_app "sample_times 0" sample_source sample_rate]
      sample_rate_of_run sample_pending sample_storable del
    by (simp add: locked_app_def sample_times_def)
qed

end
