(* ===== verification/Parcel_Access.thy ===== *)
theory Parcel_Access
  imports Parcel_Service Recalc_Runs
begin

text \<open>
  What the parcel service guarantees its callers: which payloads become rows and with which
  values, that errors change nothing, and who sees which parcel through \<open>get_owned\<close> and
  \<open>list_owned\<close>, in both ownership modes, before and after the recalculation job.
\<close>

subsection \<open>Registration\<close>

text \<open>The caller's identity fits the column its mode writes.\<close>

definition storable_owner :: "settings \<Rightarrow> db \<Rightarrow> ident \<Rightarrow> bool" where
  "storable_owner S db owner \<longleftrightarrow>
     (if AUTH_REQUIRED S then length owner \<le> 36 \<and> owner \<in> u_id ` set (users db)
      else length owner \<le> 255)"

definition known_type :: "db \<Rightarrow> ident \<Rightarrow> bool" where
  "known_type db t \<longleftrightarrow> t \<noteq> [] \<and> t \<in> pt_id ` set (parcel_types db)"

definition fresh_parcel_id :: "db \<Rightarrow> ident \<Rightarrow> bool" where
  "fresh_parcel_id db i \<longleftrightarrow> length i \<le> 36 \<and> i \<notin> p_id ` set (parcels db)"

lemma create_from_dto_known:
  assumes "known_type (app_db st) (pc_parcel_type_id data)" and "0 < dec_val (pc_weight_kg data)"
  shows "create_from_dto S E i data owner st =
    (case insert_parcel E (new_parcel S i data owner) (app_db st) of
       Inl e \<Rightarrow> (Inl e, st)
     | Inr (p, db') \<Rightarrow> (Inr p, st\<lparr>app_db := db',
         app_metrics := count_created (pc_parcel_type_id data) (app_metrics st)\<rparr>))"
proof -
  obtain t where t: "crud_get pt_id (parcel_types (app_db st)) (pc_parcel_type_id data) = Some t"
    using assms(1)
    by (cases "crud_get pt_id (parcel_types (app_db st)) (pc_parcel_type_id data)")
      (auto simp: known_type_def crud_get_None_iff)
  with assms crud_get_SomeD [OF t] show ?thesis
    by (auto simp: create_from_dto_def commit_new_def known_type_def less_eq_decimal_def
        split: sum.splits)
qed

lemma create_from_dto_unknown:
  assumes "\<not> known_type (app_db st) (pc_parcel_type_id data)"
  shows "create_from_dto S E i data owner st = (Inl (BusinessError ''Unknown parcel type''), st)"
proof (cases "crud_get pt_id (parcel_types (app_db st)) (pc_parcel_type_id data)")
  case None
  then show ?thesis by (simp add: create_from_dto_def)
next
  case (Some t)
  from crud_get_SomeD [OF Some] have "pc_parcel_type_id data \<in> pt_id ` set (parcel_types (app_db st))"
    by (metis imageI)
  with crud_get_SomeD [OF Some] assms have "pt_id t = []" by (auto simp: known_type_def)
  with Some show ?thesis by (simp add: create_from_dto_def)
qed

lemma db_ok_type_refs:
  "db_ok db \<Longrightarrow> known_type db t \<Longrightarrow> length t \<le> 36 \<and> t \<in> pt_id ` set (parcel_types db)"
  by (auto simp: db_ok_defs known_type_def type_row_ok_def list_all_iff)

context sql_engine
begin

lemma weight_nonzero:
  assumes "0 < dec_val w" and "dec_scale_ok 3 w" and "dec_whole_lt 7 w"
  obtains w' where "numeric_column E 10 3 w = Some w'" and "dec_val w' = dec_val w"
  using numeric_exact [of 3 10 w] assms by auto

lemma value_stored:
  assumes "0 \<le> dec_val v" and "dec_scale_ok 2 v" and "dec_val v < 10 ^ 10"
  obtains v' where "numeric_column E 12 2 v = Some v'" and "dec_val v' = dec_val v"
  using numeric_exact [of 2 12 v] assms by (auto simp: dec_whole_lt_iff)

lemma create_ok:
  assumes "valid_parcel_create data" and "db_ok (app_db st)"
    and known: "known_type (app_db st) (pc_parcel_type_id data)"
    and "fresh_parcel_id (app_db st) i" and "storable_owner S (app_db st) owner"
    and "dec_val (pc_declared_value_usd data) < 10 ^ 10"
  shows "\<exists>p st'. create_from_dto S E i data owner st = (Inr p, st') \<and>
    app_db st' = app_db st\<lparr>parcels := parcels (app_db st) @ [p]\<rparr> \<and>
    p_id p = i \<and> p_name p = pc_name data \<and> p_parcel_type_id p = pc_parcel_type_id data \<and>
    dec_val (p_weight_kg p) = dec_val (pc_weight_kg data) \<and>
    dec_val (p_declared_value_usd p) = dec_val (pc_declared_value_usd data) \<and>
    p_delivery_cost_rub p = None \<and> owner_match S owner p \<and>
    PARCELS_CREATED (app_metrics st') (pc_parcel_type_id data) =
      PARCELS_CREATED (app_metrics st) (pc_parcel_type_id data) + 1"
proof -
  from assms(1) have nm: "length (pc_name data) \<le> 255"
    and w: "0 < dec_val (pc_weight_kg data)" "dec_scale_ok 3 (pc_weight_kg data)"
      "dec_whole_lt 7 (pc_weight_kg data)"
    and v: "0 \<le> dec_val (pc_declared_value_usd data)" "dec_scale_ok 2 (pc_declared_value_usd data)"
    by (auto simp: valid_parcel_create_def dest: positive_weightD non_negative_moneyD)
  obtain w' where w': "numeric_column E 10 3 (pc_weight_kg data) = Some w'"
      "dec_val w' = dec_val (pc_weight_kg data)"
    using w by (rule weight_nonzero)
  obtain v' where v': "numeric_column E 12 2 (pc_declared_value_usd data) = Some v'"
      "dec_val v' = dec_val (pc_declared_value_usd data)"
    using v assms(6) by (rule value_stored)
  define p where "p = (new_parcel S i data owner)\<lparr>p_weight_kg := w', p_declared_value_usd := v'\<rparr>"
  have store: "store_parcel E (new_parcel S i data owner) = Inr p"
    using w' v' by (simp add: store_parcel_def new_parcel_def p_def)
  have ty: "length (pc_parcel_type_id data) \<le> 36" "pc_parcel_type_id data \<in> pt_id ` set (parcel_types (app_db st))"
    using db_ok_type_refs [OF assms(2) known] by auto
  have "parcel_row_ok p" and "parcel_refs_ok (parcel_types (app_db st)) (users (app_db st)) p"
    using nm w(1) w' v(1) v' ty assms(4,5)
    by (auto simp: parcel_row_ok_def parcel_refs_ok_def p_def new_parcel_def storable_owner_def
        fresh_parcel_id_def)
  then have ins: "insert_parcel E (new_parcel S i data owner) (app_db st) =
      Inr (p, app_db st\<lparr>parcels := parcels (app_db st) @ [p]\<rparr>)"
    using store assms(4) by (simp add: insert_parcel_Inr_iff p_def new_parcel_def fresh_parcel_id_def)
  then show ?thesis
    using w' v' by (simp add: create_from_dto_known [OF known w(1)])
      (simp add: p_def new_parcel_def owner_match_def count_created_def)
qed

lemma create_overflow:
  assumes "valid_parcel_create data"
    and known: "known_type (app_db st) (pc_parcel_type_id data)"
    and "10 ^ 10 \<le> dec_val (pc_declared_value_usd data)"
  shows "\<exists>m. create_from_dto S E i data owner st = (Inl (DatabaseError m), st)"
proof -
  from assms(1) have w: "0 < dec_val (pc_weight_kg data)" "dec_scale_ok 3 (pc_weight_kg data)"
      "dec_whole_lt 7 (pc_weight_kg data)"
    by (auto simp: valid_parcel_create_def dest: positive_weightD)
  obtain w' where w': "numeric_column E 10 3 (pc_weight_kg data) = Some w'"
    using w by (rule weight_nonzero)
  have "\<not> dec_whole_lt 10 (pc_declared_value_usd data)"
    using assms(3) by (simp add: dec_whole_lt_iff)
  then have "numeric_column E 12 2 (pc_declared_value_usd data) = None"
    using numeric_out_of_range [of 2 12 "pc_declared_value_usd data"] by simp
  then show ?thesis
    using w' by (simp add: create_from_dto_known [OF known w(1)] insert_parcel_def store_parcel_def
        new_parcel_def)
qed

end

text \<open>
  C27: a payload the schema accepts, naming an existing parcel type and worth less than
  \<open>10 ^ 10\<close> USD, is stored: one new row at the end of the table, whose weight and declared
  value are exactly the payload's (no rounding by the \<^verbatim>\<open>Numeric\<close> columns), not yet priced,
  owned by the caller in the column of the current mode, and counted once under its type.
\<close>

theorem create_stores_payload:
  assumes "sql_engine E" and "valid_parcel_create data" and "db_ok (app_db st)"
    and "known_type (app_db st) (pc_parcel_type_id data)"
    and "fresh_parcel_id (app_db st) i" and "storable_owner S (app_db st) owner"
    and "dec_val (pc_declared_value_usd data) < 10 ^ 10"
  shows "\<exists>p st'. create_from_dto S E i data owner st = (Inr p, st') \<and>
    app_db st' = app_db st\<lparr>parcels := parcels (app_db st) @ [p]\<rparr> \<and>
    p_id p = i \<and> p_name p = pc_name data \<and> p_parcel_type_id p = pc_parcel_type_id data \<and>
    dec_val (p_weight_kg p) = dec_val (pc_weight_kg data) \<and>
    dec_val (p_declared_value_usd p) = dec_val (pc_declared_value_usd data) \<and>
    p_delivery_cost_rub p = None \<and> owner_match S owner p \<and>
    PARCELS_CREATED (app_metrics st') (pc_parcel_type_id data) =
      PARCELS_CREATED (app_metrics st) (pc_parcel_type_id data) + 1"
  using assms by (rule sql_engine.create_ok)

abbreviation session_settings :: settings where
  "session_settings \<equiv> default_settings\<lparr>AUTH_REQUIRED := False\<rparr>"

definition sample_payload :: parcel_create where
  "sample_payload = \<lparr>pc_name = ''lamp'', pc_weight_kg = Dec False 12 (-1),
     pc_declared_value_usd = Dec False 129999 (-2), pc_parcel_type_id = ''t1''\<rparr>"

lemma sample_payload_valid: "valid_parcel_create sample_payload"
  by (simp add: valid_parcel_create_def sample_payload_def positive_weight_def non_negative_money_def
      decimal_digits_ok_def dec_scale_ok_def dec_whole_lt_def less_decimal_def less_eq_decimal_def
      dec_val_Dec)

lemma sample_create_hyps:
  "known_type (app_db sample_app) ''t1''" "fresh_parcel_id (app_db sample_app) ''p2''"
  "storable_owner session_settings (app_db sample_app) ''s2''"
  by (simp_all add: known_type_def fresh_parcel_id_def storable_owner_def sample_app_def sample_db_def
      sample_parcel_def)

theorem create_stores_payload_witness:
  "\<exists>p st'. create_from_dto session_settings reference_engine ''p2'' sample_payload ''s2'' sample_app
      = (Inr p, st') \<and> dec_val (p_weight_kg p) = 12 / 10"
  using create_stores_payload [OF ref_engine.sql_engine_axioms sample_payload_valid sample_pending(3),
      of "''p2''" session_settings "''s2''"] sample_create_hyps
  by (auto simp: sample_payload_def dec_val_Dec)

text \<open>
  The schema accepts declared values the column cannot hold: \<^verbatim>\<open>max_digits=14\<close> allows
  twelve digits before the point, \<^verbatim>\<open>Numeric(12, 2)\<close> ten.  Such a payload is not refused as
  invalid (422) but fails in the database, which the client sees as an internal error (500).
\<close>

theorem accepted_value_overflows_column:
  assumes "sql_engine E" and "valid_parcel_create data"
    and "known_type (app_db st) (pc_parcel_type_id data)"
    and "10 ^ 10 \<le> dec_val (pc_declared_value_usd data)"
  shows "\<exists>m. create_from_dto S E i data owner st = (Inl (DatabaseError m), st) \<and>
    status_code (handle_exception (DatabaseError m)) = 500"
proof -
  obtain m where "create_from_dto S E i data owner st = (Inl (DatabaseError m), st)"
    using sql_engine.create_overflow [OF assms] by blast
  then show ?thesis by (simp add: handler_defs)
qed

lemma sample_big_valid:
  "valid_parcel_create (sample_payload\<lparr>pc_declared_value_usd := Dec False 1 10\<rparr>)"
  by (simp add: valid_parcel_create_def sample_payload_def positive_weight_def non_negative_money_def
      decimal_digits_ok_def dec_scale_ok_def dec_whole_lt_def less_decimal_def less_eq_decimal_def
      dec_val_Dec)

theorem accepted_value_overflows_column_witness:
  "\<exists>m. create_from_dto session_settings reference_engine ''p2''
      (sample_payload\<lparr>pc_declared_value_usd := Dec False 1 10\<rparr>) ''s2'' sample_app =
    (Inl (DatabaseError m), sample_app)"
  using accepted_value_overflows_column [OF ref_engine.sql_engine_axioms sample_big_valid,
      of sample_app session_settings "''p2''" "''s2''"] sample_create_hyps(1)
  by (auto simp: sample_payload_def dec_val_Dec)

lemma create_weight_ok:
  "valid_parcel_create data \<Longrightarrow> 0 < dec_val (pc_weight_kg data)"
  by (auto simp: valid_parcel_create_def dest: positive_weightD)

lemma insert_parcel_Inl: "insert_parcel E p db = Inl e \<Longrightarrow> \<exists>m. e = DatabaseError m"
  by (auto simp: insert_parcel_def bind_result_def store_parcel_def
      split: sum.splits if_splits option.splits)

text \<open>
  Registration is all or nothing.  If it fails, neither the database nor the counters
  have changed, and the error says why: a business error exactly for an unknown parcel
  type, a database error otherwise.  If it succeeds the row refers to an existing type under
  a new identifier.  Either way every declared constraint still holds.
\<close>

theorem create_all_or_nothing:
  assumes "create_from_dto S E i data owner st = (res, st')"
    and "valid_parcel_create data" and "db_ok (app_db st)"
  shows "db_ok (app_db st') \<and> app_redis st' = app_redis st \<and>
    (case res of
       Inl e \<Rightarrow> st' = st \<and>
         (if known_type (app_db st) (pc_parcel_type_id data) then \<exists>m. e = DatabaseError m
          else e = BusinessError ''Unknown parcel type'')
     | Inr p \<Rightarrow> known_type (app_db st) (pc_parcel_type_id data) \<and>
         i \<notin> p_id ` set (parcels (app_db st)) \<and>
         parcels (app_db st') = parcels (app_db st) @ [p] \<and>
         users (app_db st') = users (app_db st) \<and>
         refresh_tokens (app_db st') = refresh_tokens (app_db st))"
proof (cases "known_type (app_db st) (pc_parcel_type_id data)")
  case False
  with assms show ?thesis by (auto simp: create_from_dto_unknown)
next
  case True
  show ?thesis
  proof (cases "insert_parcel E (new_parcel S i data owner) (app_db st)")
    case (Inl e)
    with True assms create_weight_ok insert_parcel_Inl [OF Inl] show ?thesis
      by (auto simp: create_from_dto_known)
  next
    case (Inr pd)
    obtain p db' where pd: "pd = (p, db')" by (cases pd)
    from Inr pd have ins: "insert_parcel E (new_parcel S i data owner) (app_db st) = Inr (p, db')"
      by simp
    then have "p_id p = i"
      by (auto simp: insert_parcel_Inr_iff new_parcel_def dest: store_parcel_InrD)
    with True assms create_weight_ok ins insert_parcel_db_ok [OF ins] show ?thesis
      by (auto simp: create_from_dto_known insert_parcel_Inr_iff)
  qed
qed

theorem create_all_or_nothing_witness:
  "create_from_dto session_settings reference_engine ''p2''
      (sample_payload\<lparr>pc_parcel_type_id := ''t9''\<rparr>) ''s2'' sample_app =
    (Inl (BusinessError ''Unknown parcel type''), sample_app) \<and> db_ok (app_db sample_app)"
proof -
  let ?d = "sample_payload\<lparr>pc_parcel_type_id := ''t9''\<rparr>"
  have v: "valid_parcel_create ?d"
    using sample_payload_valid by (simp add: valid_parcel_create_def)
  have u: "\<not> known_type (app_db sample_app) ''t9''"
    by (simp add: known_type_def sample_app_def sample_db_def)
  obtain res st' where r: "create_from_dto session_settings reference_engine ''p2'' ?d ''s2'' sample_app
      = (res, st')" by fastforce
  moreover from r u have "\<exists>e. res = Inl e" by (auto simp: create_from_dto_unknown)
  ultimately show ?thesis
    using create_all_or_nothing [OF r v sample_pending(3)] u by auto
qed

subsection \<open>Who sees a parcel\<close>

lemma with_type_ok:
  assumes "db_ok db" and "p \<in> set (parcels db)"
  obtains t where "with_type db p = (p, Some t)" and "t \<in> set (parcel_types db)"
    and "pt_id t = p_parcel_type_id p"
proof -
  have "p_parcel_type_id p \<in> pt_id ` set (parcel_types db)"
    using assms by (auto simp: db_ok_defs list_all_iff parcel_refs_ok_def)
  then obtain t where "crud_get pt_id (parcel_types db) (p_parcel_type_id p) = Some t"
    by (metis crud_get_None_iff not_None_eq)
  with crud_get_SomeD [OF this] that show thesis by (auto simp: with_type_def)
qed

lemma get_owned_Inr_iff:
  assumes "db_ok db"
  shows "get_owned S i owner db = Inr pt \<longleftrightarrow>
    (\<exists>p \<in> set (parcels db). p_id p = i \<and> owner_match S owner p \<and> pt = with_type db p)"
proof (cases "crud_get p_id (parcels db) i")
  case None
  then have "i \<notin> p_id ` set (parcels db)" by (rule iffD1 [OF crud_get_None_iff])
  with None show ?thesis by (auto simp: get_owned_def)
next
  case (Some q)
  have "distinct (map p_id (parcels db))" using assms by (simp add: db_ok_defs)
  from crud_get_iff [OF this] Some have "p \<in> set (parcels db) \<and> p_id p = i \<longleftrightarrow> p = q" for p
    by (metis option.inject)
  then have "(\<exists>p \<in> set (parcels db). p_id p = i \<and> owner_match S owner p \<and> pt = with_type db p) \<longleftrightarrow>
      owner_match S owner q \<and> pt = with_type db q" by metis
  with Some show ?thesis by (auto simp: get_owned_def)
qed

text \<open>
  Reading one parcel has exactly three outcomes, decided by the table alone: the row
  with its (always existing) parcel type if a row has that identifier and belongs to the
  caller, \<^verbatim>\<open>UnauthorizedError\<close> (401) if it exists but belongs to someone else, and
  \<^verbatim>\<open>NotFoundError\<close> (404) if no row has the identifier.
\<close>

theorem get_owned_outcome:
  assumes "db_ok db"
  shows "(\<exists>p \<in> set (parcels db). p_id p = i \<and>
      (if owner_match S owner p
       then \<exists>t \<in> set (parcel_types db). pt_id t = p_parcel_type_id p \<and>
         get_owned S i owner db = Inr (p, Some t)
       else get_owned S i owner db = Inl (UnauthorizedError ''Parcel not found''))) \<or>
    i \<notin> p_id ` set (parcels db) \<and>
      get_owned S i owner db = Inl (NotFoundError ''Parcel not found'')"
proof (cases "crud_get p_id (parcels db) i")
  case None
  then have "i \<notin> p_id ` set (parcels db)" by (rule iffD1 [OF crud_get_None_iff])
  with None show ?thesis by (simp add: get_owned_def)
next
  case (Some p)
  note p = crud_get_SomeD [OF Some]
  obtain t where "with_type db p = (p, Some t)" "t \<in> set (parcel_types db)"
      "pt_id t = p_parcel_type_id p"
    using with_type_ok [OF assms conjunct1 [OF p]] .
  with Some p show ?thesis
    by (intro disjI1 bexI [of _ p]) (auto simp: get_owned_def)
qed

lemma get_owned_outcome_witness:
  "get_owned session_settings ''p1'' ''s1'' sample_db =
      Inr (sample_parcel, Some \<lparr>pt_id = ''t1'', pt_name = ''misc''\<rparr>)"
  using get_owned_outcome [OF sample_db_ok, of "''p1''" session_settings "''s1''"]
  by (simp add: sample_db_def sample_parcel_def owner_match_def)

text \<open>
  A registered parcel can be read back at once by its owner, with exactly the stored row
  and its type, and by nobody else: every other identity gets \<^verbatim>\<open>UnauthorizedError\<close>.
\<close>

theorem create_then_get:
  assumes "create_from_dto S E i data owner st = (Inr p, st')" and "db_ok (app_db st)"
  shows "(\<exists>t \<in> set (parcel_types (app_db st)). pt_id t = pc_parcel_type_id data \<and>
      get_owned S i owner (app_db st') = Inr (p, Some t)) \<and>
    (\<forall>other. other \<noteq> owner \<longrightarrow>
      get_owned S i other (app_db st') = Inl (UnauthorizedError ''Parcel not found''))"
proof -
  note app = create_appends [OF assms(1)]
  have ok: "db_ok (app_db st')"
    using create_from_dto_Inr [OF assms(1)] assms(2) insert_parcel_db_ok by blast
  have p: "p \<in> set (parcels (app_db st'))" "p_id p = i" using app by auto
  have dist: "distinct (map p_id (parcels (app_db st')))" using ok by (simp add: db_ok_defs)
  have get: "crud_get p_id (parcels (app_db st')) i = Some p"
    using p by (simp add: crud_get_iff [OF dist])
  have "p_parcel_type_id p = pc_parcel_type_id data"
    using create_from_dto_Inr [OF assms(1)]
    by (auto simp: insert_parcel_Inr_iff new_parcel_def dest: store_parcel_InrD)
  with with_type_ok [OF ok p(1)] get app show ?thesis
    by (auto simp: get_owned_def) metis
qed

text \<open>
  Parcels of different owners do not interfere: registering a parcel changes no list,
  page or total of another owner, and no read of any other parcel by anyone.
\<close>

theorem create_isolated:
  assumes "create_from_dto S E i data owner st = (Inr p, st')" and "other \<noteq> owner"
  shows "list_owned S other fs limit offset (app_db st') = list_owned S other fs limit offset (app_db st) \<and>
    (\<forall>j who. j \<noteq> i \<longrightarrow> get_owned S j who (app_db st') = get_owned S j who (app_db st))"
proof -
  note app = create_appends [OF assms(1)]
  have "\<not> owner_match S other p" using app(4) assms(2) by simp
  then have "matching_parcels S other fs (app_db st') = matching_parcels S other fs (app_db st)"
    by (simp add: matching_parcels_def crud_list_def list_conditions_def app(1))
  moreover have "with_type (app_db st') = with_type (app_db st)"
    by (simp add: with_type_def app(3) fun_eq_iff)
  ultimately show ?thesis
    using app(2) by (auto simp: list_owned_def get_owned_def crud_get_def find_by_def app(1) find_append
        split: option.splits)
qed

lemma sample_created:
  obtains p st' where "create_from_dto session_settings reference_engine ''p2'' sample_payload ''s2''
    sample_app = (Inr p, st')"
  using ref_engine.create_ok [OF sample_payload_valid sample_pending(3), of "''p2''" session_settings "''s2''"]
    sample_create_hyps by (auto simp: sample_payload_def dec_val_Dec)

theorem create_then_get_witness:
  "\<exists>p st'. create_from_dto session_settings reference_engine ''p2'' sample_payload ''s2'' sample_app =
      (Inr p, st') \<and> (\<exists>t. get_owned session_settings ''p2'' ''s2'' (app_db st') = Inr (p, Some t)) \<and>
    get_owned session_settings ''p2'' ''s1'' (app_db st') = Inl (UnauthorizedError ''Parcel not found'')"
proof -
  obtain p st' where r: "create_from_dto session_settings reference_engine ''p2'' sample_payload ''s2''
    sample_app = (Inr p, st')" by (rule sample_created)
  from create_then_get [OF r sample_pending(3)] r show ?thesis by auto
qed

theorem create_isolated_witness:
  "\<exists>p st'. create_from_dto session_settings reference_engine ''p2'' sample_payload ''s2'' sample_app =
      (Inr p, st') \<and>
    fst (list_owned session_settings ''s1'' \<lparr>type_id = None, has_cost = None\<rparr> 20 0 (app_db st')) = 1"
proof -
  obtain p st' where r: "create_from_dto session_settings reference_engine ''p2'' sample_payload ''s2''
    sample_app = (Inr p, st')" by (rule sample_created)
  have "list_owned session_settings ''s1'' \<lparr>type_id = None, has_cost = None\<rparr> 20 0 (app_db st') =
      list_owned session_settings ''s1'' \<lparr>type_id = None, has_cost = None\<rparr> 20 0 (app_db sample_app)"
    using create_isolated [OF r, of "''s1''"] by simp
  moreover have "fst (list_owned session_settings ''s1'' \<lparr>type_id = None, has_cost = None\<rparr> 20 0
      (app_db sample_app)) = 1"
    by (simp add: list_owned_simps matching_parcels_def crud_list_def list_conditions_def sample_app_def
        sample_db_def sample_parcel_def owner_match_def)
  ultimately show ?thesis using r by metis
qed

text \<open>
  The ownership modes are separate worlds: a parcel registered in one mode is invisible
  in the other, to every (non-empty) identity, in lists and in single reads.
\<close>

theorem modes_are_disjoint:
  assumes "create_from_dto S E i data owner st = (Inr p, st')" and "db_ok (app_db st)"
    and "AUTH_REQUIRED S' \<noteq> AUTH_REQUIRED S" and "who \<noteq> []"
  shows "get_owned S' i who (app_db st') = Inl (UnauthorizedError ''Parcel not found'') \<and>
    list_owned S' who fs limit offset (app_db st') = list_owned S' who fs limit offset (app_db st)"
proof -
  note app = create_appends [OF assms(1)]
  have "p_session_id p = (if \<not> AUTH_REQUIRED S then owner else []) \<and>
      p_user_id p = (if AUTH_REQUIRED S then Some owner else None)"
    using create_from_dto_Inr [OF assms(1)]
    by (auto simp: insert_parcel_Inr_iff new_parcel_def dest: store_parcel_InrD)
  then have no: "\<not> owner_match S' who p" using assms(3,4) by (auto simp: owner_match_def)
  have "distinct (map p_id (parcels (app_db st')))"
    using create_from_dto_Inr [OF assms(1)] assms(2) insert_parcel_db_ok
    by (metis db_ok_def parcels_ok_def)
  then have get: "crud_get p_id (parcels (app_db st')) i = Some p"
    using app(1,2) by (auto simp: crud_get_iff)
  have "matching_parcels S' who fs (app_db st') = matching_parcels S' who fs (app_db st)"
    using no by (simp add: matching_parcels_def crud_list_def list_conditions_def app(1))
  moreover have "with_type (app_db st') = with_type (app_db st)"
    by (simp add: with_type_def app(3) fun_eq_iff)
  ultimately show ?thesis using get no by (simp add: list_owned_def get_owned_def)
qed

theorem modes_are_disjoint_witness:
  "\<exists>p st'. create_from_dto session_settings reference_engine ''p2'' sample_payload ''s2'' sample_app =
      (Inr p, st') \<and>
    get_owned default_settings ''p2'' ''s2'' (app_db st') = Inl (UnauthorizedError ''Parcel not found'')"
proof -
  obtain p st' where r: "create_from_dto session_settings reference_engine ''p2'' sample_payload ''s2''
    sample_app = (Inr p, st')" by (rule sample_created)
  from modes_are_disjoint [OF r sample_pending(3), of default_settings "''s2''"] r show ?thesis
    by auto
qed

subsection \<open>Lists and pages\<close>

definition passes_filter :: "parcel_filter_params \<Rightarrow> parcel \<Rightarrow> bool" where
  "passes_filter fs p \<longleftrightarrow>
     (type_id fs = None \<or> type_id fs = Some (p_parcel_type_id p)) \<and>
     (has_cost fs = None \<or> has_cost fs = Some (\<not> unpriced p))"

lemma in_matching_parcels:
  "p \<in> set (matching_parcels S owner fs db) \<longleftrightarrow>
     p \<in> set (parcels db) \<and> owner_match S owner p \<and> passes_filter fs p"
  unfolding matching_parcels_iff passes_filter_def
  by (cases "type_id fs"; cases "has_cost fs") auto

lemma list_owned_pages:
  assumes "fst (list_owned S owner fs limit 0 db) \<le> n * limit"
  shows "concat (map (\<lambda>k. snd (list_owned S owner fs limit (k * limit) db)) [0..<n]) =
    map (with_type db) (sort_key p_id (matching_parcels S owner fs db))"
proof -
  have "concat (map (\<lambda>k. snd (list_owned S owner fs limit (k * limit) db)) [0..<n]) =
      map (with_type db) (concat (map (\<lambda>k. page_of limit (k * limit)
        (sort_key p_id (matching_parcels S owner fs db))) [0..<n]))"
    by (simp add: list_owned_def Let_def map_concat comp_def)
  also have "\<dots> = map (with_type db) (sort_key p_id (matching_parcels S owner fs db))"
    using assms by (simp add: concat_pages list_owned_simps)
  finally show ?thesis .
qed

text \<open>
  C26: paging loses and repeats nothing.  The pages at offsets \<open>0, limit, 2 * limit, \<dots>\<close>, as
  many as the total asks for, put together are exactly the parcels the caller could read
  one by one (\<open>get_owned\<close>) and that pass the filters, each once, in increasing order of
  identifier; every page reports the same total, their number.
\<close>

theorem pages_enumerate_owned:
  assumes "db_ok db" and "fst (list_owned S owner fs limit 0 db) \<le> n * limit"
  defines "rows \<equiv> concat (map (\<lambda>k. snd (list_owned S owner fs limit (k * limit) db)) [0..<n])"
  shows "set rows = {(p, t). get_owned S (p_id p) owner db = Inr (p, t) \<and> passes_filter fs p} \<and>
    sorted (map (p_id \<circ> fst) rows) \<and> distinct (map (p_id \<circ> fst) rows) \<and>
    (\<forall>offset. fst (list_owned S owner fs limit offset db) = length rows)"
proof -
  have rows: "rows = map (with_type db) (sort_key p_id (matching_parcels S owner fs db))"
    unfolding rows_def using assms(2) by (rule list_owned_pages)
  have ids: "map (p_id \<circ> fst) rows = map p_id (sort_key p_id (matching_parcels S owner fs db))"
    by (simp add: rows with_type_def comp_def)
  have "distinct (map p_id (parcels db))" using assms(1) by (simp add: db_ok_defs)
  then have "distinct (map p_id (matching_parcels S owner fs db))"
    by (simp add: matching_parcels_def crud_list_def distinct_map_filter)
  then have "distinct (map p_id (sort_key p_id (matching_parcels S owner fs db)))"
    by (auto simp: distinct_map)
  moreover have "set rows = {(p, t). get_owned S (p_id p) owner db = Inr (p, t) \<and> passes_filter fs p}"
    by (auto simp: rows get_owned_Inr_iff [OF assms(1)] in_matching_parcels with_type_def)
  ultimately show ?thesis by (simp add: ids) (simp add: rows list_owned_simps)
qed

theorem pages_enumerate_owned_witness:
  "set (concat (map (\<lambda>k. snd (list_owned session_settings ''s1''
      \<lparr>type_id = Some ''t1'', has_cost = Some False\<rparr> 1 (k * 1) sample_db)) [0..<2])) =
    {(p, t). get_owned session_settings (p_id p) ''s1'' sample_db = Inr (p, t) \<and>
      passes_filter \<lparr>type_id = Some ''t1'', has_cost = Some False\<rparr> p}"
  using pages_enumerate_owned [OF sample_db_ok, of session_settings "''s1''"
      "\<lparr>type_id = Some ''t1'', has_cost = Some False\<rparr>" 1 2]
  by (simp add: list_owned_simps matching_parcels_def crud_list_def list_conditions_def sample_db_def
      sample_parcel_def owner_match_def)

subsection \<open>Lists before and after the recalculation job\<close>

lemma priced_simps:
  "owner_match S owner (priced T E rate p) = owner_match S owner p"
  "with_type db (priced T E rate p) = (priced T E rate p, snd (with_type db p))"
  by (simp_all add: owner_match_def priced_def with_type_def)

lemma cost_totals:
  "fst (list_owned S owner \<lparr>type_id = ty, has_cost = None\<rparr> l off db) =
     fst (list_owned S owner \<lparr>type_id = ty, has_cost = Some True\<rparr> l off db) +
     fst (list_owned S owner \<lparr>type_id = ty, has_cost = Some False\<rparr> l off db)"
proof -
  let ?own = "\<lambda>p. owner_match S owner p \<and> (case ty of None \<Rightarrow> True | Some t \<Rightarrow> p_parcel_type_id p = t)"
  have "matching_parcels S owner \<lparr>type_id = ty, has_cost = c\<rparr> db =
      filter (\<lambda>p. case c of None \<Rightarrow> True | Some b \<Rightarrow> (\<not> unpriced p) = b) (filter ?own (parcels db))" for c
    by (cases ty; cases c; cases "the c")
      (auto simp: matching_parcels_def crud_list_def list_conditions_def intro: filter_cong)
  then show ?thesis
    using sum_length_filter_compl [of "\<lambda>p. \<not> unpriced p" "filter ?own (parcels db)"]
    by (simp add: list_owned_simps)
qed

lemma no_pending_after:
  assumes "\<forall>p \<in> set (parcels db). \<not> unpriced p"
  shows "fst (list_owned S owner \<lparr>type_id = ty, has_cost = Some False\<rparr> l off db) = 0"
proof -
  have "matching_parcels S owner \<lparr>type_id = ty, has_cost = Some False\<rparr> db = []"
    using assms
    by (auto simp: matching_parcels_def crud_list_def list_conditions_def filter_empty_conv
        split: option.splits)
  then show ?thesis by (simp add: list_owned_simps)
qed

lemma total_after_pricing:
  "length (matching_parcels S owner \<lparr>type_id = ty, has_cost = None\<rparr>
     (db\<lparr>parcels := update_where unpriced (priced T E rate) (parcels db)\<rparr>)) =
   length (matching_parcels S owner \<lparr>type_id = ty, has_cost = None\<rparr> db)"
proof -
  let ?Q = "\<lambda>p. list_all (\<lambda>f. f p) (list_conditions S owner \<lparr>type_id = ty, has_cost = None\<rparr>)"
  have "?Q (priced T E rate p) = ?Q p" for p
    by (auto simp: list_conditions_def priced_simps split: option.splits)
      (simp_all add: priced_def)
  then show ?thesis
    by (simp add: matching_parcels_def crud_list_def filter_update_where)
qed

text \<open>
  A complete run of the job moves every parcel, of every owner, from the pending to the
  priced list: afterwards each caller's \<^verbatim>\<open>has_cost=false\<close> total is 0 and the
  \<^verbatim>\<open>has_cost=true\<close> total is the former total of both; and each caller still reads the same
  parcel under the same identifier, with the computed cost if it was pending and unchanged
  if it was not.
\<close>

theorem recalc_moves_parcels_to_priced:
  assumes "delivery_env E R" and "0 < DELIVERY_BATCH_SIZE S" and "db_ok (app_db st)"
    and "lock_free R (app_redis st) (at_lock tm)"
    and "rate_of_run S R H tm (app_redis st) = Inr rate"
    and "\<forall>p \<in> set (parcels (app_db st)). unpriced p \<longrightarrow> cost_storable S E rate p"
  shows "\<exists>n st'. recalc_delivery_costs S E R H tm st = Some (Inr n, st') \<and>
    (\<forall>who ty l off.
      fst (list_owned S who \<lparr>type_id = ty, has_cost = Some False\<rparr> l off (app_db st')) = 0 \<and>
      fst (list_owned S who \<lparr>type_id = ty, has_cost = Some True\<rparr> l off (app_db st')) =
        fst (list_owned S who \<lparr>type_id = ty, has_cost = Some True\<rparr> l off (app_db st)) +
        fst (list_owned S who \<lparr>type_id = ty, has_cost = Some False\<rparr> l off (app_db st))) \<and>
    (\<forall>who i p t. get_owned S i who (app_db st) = Inr (p, t) \<longrightarrow>
      get_owned S i who (app_db st') =
        Inr (if unpriced p then priced S E rate p else p, t))"
proof -
  let ?rows = "update_where unpriced (priced S E rate) (parcels (app_db st))"
  let ?db = "app_db st\<lparr>parcels := ?rows\<rparr>"
  obtain st' where run: "recalc_delivery_costs S E R H tm st =
        Some (Inr (length (filter unpriced (parcels (app_db st)))), st')" "app_db st' = ?db"
      and priced_all: "\<forall>p \<in> set (parcels (app_db st')). \<not> unpriced p"
    using delivery_env.run_prices_all [OF assms] by blast
  have lists: "fst (list_owned S who \<lparr>type_id = ty, has_cost = Some True\<rparr> l off ?db) =
      fst (list_owned S who \<lparr>type_id = ty, has_cost = Some True\<rparr> l off (app_db st)) +
      fst (list_owned S who \<lparr>type_id = ty, has_cost = Some False\<rparr> l off (app_db st))" for who ty l off
    using cost_totals [of S who ty l off ?db] cost_totals [of S who ty l off "app_db st"] priced_all
      no_pending_after [of ?db S who ty l off] total_after_pricing [of S who ty S E rate "app_db st"]
    by (simp add: run(2) list_owned_simps)
  have reads: "get_owned S i who ?db = Inr (if unpriced p then priced S E rate p else p, t)"
    if "get_owned S i who (app_db st) = Inr (p, t)" for who i p t
    using that
    by (auto simp: get_owned_def crud_get_def find_by_def find_update_where priced_simps with_type_def
        split: option.splits if_splits) (simp_all add: priced_def)
  show ?thesis
  proof (intro exI conjI)
    show "recalc_delivery_costs S E R H tm st =
        Some (Inr (length (filter unpriced (parcels (app_db st)))), st')" by (rule run(1))
  qed (use lists reads no_pending_after [OF priced_all] in \<open>auto simp: run(2)\<close>)
qed

theorem recalc_moves_parcels_to_priced_witness:
  "\<exists>n st'. recalc_delivery_costs default_settings reference_engine reference_redis sample_source
      (sample_times 0) sample_app = Some (Inr n, st') \<and>
    fst (list_owned default_settings ''u1'' \<lparr>type_id = None, has_cost = Some False\<rparr> 20 0 (app_db st')) = 0"
  using recalc_moves_parcels_to_priced [OF ref_delivery.delivery_env_axioms,
      of default_settings sample_app "sample_times 0" sample_source sample_rate]
  by (auto simp: sample_pending sample_lock_free sample_rate_of_run sample_storable)

end
