(* ===== verification/Api.thy ===== *)
theory Api
  imports Rate_Limit Auth_Guarantees Parcel_Access
begin

text \<open>
  The write routes of the service: \<^verbatim>\<open>app/api/auth.py\<close>, \<^verbatim>\<open>register_parcel\<close> of
  \<^verbatim>\<open>app/api/parcel.py\<close> and \<^verbatim>\<open>manual_recalc\<close> of \<^verbatim>\<open>app/tasks/routes.py\<close>.  A route first
  resolves its dependencies (an exception there ends the request), then validates the body,
  then runs the decorated handler (rate limit, then the handler itself); exceptions are
  turned into responses by \<open>handle_exception\<close>.  Bodies are given parsed; what a body must
  satisfy is the schema's.  The \<open>platform\<close> holds the settings and what the framework and
  the libraries do: among them the extraction of the Bearer token from a request and of the
  typed query parameters from a query string.
\<close>

record ('r, 'l) platform =
  pf_settings :: settings
  pf_engine :: engine
  pf_redis :: "'r redis_ops"
  pf_rates :: rate_source
  pf_crypto :: crypto
  pf_jwt :: jwt_lib
  pf_limiter :: "'l limiter_lib"
  pf_bearer :: "request \<Rightarrow> string option"
  pf_email :: "string \<Rightarrow> bool"
  pf_page_query :: "string \<Rightarrow> json list + int option \<times> int option"
  pf_filter_query :: "string \<Rightarrow> json list + parcel_filter_params"

record ('r, 'l) world =
  w_app :: "'r app"
  w_limits :: 'l

subsection \<open>Responses\<close>

definition plain_response :: "nat \<Rightarrow> json \<Rightarrow> http_response" where
  "plain_response code body =
     \<lparr>status_code = code, content = body, rs_headers = [], rs_cookies = []\<rparr>"

definition respond_error :: "exc \<Rightarrow> http_response" where
  "respond_error e =
     (let r = handle_exception e in plain_response (status_code r) (content r))"

definition cookie_secure :: "settings \<Rightarrow> bool" where
  "cookie_secure S \<longleftrightarrow> ENVIRONMENT S = ''prod''"

definition cookie_max_age :: "settings \<Rightarrow> seconds" where
  "cookie_max_age S = JWT_REFRESH_TOKEN_EXPIRE_DAYS S * 24 * 60 * 60"

definition set_auth_cookies :: "settings \<Rightarrow> auth_result \<Rightarrow> http_response \<Rightarrow> http_response" where
  "set_auth_cookies S r resp = resp\<lparr>rs_cookies := rs_cookies resp @
     [\<lparr>sc_name = REFRESH_COOKIE_NAME S, sc_value = ar_refresh_token r, sc_max_age = cookie_max_age S,
       sc_httponly = True, sc_secure = cookie_secure S, sc_samesite = ''lax'', sc_path = ''/auth''\<rparr>,
      \<lparr>sc_name = CSRF_COOKIE_NAME S, sc_value = ar_csrf_token r, sc_max_age = cookie_max_age S,
       sc_httponly = False, sc_secure = cookie_secure S, sc_samesite = ''lax'', sc_path = ''/auth''\<rparr>]\<rparr>"

definition expired_cookie :: "string \<Rightarrow> set_cookie" where
  "expired_cookie name = \<lparr>sc_name = name, sc_value = [], sc_max_age = 0, sc_httponly = False,
     sc_secure = False, sc_samesite = ''lax'', sc_path = ''/auth''\<rparr>"

definition clear_auth_cookies :: "settings \<Rightarrow> http_response \<Rightarrow> http_response" where
  "clear_auth_cookies S resp = resp\<lparr>rs_cookies := rs_cookies resp @
     [expired_cookie (REFRESH_COOKIE_NAME S), expired_cookie (CSRF_COOKIE_NAME S)]\<rparr>"

definition refresh_token_from_request :: "settings \<Rightarrow> request \<Rightarrow> string result" where
  "refresh_token_from_request S req =
     (case cookie req (REFRESH_COOKIE_NAME S) of
        None \<Rightarrow> Inl (UnauthorizedError ''Missing refresh token'')
      | Some t \<Rightarrow> if t = [] then Inl (UnauthorizedError ''Missing refresh token'') else Inr t)"

definition require_csrf :: "settings \<Rightarrow> request \<Rightarrow> unit result" where
  "require_csrf S req =
     (let csrf_cookie = cookie req (CSRF_COOKIE_NAME S);
          csrf_header = header req (CSRF_HEADER_NAME S)
      in if blank csrf_cookie \<or> blank csrf_header then Inl (ForbiddenError ''Invalid CSRF token'')
         else bind_result (compare_digest (the csrf_cookie) (the csrf_header)) (\<lambda>same.
           if \<not> same then Inl (ForbiddenError ''Invalid CSRF token'') else Inr ()))"

definition token_page :: "settings \<Rightarrow> nat \<Rightarrow> auth_result \<Rightarrow> http_response" where
  "token_page S code r =
     set_auth_cookies S r (plain_response code (token_response (ar_access_token r)))"

subsection \<open>The request pipeline\<close>

definition with_dependency ::
  "'a result \<Rightarrow> ('a \<Rightarrow> 'w \<Rightarrow> http_response \<times> 'w) \<Rightarrow> 'w \<Rightarrow> http_response \<times> 'w" where
  "with_dependency dep f w = (case dep of Inl e \<Rightarrow> (respond_error e, w) | Inr x \<Rightarrow> f x w)"

definition limited ::
  "('r, 'l) platform \<Rightarrow> string \<Rightarrow> instant \<Rightarrow> request \<Rightarrow>
     ('r app \<Rightarrow> http_response result \<times> 'r app) \<Rightarrow> ('r, 'l) world \<Rightarrow> http_response \<times> ('r, 'l) world" where
  "limited P limit_value now req handler w =
     (case limit (pf_limiter P) limit_value now (Some req) handler (w_limits w) (w_app w) of
        (res, l', a') \<Rightarrow>
          ((case res of Inl e \<Rightarrow> respond_error e | Inr resp \<Rightarrow> resp),
           \<lparr>w_app = a', w_limits = l'\<rparr>))"

definition on_db :: "(db \<Rightarrow> 'a result \<times> db) \<Rightarrow> 'r app \<Rightarrow> 'a result \<times> 'r app" where
  "on_db f a = (case f (app_db a) of (res, db') \<Rightarrow> (res, a\<lparr>app_db := db'\<rparr>))"

definition then_respond :: "('a \<Rightarrow> http_response) \<Rightarrow> 'a result \<times> 'w \<Rightarrow> http_response result \<times> 'w" where
  "then_respond f rw = (case rw of (Inl e, w) \<Rightarrow> (Inl e, w) | (Inr x, w) \<Rightarrow> (Inr (f x), w))"

subsection \<open>Authentication routes\<close>

definition register_route ::
  "('r, 'l) platform \<Rightarrow> instant \<Rightarrow> user_draws \<Rightarrow> draws \<Rightarrow> request \<Rightarrow> user_register \<Rightarrow>
     ('r, 'l) world \<Rightarrow> http_response \<times> ('r, 'l) world" where
  "register_route P now ud d req body =
     (let S = pf_settings P in
      with_dependency (if valid_user_register (pf_email P) body then Inr ()
                       else Inl (RequestValidationError []))
        (\<lambda>_. limited P ''10/minute'' now req (\<lambda>a.
          then_respond (token_page S 201)
            (on_db (register S (pf_crypto P) (pf_jwt P) ud d (ur_email body) (ur_password body)) a))))"

definition login_route ::
  "('r, 'l) platform \<Rightarrow> instant \<Rightarrow> draws \<Rightarrow> request \<Rightarrow> string \<Rightarrow> string \<Rightarrow>
     ('r, 'l) world \<Rightarrow> http_response \<times> ('r, 'l) world" where
  "login_route P now d req email password =
     (let S = pf_settings P in
      with_dependency (if pf_email P email then Inr () else Inl (RequestValidationError []))
        (\<lambda>_. limited P ''20/minute'' now req (\<lambda>a.
          then_respond (token_page S 200)
            (on_db (login S (pf_crypto P) (pf_jwt P) d email password) a))))"

definition refresh_route ::
  "('r, 'l) platform \<Rightarrow> instant \<Rightarrow> draws \<Rightarrow> request \<Rightarrow>
     ('r, 'l) world \<Rightarrow> http_response \<times> ('r, 'l) world" where
  "refresh_route P now d req =
     (let S = pf_settings P in
      limited P ''20/minute'' now req (\<lambda>a.
        case require_csrf S req of
          Inl e \<Rightarrow> (Inl e, a)
        | Inr _ \<Rightarrow>
            (case refresh_token_from_request S req of
               Inl e \<Rightarrow> (Inl e, a)
             | Inr raw \<Rightarrow>
                 then_respond (token_page S 200)
                   (on_db (refresh S (pf_crypto P) (pf_jwt P) d raw) a))))"

definition logout_route ::
  "('r, 'l) platform \<Rightarrow> instant \<Rightarrow> instant \<Rightarrow> request \<Rightarrow>
     ('r, 'l) world \<Rightarrow> http_response \<times> ('r, 'l) world" where
  "logout_route P now revoke_at req =
     (let S = pf_settings P in
      limited P ''20/minute'' now req (\<lambda>a.
        case require_csrf S req of
          Inl e \<Rightarrow> (Inl e, a)
        | Inr _ \<Rightarrow>
            (case refresh_token_from_request S req of
               Inl e \<Rightarrow> (Inl e, a)
             | Inr raw \<Rightarrow>
                 then_respond (\<lambda>_. clear_auth_cookies S (plain_response 204 JNull))
                   (on_db (logout (pf_crypto P) revoke_at raw) a))))"

definition logout_all_route ::
  "('r, 'l) platform \<Rightarrow> instant \<Rightarrow> instant \<Rightarrow> request \<Rightarrow>
     ('r, 'l) world \<Rightarrow> http_response \<times> ('r, 'l) world" where
  "logout_all_route P now revoke_at req =
     (let S = pf_settings P in
      with_dependency (get_current_user_id S (pf_jwt P) now (pf_bearer P req))
        (\<lambda>user_id. limited P ''10/minute'' now req (\<lambda>a.
          then_respond (\<lambda>_. clear_auth_cookies S (plain_response 204 JNull))
            (on_db (\<lambda>db. (Inr (), logout_all revoke_at user_id db)) a))))"

subsection \<open>Parcel registration and the manual trigger\<close>

definition register_parcel ::
  "('r, 'l) platform \<Rightarrow> instant \<Rightarrow> ident \<Rightarrow> request \<Rightarrow> parcel_create \<Rightarrow>
     ('r, 'l) world \<Rightarrow> http_response \<times> ('r, 'l) world" where
  "register_parcel P now i req body =
     (let S = pf_settings P in
      with_dependency (get_parcel_writer_owner_id S (pf_jwt P) now req (pf_bearer P req))
        (\<lambda>owner_id.
          with_dependency (if valid_parcel_create body then Inr () else Inl (RequestValidationError []))
            (\<lambda>_. limited P (RATE_LIMIT_CREATE S) now req (\<lambda>a.
              then_respond (\<lambda>p. plain_response 201 (parcel_create_response (p_id p) owner_id))
                (create_from_dto S (pf_engine P) i body owner_id a)))))"

definition recalc_route ::
  "('r, 'l) platform \<Rightarrow> instant \<Rightarrow> run_times \<Rightarrow> request \<Rightarrow>
     ('r, 'l) world \<Rightarrow> (http_response \<times> ('r, 'l) world) option" where
  "recalc_route P now tm req w =
     (let S = pf_settings P in
      case require_task_admin_token S (header req ''X-Admin-Token'') of
        Inl e \<Rightarrow> Some (respond_error e, w)
      | Inr _ \<Rightarrow>
          (case limit (pf_limiter P) (RATE_LIMIT_RECALC S) now (Some req) (\<lambda>a. (Inr (), a))
                  (w_limits w) (w_app w) of
             (Inl e, l', a') \<Rightarrow> Some (respond_error e, \<lparr>w_app = a', w_limits = l'\<rparr>)
           | (Inr _, l', a') \<Rightarrow>
               (case manual_recalc S (pf_engine P) (pf_redis P) (pf_rates P) tm a' of
                  None \<Rightarrow> None
                | Some (Inl e, a'') \<Rightarrow> Some (respond_error e, \<lparr>w_app = a'', w_limits = l'\<rparr>)
                | Some (Inr n, a'') \<Rightarrow>
                    Some (plain_response 202 (JObj [(''updated'', JInt (int n))]),
                      \<lparr>w_app = a'', w_limits = l'\<rparr>))))"

end
