(* ===== verification/Api_Guarantees.thy ===== *)
theory Api_Guarantees
  imports Api
begin

text \<open>
  What the write routes guarantee: a cookie route does nothing without a matching CSRF
  header, the operator route does nothing without the admin token.
\<close>

definition csrf_ok :: "settings \<Rightarrow> request \<Rightarrow> bool" where
  "csrf_ok S req \<longleftrightarrow>
     (case cookie req (CSRF_COOKIE_NAME S) of
        None \<Rightarrow> False
      | Some t \<Rightarrow> t \<noteq> [] \<and> is_ascii t \<and> header req (CSRF_HEADER_NAME S) = Some t)"

definition csrf_ascii :: "settings \<Rightarrow> request \<Rightarrow> bool" where
  "csrf_ascii S req \<longleftrightarrow>
     (case cookie req (CSRF_COOKIE_NAME S) of None \<Rightarrow> True | Some t \<Rightarrow> is_ascii t) \<and>
     (case header req (CSRF_HEADER_NAME S) of None \<Rightarrow> True | Some t \<Rightarrow> is_ascii t)"

lemma respond_error_status:
  "status_code (respond_error e) = status_code (handle_exception e)" "rs_cookies (respond_error e) = []"
  by (simp_all add: respond_error_def plain_response_def Let_def)

lemma handle_exception_codes [simp]:
  "status_code (internal_error_handler e) = 500"
  "status_code (forbidden_error_handler m) = 403"
  "status_code (rate_limit_exceeded_handler m) = 429"
  "status_code (unauthorized_error_handler m) = 401"
  "status_code (business_error_handler m) = 400"
  "status_code (not_found_error_handler m) = 404"
  "status_code (validation_exception_handler (RequestValidationError es)) = 422"
  by (simp_all add: handler_defs)

lemma require_csrf_cases:
  assumes "\<not> csrf_ok S req"
  shows "require_csrf S req = Inl (ForbiddenError ''Invalid CSRF token'') \<or>
    \<not> csrf_ascii S req \<and> require_csrf S req = Inl (UnexpectedError ''TypeError'')"
proof (cases "cookie req (CSRF_COOKIE_NAME S)")
  case None
  then show ?thesis by (simp add: require_csrf_def blank_def Let_def)
next
  case c: (Some t)
  show ?thesis
  proof (cases "header req (CSRF_HEADER_NAME S)")
    case None
    then show ?thesis by (simp add: require_csrf_def blank_def Let_def)
  next
    case h: (Some u)
    with c assms show ?thesis
      by (auto simp: require_csrf_def blank_def Let_def csrf_ok_def csrf_ascii_def compare_digest_def)
  qed
qed

lemma limited_error:
  assumes "limited P lv now req handler w = (resp, w')" and "handler (w_app w) = (Inl e, w_app w)"
  shows "w_app w' = w_app w \<and> rs_cookies resp = [] \<and>
    (status_code resp = 429 \<or> status_code resp = status_code (handle_exception e))"
  using assms
  by (auto simp: limited_def limit_def respond_error_status split: prod.splits bool.splits)

text \<open>
  C20: the cookie routes cannot be driven from another site.  Unless the request carries
  the CSRF cookie and repeats its value in the CSRF header, refresh and logout change nothing
  but the request counter, set no cookie, and answer 403 or 429; a token with characters
  outside ASCII makes the comparison itself raise and is answered 500.
\<close>

theorem csrf_guards_cookie_routes:
  assumes "\<not> csrf_ok (pf_settings P) req"
    and "refresh_route P now d req w = (resp, w')" and "logout_route P now' revoke_at req w = (resp2, w2)"
  shows "w_app w' = w_app w \<and> w_app w2 = w_app w \<and> rs_cookies resp = [] \<and> rs_cookies resp2 = [] \<and>
    (if csrf_ascii (pf_settings P) req
     then {status_code resp, status_code resp2} \<subseteq> {403, 429}
     else {status_code resp, status_code resp2} \<subseteq> {403, 429, 500})"
proof -
  obtain e where e: "require_csrf (pf_settings P) req = Inl e"
      and "status_code (handle_exception e) = 403 \<or>
        \<not> csrf_ascii (pf_settings P) req \<and> status_code (handle_exception e) = 500"
    using require_csrf_cases [OF assms(1)] by auto
  moreover have "limited P ''20/minute'' now req (\<lambda>a. (Inl e, a)) w = (resp, w')"
    "limited P ''20/minute'' now' req (\<lambda>a. (Inl e, a)) w = (resp2, w2)"
    using assms(2,3) e by (simp_all add: refresh_route_def logout_route_def Let_def)
  ultimately show ?thesis
    using limited_error [of P "''20/minute''" now req "\<lambda>a. (Inl e, a)" w resp w']
      limited_error [of P "''20/minute''" now' req "\<lambda>a. (Inl e, a)" w resp2 w2] by auto
qed

text \<open>
  C21: without the admin token the operator route does nothing at all: the job does not run,
  no state changes, and not even the request counter moves, since the token is checked
  before the rate limit (wrong tokens can be tried without limit).  The answer is 403, or 500
  when the comparison raises on a token outside ASCII.
\<close>

theorem recalc_needs_admin_token:
  assumes "TASK_ADMIN_TOKEN (pf_settings P) = [] \<or>
    header req ''X-Admin-Token'' \<noteq> Some (TASK_ADMIN_TOKEN (pf_settings P))"
  shows "\<exists>resp. recalc_route P now tm req w = Some (resp, w) \<and>
    (status_code resp = 403 \<or> status_code resp = 500 \<and>
      (\<exists>t. header req ''X-Admin-Token'' = Some t \<and>
        \<not> (is_ascii t \<and> is_ascii (TASK_ADMIN_TOKEN (pf_settings P)))))"
proof -
  let ?S = "pf_settings P"
  have "\<exists>e. require_task_admin_token ?S (header req ''X-Admin-Token'') = Inl e \<and>
      (status_code (handle_exception e) = 403 \<or> status_code (handle_exception e) = 500 \<and>
        (\<exists>t. header req ''X-Admin-Token'' = Some t \<and>
          \<not> (is_ascii t \<and> is_ascii (TASK_ADMIN_TOKEN ?S))))"
  proof (cases "header req ''X-Admin-Token''")
    case None
    then show ?thesis by (simp add: require_task_admin_token_def)
  next
    case (Some t)
    with assms show ?thesis by (auto simp: require_task_admin_token_def compare_digest_def)
  qed
  then show ?thesis by (auto simp: recalc_route_def Let_def respond_error_status)
qed

subsection \<open>A reference platform\<close>

definition bearer_of :: "request \<Rightarrow> string option" where
  "bearer_of req =
     (case header req ''Authorization'' of
        None \<Rightarrow> None
      | Some h \<Rightarrow> if take 7 h = ''Bearer '' then Some (drop 7 h) else None)"

definition reference_platform :: "(kv, counters) platform" where
  "reference_platform = \<lparr>
     pf_settings = default_settings\<lparr>TASK_ADMIN_TOKEN := ''adm''\<rparr>, pf_engine = reference_engine,
     pf_redis = reference_redis, pf_rates = sample_source, pf_crypto = reference_crypto,
     pf_jwt = reference_jwt, pf_limiter = reference_limiter,
     pf_bearer = bearer_of, pf_email = (\<lambda>_. True),
     pf_page_query = (\<lambda>_. Inr (None, None)),
     pf_filter_query = (\<lambda>_. Inr \<lparr>type_id = None, has_cost = None\<rparr>)\<rparr>"

definition sample_world :: "(kv, counters) world" where
  "sample_world = \<lparr>w_app = sample_app, w_limits = no_counters\<rparr>"

theorem csrf_guards_cookie_routes_witness:
  "\<not> csrf_ok (pf_settings reference_platform) (plain_request []) \<and>
    w_app (snd (refresh_route reference_platform 0 (sample_draws ''r2'' ''j2'' ''f2'' 60) (plain_request [])
      sample_world)) = sample_app"
proof -
  let ?d = "sample_draws ''r2'' ''j2'' ''f2'' 60"
  have no: "\<not> csrf_ok (pf_settings reference_platform) (plain_request [])"
    by (simp add: csrf_ok_def cookie_def plain_request_def)
  obtain resp w' where r: "refresh_route reference_platform 0 ?d (plain_request []) sample_world = (resp, w')"
    by (rule prod.exhaust)
  obtain resp2 w2 where l: "logout_route reference_platform 0 0 (plain_request []) sample_world = (resp2, w2)"
    by (rule prod.exhaust)
  from csrf_guards_cookie_routes [OF no r l] no r show ?thesis by (simp add: sample_world_def)
qed

theorem recalc_needs_admin_token_witness:
  "\<exists>resp. recalc_route reference_platform 0 (sample_times 0) (plain_request [(''x-admin-token'', ''bad'')])
      sample_world = Some (resp, sample_world) \<and> status_code resp = 403"
proof -
  let ?req = "plain_request [(''x-admin-token'', ''bad'')]"
  have h: "header ?req ''X-Admin-Token'' = Some ''bad''" by code_simp
  have "is_ascii ''bad''" "is_ascii (TASK_ADMIN_TOKEN (pf_settings reference_platform))"
    "TASK_ADMIN_TOKEN (pf_settings reference_platform) = ''adm''"
    by (simp_all add: is_ascii_def reference_platform_def)
  with recalc_needs_admin_token [of reference_platform ?req 0 "sample_times 0" sample_world] h
  show ?thesis by auto
qed

subsection \<open>Lemmas about whole requests\<close>

lemma limited_success:
  assumes "limited P lv now req (\<lambda>a. then_respond f (g a)) w = (resp, w')"
    and "status_code resp = code" and "code \<noteq> 429"
    and "\<And>e a. fst (g a) = Inl e \<Longrightarrow> status_code (handle_exception e) \<noteq> code"
  shows "\<exists>x. g (w_app w) = (Inr x, w_app w') \<and> resp = f x"
proof -
  obtain l' ok where hit: "l_hit (pf_limiter P) (w_limits w) now lv (route_identifier req)
      (remote_address req) = (l', ok)" by fastforce
  obtain res a' where g: "g (w_app w) = (res, a')" by fastforce
  show ?thesis
  proof (cases ok)
    case False
    with hit assms(1-3) show ?thesis
      by (auto simp: limited_def limit_def respond_error_status)
  next
    case True
    show ?thesis
    proof (cases res)
      case (Inl e)
      with True hit g assms(1,2) have "status_code (handle_exception e) = code"
        by (auto simp: limited_def limit_def then_respond_def respond_error_status)
      moreover have "fst (g (w_app w)) = Inl e" using g Inl by simp
      ultimately show ?thesis using assms(4) by blast
    next
      case (Inr x)
      with True hit g assms(1) show ?thesis
        by (auto simp: limited_def limit_def then_respond_def)
    qed
  qed
qed

lemma limited_passes:
  assumes "limited P lv now req (\<lambda>a. then_respond f (g a)) w = (resp, w')"
    and "g (w_app w) = (Inr x, a')"
    and "snd (l_hit (pf_limiter P) (w_limits w) now lv (route_identifier req) (remote_address req))"
  shows "resp = f x \<and> w_app w' = a'"
  using assms
  by (auto simp: limited_def limit_def then_respond_def respond_error_status
      split: prod.splits bool.splits)

lemma token_page_simps [simp]:
  "status_code (token_page S code r) = code" "content (token_page S code r) = token_response (ar_access_token r)"
  "rs_cookies (token_page S code r) = rs_cookies (set_auth_cookies S r (plain_response code JNull))"
  by (simp_all add: token_page_def set_auth_cookies_def plain_response_def)

lemma token_response_inject: "token_response s = token_response t \<longleftrightarrow> s = t"
  by (simp add: token_response_def)

context crypto_library
begin

lemma register_error_status:
  assumes "fst (register S C J ud d email password db) = Inl e"
  shows "status_code (handle_exception e) \<noteq> 201"
proof -
  have h: "\<exists>m. e' = UnexpectedError m" if "bcrypt_hash C password salt = Inl e'" for salt e'
    using that bcrypt_hash_short [of password salt] bcrypt_hash_long [of password salt]
    by (cases "72 < utf8_len password") auto
  have u: "\<exists>m. e' = DatabaseError m" if "insert_user u db = Inl e'" for u e'
    using that by (auto simp: insert_user_def split: if_splits)
  have t: "\<exists>m. e' = DatabaseError m" if "insert_token t db' = Inl e'" for t db' e'
    using that by (auto simp: insert_token_def split: if_splits)
  have "(\<exists>m. e = UnexpectedError m) \<or> (\<exists>m. e = DatabaseError m) \<or> (\<exists>m. e = BusinessError m)"
    using assms h u t
    by (auto simp: register_def hash_password_def issue_tokens_def Let_def
        split: option.splits sum.splits prod.splits)
  then show ?thesis by auto
qed

lemma register_route_success:
  assumes "pf_crypto P = C" and "register_route P now ud d req body w = (resp, w')"
    and "status_code resp = 201"
  shows "\<exists>r db'. register (pf_settings P) C (pf_jwt P) ud d (ur_email body) (ur_password body)
      (app_db (w_app w)) = (Inr r, db') \<and>
    w_app w' = (w_app w)\<lparr>app_db := db'\<rparr> \<and> content resp = token_response (ar_access_token r)"
proof -
  let ?g = "on_db (register (pf_settings P) C (pf_jwt P) ud d (ur_email body) (ur_password body))"
  have lim: "limited P ''10/minute'' now req (\<lambda>a. then_respond (token_page (pf_settings P) 201) (?g a)) w
      = (resp, w')"
    using assms by (auto simp: register_route_def with_dependency_def Let_def respond_error_status
        split: if_splits)
  have err: "status_code (handle_exception e) \<noteq> 201" if "fst (?g a) = Inl e" for e a
  proof -
    have "fst (register (pf_settings P) C (pf_jwt P) ud d (ur_email body) (ur_password body) (app_db a)) = Inl e"
      using that by (simp add: on_db_def split: prod.splits)
    then show ?thesis by (rule register_error_status)
  qed
  have "\<exists>r. ?g (w_app w) = (Inr r, w_app w') \<and> resp = token_page (pf_settings P) 201 r"
    by (rule limited_success [OF lim assms(3)]) (simp, rule err)
  then obtain r where
    "?g (w_app w) = (Inr r, w_app w')" "resp = token_page (pf_settings P) 201 r" by blast
  then show ?thesis by (auto simp: on_db_def split: prod.splits)
qed

end

lemma created_readable:
  assumes "create_from_dto S E i data owner st = (Inr p, st')" and "db_ok (app_db st)"
  shows "\<exists>ty. get_owned S i owner (app_db st') = Inr (p, Some ty) \<and> pt_id ty = pc_parcel_type_id data"
    and "users (app_db st') = users (app_db st)"
    and "p_user_id p = (if AUTH_REQUIRED S then Some owner else None)"
proof -
  note app = create_appends [OF assms(1)]
  from create_from_dto_Inr [OF assms(1)]
  have ins: "insert_parcel E (new_parcel S i data owner) (app_db st) = Inr (p, app_db st')" by simp
  then have store: "store_parcel E (new_parcel S i data owner) = Inr p"
    and us: "users (app_db st') = users (app_db st)"
    by (auto simp: insert_parcel_Inr_iff)
  from us show "users (app_db st') = users (app_db st)" .
  from store_parcel_InrD [OF store]
  show "p_user_id p = (if AUTH_REQUIRED S then Some owner else None)"
    by (simp add: new_parcel_def)
  from store_parcel_InrD [OF store] have ty: "p_parcel_type_id p = pc_parcel_type_id data"
    by (simp add: new_parcel_def)
  have ok: "db_ok (app_db st')" using insert_parcel_db_ok [OF ins assms(2)] .
  have p: "p \<in> set (parcels (app_db st'))" by (simp add: app(1))
  obtain t where "with_type (app_db st') p = (p, Some t)" "pt_id t = p_parcel_type_id p"
    using with_type_ok [OF ok p] by metis
  with p app(2,4) have "get_owned S i owner (app_db st') = Inr (p, Some t)"
    unfolding get_owned_Inr_iff [OF ok] by (intro bexI [of _ p]) simp_all
  with ty \<open>pt_id t = p_parcel_type_id p\<close> show "\<exists>ty. get_owned S i owner (app_db st') = Inr (p, Some ty) \<and>
      pt_id ty = pc_parcel_type_id data" by auto
qed

end
