(* ===== verification/Json.thy ===== *)
theory Json
  imports Settings
begin

text \<open>
  JSON as Python's standard library writes and reads it: \<^verbatim>\<open>json.dumps\<close> with its defaults
  (\<^verbatim>\<open>ensure_ascii\<close>, separators \<^verbatim>\<open>", "\<close> and \<^verbatim>\<open>": "\<close>) and \<^verbatim>\<open>json.loads\<close>.  The reader is a
  recursive-descent parser with fuel; the length of the text is enough (\<open>json_roundtrip\<close>).
  A number with a fraction or an exponent is kept as its text, as in \<^verbatim>\<open>repr(float)\<close>; the
  reader therefore reproduces texts that \<^verbatim>\<open>repr\<close> wrote, the only ones the program reads.
\<close>

subsection \<open>Writing\<close>

definition hex_digit :: "nat \<Rightarrow> char" where
  "hex_digit n = (if n < 10 then char_of (48 + n) else char_of (87 + n))"

definition escape_char :: "char \<Rightarrow> string" where
  "escape_char c =
     (let n = of_char c :: nat in
      if c = CHR 0x22 then [CHR 0x5C, CHR 0x22]
      else if c = CHR 0x5C then [CHR 0x5C, CHR 0x5C]
      else if c = CHR 0x0A then [CHR 0x5C, CHR ''n'']
      else if c = CHR 0x0D then [CHR 0x5C, CHR ''r'']
      else if c = CHR 0x09 then [CHR 0x5C, CHR ''t'']
      else if c = CHR 0x0C then [CHR 0x5C, CHR ''f'']
      else if c = CHR 0x08 then [CHR 0x5C, CHR ''b'']
      else if n < 32 \<or> 126 < n then
        [CHR 0x5C, CHR ''u'', CHR ''0'', CHR ''0'', hex_digit (n div 16), hex_digit (n mod 16)]
      else [c])"

definition json_string :: "string \<Rightarrow> string" where
  "json_string s = CHR 0x22 # concat (map escape_char s) @ [CHR 0x22]"

fun join_comma :: "string list \<Rightarrow> string" where
  "join_comma [] = []"
| "join_comma [w] = w"
| "join_comma (w # ws) = w @ '', '' @ join_comma ws"

fun json_dumps :: "json \<Rightarrow> string" where
  "json_dumps JNull = ''null''"
| "json_dumps (JBool b) = (if b then ''true'' else ''false'')"
| "json_dumps (JInt i) = show_int i"
| "json_dumps (JFloat t) = t"
| "json_dumps (JStr s) = json_string s"
| "json_dumps (JArr js) = ''['' @ join_comma (map json_dumps js) @ '']''"
| "json_dumps (JObj kvs) =
     ''{'' @ join_comma (map (\<lambda>(k, v). json_string k @ '': '' @ json_dumps v) kvs) @ ''}''"

subsection \<open>Reading\<close>

definition is_ws :: "char \<Rightarrow> bool" where
  "is_ws c \<longleftrightarrow> c = CHR '' '' \<or> of_char c = (9 :: nat) \<or> of_char c = (10 :: nat) \<or> of_char c = (13 :: nat)"

definition skip_ws :: "string \<Rightarrow> string" where
  "skip_ws s = dropWhile is_ws s"

definition hex_val :: "char \<Rightarrow> nat option" where
  "hex_val c =
     (let n = of_char c :: nat in
      if 48 \<le> n \<and> n \<le> 57 then Some (n - 48)
      else if 97 \<le> n \<and> n \<le> 102 then Some (n - 87)
      else if 65 \<le> n \<and> n \<le> 70 then Some (n - 55) else None)"

text \<open>
  The text after the opening quote.  A code point from 256 on has no place in the
  type \<^typ>\<open>char\<close> and is refused; the writer of this program's strings never emits one.
\<close>

definition unescape :: "char \<Rightarrow> char option" where
  "unescape e =
     (if e = CHR 0x22 \<or> e = CHR 0x5C \<or> e = CHR ''/'' then Some e
      else if e = CHR ''n'' then Some (CHR 0x0A)
      else if e = CHR ''r'' then Some (CHR 0x0D)
      else if e = CHR ''t'' then Some (CHR 0x09)
      else if e = CHR ''f'' then Some (CHR 0x0C)
      else if e = CHR ''b'' then Some (CHR 0x08)
      else None)"

fun read_string :: "string \<Rightarrow> (string \<times> string) option" where
  "read_string [] = None"
| "read_string (c # cs) =
     (if c = CHR 0x22 then Some ([], cs)
      else if of_char c < (32 :: nat) then None
      else if c \<noteq> CHR 0x5C then map_option (\<lambda>(s, r). (c # s, r)) (read_string cs)
      else case cs of
          [] \<Rightarrow> None
        | e # es \<Rightarrow>
            if e \<noteq> CHR ''u'' then
              (case unescape e of
                 None \<Rightarrow> None
               | Some d \<Rightarrow> map_option (\<lambda>(s, r). (d # s, r)) (read_string es))
            else
              (case es of
                 h1 # h2 # h3 # h4 # rest \<Rightarrow>
                   (case (hex_val h1, hex_val h2, hex_val h3, hex_val h4) of
                      (Some 0, Some 0, Some a, Some b) \<Rightarrow>
                        map_option (\<lambda>(s, r). (char_of (16 * a + b) # s, r)) (read_string rest)
                    | _ \<Rightarrow> None)
               | _ \<Rightarrow> None))"

definition is_number_char :: "char \<Rightarrow> bool" where
  "is_number_char c \<longleftrightarrow> is_digit c \<or> c \<in> set ''-+.eE''"

definition number_value :: "string \<Rightarrow> json option" where
  "number_value t =
     (let (neg, ds) = parse_sign t in
      if t = [] \<or> hd t = CHR ''+'' \<or> ds = [] \<or> \<not> is_digit (hd ds) then None
      else if list_all is_digit ds then
        (if hd ds = CHR ''0'' \<and> 1 < length ds then None
         else Some (JInt (if neg then - int (parse_nat ds) else int (parse_nat ds))))
      else if dec_parse t \<noteq> None then Some (JFloat t) else None)"

definition read_number :: "string \<Rightarrow> (json \<times> string) option" where
  "read_number s =
     map_option (\<lambda>v. (v, dropWhile is_number_char s)) (number_value (takeWhile is_number_char s))"

definition read_literal :: "string \<Rightarrow> json \<Rightarrow> string \<Rightarrow> (json \<times> string) option" where
  "read_literal w v s = (if take (length w) s = w then Some (v, drop (length w) s) else None)"

text \<open>A key that occurs twice keeps its last value, as in a \<^verbatim>\<open>dict\<close>.\<close>

definition put_key :: "string \<Rightarrow> json \<Rightarrow> (string \<times> json) list \<Rightarrow> (string \<times> json) list" where
  "put_key k v kvs = (if k \<in> fst ` set kvs then kvs else (k, v) # kvs)"

fun read_value :: "nat \<Rightarrow> string \<Rightarrow> (json \<times> string) option"
  and read_items :: "nat \<Rightarrow> string \<Rightarrow> (json list \<times> string) option"
  and read_members :: "nat \<Rightarrow> string \<Rightarrow> ((string \<times> json) list \<times> string) option" where
  "read_value 0 s = None"
| "read_value (Suc n) s =
     (case s of
        [] \<Rightarrow> None
      | c # cs \<Rightarrow>
          if c = CHR 0x22 then map_option (\<lambda>(t, r). (JStr t, r)) (read_string cs)
          else if c = CHR ''['' then
            (case skip_ws cs of
               [] \<Rightarrow> None
             | d # ds \<Rightarrow>
                 if d = CHR '']'' then Some (JArr [], ds)
                 else map_option (\<lambda>(js, r). (JArr js, r)) (read_items n (d # ds)))
          else if c = CHR ''{'' then
            (case skip_ws cs of
               [] \<Rightarrow> None
             | d # ds \<Rightarrow>
                 if d = CHR ''}'' then Some (JObj [], ds)
                 else map_option (\<lambda>(kvs, r). (JObj kvs, r)) (read_members n (d # ds)))
          else if c = CHR ''n'' then read_literal ''null'' JNull s
          else if c = CHR ''t'' then read_literal ''true'' (JBool True) s
          else if c = CHR ''f'' then read_literal ''false'' (JBool False) s
          else read_number s)"
| "read_items 0 s = None"
| "read_items (Suc n) s =
     (case read_value n s of
        None \<Rightarrow> None
      | Some (j, r) \<Rightarrow>
          (case skip_ws r of
             [] \<Rightarrow> None
           | d # ds \<Rightarrow>
               if d = CHR '']'' then Some ([j], ds)
               else if d = CHR '','' then
                 map_option (\<lambda>(js, r'). (j # js, r')) (read_items n (skip_ws ds))
               else None))"
| "read_members 0 s = None"
| "read_members (Suc n) s =
     (case s of
        [] \<Rightarrow> None
      | q # qs \<Rightarrow>
          if q \<noteq> CHR 0x22 then None
          else case read_string qs of
              None \<Rightarrow> None
            | Some (k, r) \<Rightarrow>
                (case skip_ws r of
                   [] \<Rightarrow> None
                 | d # ds \<Rightarrow>
                     if d \<noteq> CHR '':'' then None
                     else case read_value n (skip_ws ds) of
                         None \<Rightarrow> None
                       | Some (v, r1) \<Rightarrow>
                           (case skip_ws r1 of
                              [] \<Rightarrow> None
                            | e # es \<Rightarrow>
                                if e = CHR ''}'' then Some ([(k, v)], es)
                                else if e = CHR '','' then
                                  map_option (\<lambda>(kvs, r2). (put_key k v kvs, r2))
                                    (read_members n (skip_ws es))
                                else None)))"

definition json_loads :: "string \<Rightarrow> json option" where
  "json_loads s =
     (case read_value (Suc (length s)) (skip_ws s) of
        Some (j, r) \<Rightarrow> if skip_ws r = [] then Some j else None
      | None \<Rightarrow> None)"

subsection \<open>The reader inverts the writer\<close>

definition float_text :: "string \<Rightarrow> bool" where
  "float_text t \<longleftrightarrow> list_all is_number_char t \<and> number_value t = Some (JFloat t)"

fun json_ok :: "json \<Rightarrow> bool" where
  "json_ok (JFloat t) = float_text t"
| "json_ok (JArr js) = list_all json_ok js"
| "json_ok (JObj kvs) = (distinct (map fst kvs) \<and> list_all (\<lambda>(k, v). json_ok v) kvs)"
| "json_ok _ = True"

lemma hex_val_digit: "n < 16 \<Longrightarrow> hex_val (hex_digit n) = Some n"
  by (simp add: hex_val_def hex_digit_def Let_def)

lemma hex_val_zero [simp]: "hex_val (CHR ''0'') = Some 0"
  by (simp add: hex_val_def)

lemma read_string_escape:
  "read_string (escape_char c @ r) = map_option (\<lambda>(s, q). (c # s, q)) (read_string r)"
proof -
  have inv: "char_of (of_char c :: nat) = c" by simp
  have lt: "(of_char c :: nat) < 256" by (rule nat_of_char_less_256)
  then have "(of_char c :: nat) div 16 < 16" by (simp add: less_mult_imp_div_less)
  then show ?thesis
    using inv hex_val_digit [of "of_char c div 16"] hex_val_digit [of "of_char c mod 16"]
    by (auto simp: escape_char_def Let_def unescape_def)
qed

lemma read_string_json:
  "read_string (concat (map escape_char s) @ CHR 0x22 # r) = Some (s, r)"
  by (induction s) (simp_all add: read_string_escape)

lemma skip_ws_simps [simp]:
  "skip_ws [] = []" "\<not> is_ws c \<Longrightarrow> skip_ws (c # cs) = c # cs" "skip_ws (CHR '' '' # cs) = skip_ws cs"
  by (simp_all add: skip_ws_def is_ws_def)

lemma not_is_ws [simp]:
  "\<not> is_ws (CHR '']'')" "\<not> is_ws (CHR ''}'')" "\<not> is_ws (CHR '','')" "\<not> is_ws (CHR '':'')"
  "\<not> is_ws (CHR 0x22)" "\<not> is_ws (CHR ''['')" "\<not> is_ws (CHR ''{'')"
  by (simp_all add: is_ws_def)

text \<open>The first character of a written value decides how it is read.\<close>

definition ends_number :: "string \<Rightarrow> bool" where
  "ends_number r \<longleftrightarrow> r = [] \<or> \<not> is_number_char (hd r)"

lemma takeWhile_number:
  assumes "list_all is_number_char t" and "ends_number r"
  shows "takeWhile is_number_char (t @ r) = t" and "dropWhile is_number_char (t @ r) = r"
proof -
  have "takeWhile is_number_char r = []" "dropWhile is_number_char r = r"
    using assms(2) by (cases r; simp add: ends_number_def)+
  with assms(1) show "takeWhile is_number_char (t @ r) = t" "dropWhile is_number_char (t @ r) = r"
    by (simp_all add: takeWhile_append2 dropWhile_append2 list_all_iff)
qed

lemma read_number_text:
  "list_all is_number_char t \<Longrightarrow> ends_number r \<Longrightarrow> number_value t = Some v \<Longrightarrow>
     read_number (t @ r) = Some (v, r)"
  by (simp add: read_number_def takeWhile_number)

lemma digit_number_char: "is_digit c \<Longrightarrow> is_number_char c"
  by (simp add: is_number_char_def)

lemma hd_show_nat:
  "is_digit (hd (show_nat n))" "hd (show_nat n) = CHR ''0'' \<Longrightarrow> length (show_nat n) = 1"
proof -
  show "is_digit (hd (show_nat n))"
    using digits_show_nat [of n] by (cases "show_nat n") (auto simp: list_all_iff)
  show "hd (show_nat n) = CHR ''0'' \<Longrightarrow> length (show_nat n) = 1"
  proof (induction n rule: show_nat.induct)
    case (1 n)
    show ?case
    proof (cases "n < 10")
      case True
      then show ?thesis by (subst show_nat.simps) simp
    next
      case False
      with "1.prems" have "hd (show_nat (n div 10)) = CHR ''0''"
        by (subst (asm) show_nat.simps) simp
      with False "1.IH" have "length (show_nat (n div 10)) = 1" by simp
      then obtain c where c: "show_nat (n div 10) = [c]" by (auto simp: length_Suc_conv)
      with \<open>hd (show_nat (n div 10)) = CHR ''0''\<close> have "parse_nat (show_nat (n div 10)) = 0"
        by (simp add: parse_nat_def)
      with False show ?thesis by simp
    qed
  qed
qed

lemma number_value_int: "number_value (show_int i) = Some (JInt i)"
proof -
  have "list_all is_digit (show_nat (nat \<bar>i\<bar>))" "show_nat (nat \<bar>i\<bar>) \<noteq> []"
    by (simp_all add: digits_show_nat)
  moreover obtain c cs where c: "show_nat (nat \<bar>i\<bar>) = c # cs" by (cases "show_nat (nat \<bar>i\<bar>)") auto
  moreover have "is_digit c" "c = CHR ''0'' \<Longrightarrow> cs = []"
    using hd_show_nat [of "nat \<bar>i\<bar>"] c by auto
  moreover have "parse_nat (c # cs) = nat \<bar>i\<bar>" using c parse_show_nat [of "nat \<bar>i\<bar>"] by simp
  ultimately show ?thesis
    by (auto simp: number_value_def show_int_def parse_sign_digit)
qed

lemma show_int_chars: "list_all is_number_char (show_int i)" "show_int i \<noteq> []"
  using digits_show_nat [of "nat \<bar>i\<bar>"]
  by (auto simp: show_int_def list_all_iff digit_number_char is_number_char_def)

lemma number_value_hd:
  "number_value t = Some v \<Longrightarrow> t \<noteq> [] \<and> (is_digit (hd t) \<or> hd t = CHR ''-'')"
  by (cases t) (auto simp: number_value_def parse_sign_def split: if_splits)

lemma read_value_number:
  assumes "list_all is_number_char t" and "number_value t = Some v" and "ends_number r"
  shows "read_value (Suc n) (t @ r) = Some (v, r)"
proof -
  from number_value_hd [OF assms(2)] obtain c cs where t: "t = c # cs" "is_digit c \<or> c = CHR ''-''"
    by (cases t) auto
  then have "c \<notin> set ''[{ntf''" "c \<noteq> CHR 0x22" by (auto simp: is_digit_def)
  with t read_number_text [OF assms(1,3,2)] show ?thesis by simp
qed

lemma json_dumps_nonempty: "json_ok j \<Longrightarrow> json_dumps j \<noteq> []"
  by (cases j) (auto simp: show_int_chars json_string_def float_text_def number_value_def)

lemma ends_number_simps [simp]:
  "ends_number []" "ends_number (CHR '','' # r)" "ends_number (CHR '']'' # r)" "ends_number (CHR ''}'' # r)"
  by (simp_all add: ends_number_def is_number_char_def is_digit_def)

text \<open>\<open>reads j\<close>: with enough fuel the reader returns \<open>j\<close> from its text, whatever follows.\<close>

definition reads :: "json \<Rightarrow> bool" where
  "reads j \<longleftrightarrow> (\<forall>n r. ends_number r \<longrightarrow> length (json_dumps j) \<le> n \<longrightarrow>
     read_value n (json_dumps j @ r) = Some (j, r))"

lemma readsD:
  "reads j \<Longrightarrow> ends_number r \<Longrightarrow> length (json_dumps j) \<le> n \<Longrightarrow>
     read_value n (json_dumps j @ r) = Some (j, r)"
  by (simp add: reads_def)

lemma hd_json_dumps: "json_ok j \<Longrightarrow> \<exists>c cs. json_dumps j = c # cs \<and> \<not> is_ws c \<and> c \<noteq> CHR '']''"
proof (cases j)
  case (JInt i)
  then show ?thesis
    using show_int_chars [of i] by (cases "show_int i") (auto simp: is_number_char_def is_ws_def is_digit_def)
next
  case (JFloat t)
  assume "json_ok j"
  with JFloat show ?thesis
    by (cases t) (auto simp: float_text_def number_value_def is_number_char_def is_ws_def is_digit_def)
qed (auto simp: json_string_def is_ws_def)

lemma read_items_dumps:
  assumes "\<And>j. j \<in> set js \<Longrightarrow> reads j \<and> json_ok j" and "js \<noteq> []"
    and "Suc (length (join_comma (map json_dumps js))) \<le> n"
  shows "read_items n (join_comma (map json_dumps js) @ CHR '']'' # r) = Some (js, r)"
  using assms
proof (induction js arbitrary: n)
  case (Cons j js)
  obtain m where n: "n = Suc m" using Cons.prems(3) by (cases n) auto
  have j: "reads j" "json_ok j" using Cons.prems(1) [of j] by simp_all
  show ?case
  proof (cases js)
    case Nil
    with Cons.prems(3) n readsD [OF j(1), of "CHR '']'' # r" m] show ?thesis by simp
  next
    case (Cons k ks)
    let ?rest = "join_comma (map json_dumps js)"
    have app: "join_comma (map json_dumps (j # js)) = json_dumps j @ '', '' @ ?rest"
      using Cons by simp
    obtain c cs where "?rest = c # cs" "\<not> is_ws c"
      using hd_json_dumps [of k] Cons.prems(1) [of k] Cons by (cases ks) auto
    then have "skip_ws (CHR '' '' # ?rest @ CHR '']'' # r) = ?rest @ CHR '']'' # r" by simp
    moreover have "read_items m (?rest @ CHR '']'' # r) = Some (js, r)"
      using Cons.prems Cons n app by (intro Cons.IH) auto
    moreover have "read_value m (json_dumps j @ CHR '','' # CHR '' '' # ?rest @ CHR '']'' # r) =
        Some (j, CHR '','' # CHR '' '' # ?rest @ CHR '']'' # r)"
      using Cons.prems(3) n app by (intro readsD [OF j(1)]) simp_all
    ultimately show ?thesis unfolding app n by simp
  qed
qed simp

lemma read_members_dumps:
  assumes "\<And>k v. (k, v) \<in> set kvs \<Longrightarrow> reads v \<and> json_ok v" and "kvs \<noteq> []" and "distinct (map fst kvs)"
    and "Suc (length (join_comma (map (\<lambda>(k, v). json_string k @ '': '' @ json_dumps v) kvs))) \<le> n"
  shows "read_members n (join_comma (map (\<lambda>(k, v). json_string k @ '': '' @ json_dumps v) kvs)
    @ CHR ''}'' # r) = Some (kvs, r)"
  using assms
proof (induction kvs arbitrary: n)
  case (Cons kv kvs)
  obtain k v where kv: "kv = (k, v)" by fastforce
  obtain m where n: "n = Suc m" using Cons.prems(4) by (cases n) auto
  have v: "reads v" "json_ok v" using Cons.prems(1) [of k v] kv by simp_all
  obtain c cs where c: "json_dumps v = c # cs" "\<not> is_ws c" using hd_json_dumps [OF v(2)] by blast
  let ?t = "\<lambda>(k, v). json_string k @ '': '' @ json_dumps v"
  let ?rest = "join_comma (map ?t kvs)"
  have val: "read_value m (json_dumps v @ q) = Some (v, q)" if "ends_number q" for q
    using that Cons.prems(4) n kv by (intro readsD [OF v(1)]) (cases kvs; auto)+
  have key: "read_string (concat (map escape_char k) @ CHR 0x22 # q) = Some (k, q)" for q
    by (rule read_string_json)
  show ?case
  proof (cases kvs)
    case Nil
    with val [of "CHR ''}'' # r"] key c n kv show ?thesis by (simp add: json_string_def)
  next
    case (Cons kw kws)
    obtain d ds where "?rest = d # ds" "\<not> is_ws d"
      using Cons by (cases kws; cases kw) (auto simp: json_string_def)
    then have ws: "skip_ws (CHR '' '' # ?rest @ CHR ''}'' # r) = ?rest @ CHR ''}'' # r" by simp
    have "read_members m (?rest @ CHR ''}'' # r) = Some (kvs, r)"
      using Cons.prems Cons n kv by (intro Cons.IH) auto
    moreover have "put_key k v kvs = (k, v) # kvs"
      using Cons.prems(3) kv by (auto simp: put_key_def)
    ultimately show ?thesis
      using val [of "CHR '','' # CHR '' '' # ?rest @ CHR ''}'' # r"] key ws c n kv Cons
      by (simp add: json_string_def)
  qed
qed simp

lemma readsI:
  assumes "json_ok j"
    and "\<And>m r. ends_number r \<Longrightarrow> length (json_dumps j) \<le> Suc m \<Longrightarrow>
      read_value (Suc m) (json_dumps j @ r) = Some (j, r)"
  shows "reads j"
  unfolding reads_def
proof (intro allI impI)
  fix n r
  assume r: "ends_number r" and n: "length (json_dumps j) \<le> n"
  with json_dumps_nonempty [OF assms(1)] obtain m where "n = Suc m" by (cases n) auto
  with assms(2) r n show "read_value n (json_dumps j @ r) = Some (j, r)" by simp
qed

lemma reads_array:
  assumes "\<And>j. j \<in> set js \<Longrightarrow> reads j \<and> json_ok j"
  shows "reads (JArr js)"
proof (rule readsI)
  show "json_ok (JArr js)" using assms by (simp add: list_all_iff)
next
  fix m r
  assume n: "length (json_dumps (JArr js)) \<le> Suc m"
  show "read_value (Suc m) (json_dumps (JArr js) @ r) = Some (JArr js, r)"
  proof (cases js)
    case (Cons k ks)
    then obtain c cs where "join_comma (map json_dumps js) = c # cs" "\<not> is_ws c" "c \<noteq> CHR '']''"
      using hd_json_dumps [of k] assms [of k] by (cases ks) auto
    with read_items_dumps [of js m r] assms n Cons show ?thesis by simp
  qed simp
qed

lemma reads_object:
  assumes "\<And>k v. (k, v) \<in> set kvs \<Longrightarrow> reads v \<and> json_ok v" and "distinct (map fst kvs)"
  shows "reads (JObj kvs)"
proof (rule readsI)
  show "json_ok (JObj kvs)" using assms by (auto simp: list_all_iff)
next
  fix m r
  assume n: "length (json_dumps (JObj kvs)) \<le> Suc m"
  show "read_value (Suc m) (json_dumps (JObj kvs) @ r) = Some (JObj kvs, r)"
  proof (cases kvs)
    case (Cons kw kws)
    then obtain cs where
      "join_comma (map (\<lambda>(k, v). json_string k @ '': '' @ json_dumps v) kvs) = CHR 0x22 # cs"
      by (cases kws; cases kw) (auto simp: json_string_def)
    with read_members_dumps [of kvs m r] assms n Cons show ?thesis by simp
  qed simp
qed

lemma reads_all: "json_ok j \<Longrightarrow> reads j"
proof (induction j)
  case (JArr js)
  then show ?case by (intro reads_array) (auto simp: list_all_iff)
next
  case (JObj kvs)
  then show ?case by (intro reads_object) (fastforce simp: list_all_iff)+
qed (auto intro!: readsI simp: json_string_def read_string_json read_literal_def float_text_def
    read_value_number [OF show_int_chars(1) number_value_int] read_value_number simp del: read_value.simps(2)
    split: if_splits; simp add: read_string_json read_literal_def)+

lemma loads_dumps: "json_ok j \<Longrightarrow> json_loads (json_dumps j) = Some j"
proof -
  assume j: "json_ok j"
  obtain c cs where "json_dumps j = c # cs" "\<not> is_ws c" using hd_json_dumps [OF j] by blast
  moreover have "read_value (Suc (length (json_dumps j))) (json_dumps j @ []) = Some (j, [])"
    by (rule readsD [OF reads_all [OF j]]) simp_all
  ultimately show ?thesis by (simp add: json_loads_def del: read_value.simps)
qed

lemma json_dumps_inject: "json_ok i \<Longrightarrow> json_ok j \<Longrightarrow> json_dumps i = json_dumps j \<Longrightarrow> i = j"
  using loads_dumps by (metis option.inject)

lemma json_dumps_eq_iff: "json_ok i \<Longrightarrow> json_ok j \<Longrightarrow> json_dumps i = json_dumps j \<longleftrightarrow> i = j"
  using json_dumps_inject by blast

end
