(* ===== verification/Cache.thy ===== *)
theory Cache
  imports Requests Metrics Json
begin

text \<open>
  \<^verbatim>\<open>app/core/cache.py\<close>: the keys of the response cache and the cache-aside decorator.  A
  cached handler returns either its own result (\<open>Fresh\<close>) or the JSON value read back from
  Redis (\<open>Cached\<close>).  The locale \<open>cached_reads\<close> is the contract of one decorated handler
  with the store: what it serves was returned by the handler for a request with the same
  key, less than the time to live ago.
\<close>

subsection \<open>The arguments of a decorated handler\<close>

datatype handler_arg = RequestArg request | ValueArg json

fun extract_request_for_cache ::
  "handler_arg list \<Rightarrow> (string \<times> handler_arg) list \<Rightarrow>
     (request \<times> handler_arg list \<times> (string \<times> handler_arg) list) result" where
  "extract_request_for_cache (RequestArg req # args) kwargs = Inr (req, args, kwargs)"
| "extract_request_for_cache args kwargs =
     (case map_of kwargs ''request'' of
        None \<Rightarrow> Inl (UnexpectedError ''KeyError'')
      | Some (ValueArg v) \<Rightarrow> Inl (UnexpectedError ''AttributeError'')
      | Some (RequestArg req) \<Rightarrow> Inr (req, args, filter (\<lambda>(k, v). k \<noteq> ''request'') kwargs))"

text \<open>
  The rate limiter looks for the request in the same arguments (\<^verbatim>\<open>_find_request\<close> of
  \<^verbatim>\<open>app/core/rate_limit.py\<close>), by keyword first.  FastAPI passes it by keyword, and then both
  find the same one.
\<close>

definition find_request :: "handler_arg list \<Rightarrow> (string \<times> handler_arg) list \<Rightarrow> request option" where
  "find_request args kwargs =
     (case map_of kwargs ''request'' of
        Some (RequestArg req) \<Rightarrow> Some req
      | _ \<Rightarrow> (case List.find (\<lambda>a. case a of RequestArg r \<Rightarrow> True | ValueArg v \<Rightarrow> False) args of
                Some (RequestArg req) \<Rightarrow> Some req
              | _ \<Rightarrow> None))"

lemma found_requests_agree:
  assumes "map_of kwargs ''request'' = Some (RequestArg req)" and "list_all (\<lambda>a. \<exists>v. a = ValueArg v) args"
  shows "find_request args kwargs = Some req"
    and "extract_request_for_cache args kwargs = Inr (req, args, filter (\<lambda>(k, v). k \<noteq> ''request'') kwargs)"
  using assms by (cases args; auto simp: find_request_def)+

subsection \<open>Keys\<close>

definition cache_identity :: "settings \<Rightarrow> crypto \<Rightarrow> request \<Rightarrow> string" where
  "cache_identity S C req =
     (if AUTH_REQUIRED S then
        (let auth_header = (case header req ''Authorization'' of None \<Rightarrow> ''anon'' | Some h \<Rightarrow> h)
         in take 16 (sha256_hex C auth_header))
      else (case header req SESSION_HEADER of None \<Rightarrow> ''anon'' | Some s \<Rightarrow> s))"

definition raw_cache_key :: "settings \<Rightarrow> crypto \<Rightarrow> request \<Rightarrow> string" where
  "raw_cache_key S C req = json_dumps (JObj
     [(''identity'', JStr (cache_identity S C req)), (''path'', JStr (rq_path req)),
      (''query'', JStr (rq_query req))])"

definition make_cache_key :: "settings \<Rightarrow> crypto \<Rightarrow> string \<Rightarrow> request \<Rightarrow> string" where
  "make_cache_key S C prefix req = prefix @ '':'' @ sha256_hex C (raw_cache_key S C req)"

definition make_cache_key_no_session :: "crypto \<Rightarrow> string \<Rightarrow> request \<Rightarrow> string" where
  "make_cache_key_no_session C prefix req =
     prefix @ '':'' @ sha256_hex C (json_dumps (JObj
       [(''path'', JStr (rq_path req)), (''query'', JStr (rq_query req))]))"

subsection \<open>The decorator\<close>

datatype 'a served = Fresh 'a | Cached json

text \<open>
  \<open>t_get\<close> and \<open>t_set\<close> are the instants of the two Redis commands; \<open>encode\<close> is what
  \<^verbatim>\<open>jsonable_encoder\<close> makes of the handler's result; \<open>fn\<close> is the handler.
\<close>

definition redis_cache ::
  "'r redis_ops \<Rightarrow> (string \<Rightarrow> request \<Rightarrow> string) \<Rightarrow> string \<Rightarrow> seconds \<Rightarrow> ('a \<Rightarrow> json) \<Rightarrow>
     instant \<Rightarrow> instant \<Rightarrow> handler_arg list \<Rightarrow> (string \<times> handler_arg) list \<Rightarrow>
     ('r app \<Rightarrow> 'a result \<times> 'r app) \<Rightarrow> 'r app \<Rightarrow> 'a served result \<times> 'r app" where
  "redis_cache R key_func prefix ttl encode t_get t_set args kwargs fn a =
     (case extract_request_for_cache args kwargs of
        Inl e \<Rightarrow> (Inl e, a)
      | Inr (req, cache_args, cache_kwargs) \<Rightarrow>
          (let key = key_func prefix req;
               cached = r_get R (app_redis a) t_get key
           in if cached \<noteq> None \<and> cached \<noteq> Some [] then
                (case json_loads (the cached) of
                   None \<Rightarrow> (Inl (UnexpectedError ''JSONDecodeError''), a)
                 | Some j \<Rightarrow> (Inr (Cached j), a))
              else
                (case fn a of
                   (Inl e, a') \<Rightarrow> (Inl e, a')
                 | (Inr result, a') \<Rightarrow>
                     (Inr (Fresh result),
                      a'\<lparr>app_redis := r_set R (app_redis a') t_set key
                           (json_dumps (encode result)) (Some ttl)\<rparr>))))"

subsection \<open>Which requests share a key\<close>

text \<open>Two texts with one digest.\<close>

definition sha_collision :: "crypto \<Rightarrow> string \<Rightarrow> string \<Rightarrow> bool" where
  "sha_collision C a b \<longleftrightarrow> a \<noteq> b \<and> sha256_hex C a = sha256_hex C b"

lemma raw_cache_key_eq_iff:
  "raw_cache_key S C rq = raw_cache_key S C rq' \<longleftrightarrow>
     cache_identity S C rq = cache_identity S C rq' \<and> rq_path rq = rq_path rq' \<and> rq_query rq = rq_query rq'"
  unfolding raw_cache_key_def by (subst json_dumps_eq_iff) simp_all

lemma make_cache_key_eq_iff:
  "make_cache_key S C prefix rq = make_cache_key S C prefix rq' \<longleftrightarrow>
     cache_identity S C rq = cache_identity S C rq' \<and> rq_path rq = rq_path rq' \<and>
       rq_query rq = rq_query rq' \<or>
     sha_collision C (raw_cache_key S C rq) (raw_cache_key S C rq')"
  unfolding raw_cache_key_eq_iff [symmetric] by (auto simp: make_cache_key_def sha_collision_def)

lemma redis_cache_keyword:
  "redis_cache R key_func prefix ttl encode t1 t2 [] ((''request'', RequestArg req) # kwargs) fn =
   redis_cache R key_func prefix ttl encode t1 t2 [RequestArg req] [] fn"
  by (rule ext) (simp add: redis_cache_def)

subsection \<open>The history of a cached handler\<close>

definition has_prefix :: "string \<Rightarrow> string \<Rightarrow> bool" where
  "has_prefix prefix k \<longleftrightarrow> take (Suc (length prefix)) k = prefix @ '':''"

lemma has_prefix_keys [simp]:
  "has_prefix prefix (make_cache_key S C prefix req)"
  "has_prefix prefix (make_cache_key_no_session C prefix req)"
  by (simp_all add: has_prefix_def make_cache_key_def make_cache_key_no_session_def)

text \<open>
  \<open>untouched R prefix t r r'\<close>: from \<open>t\<close> on the store \<open>r'\<close> shows under this prefix what
  \<open>r\<close> shows, or nothing (expiry, eviction, deletion).
\<close>

definition untouched :: "'r redis_ops \<Rightarrow> string \<Rightarrow> instant \<Rightarrow> 'r \<Rightarrow> 'r \<Rightarrow> bool" where
  "untouched R prefix t r r' \<longleftrightarrow>
     (\<forall>u \<ge> t. \<forall>k. has_prefix prefix k \<longrightarrow> r_get R r' u k = None \<or> r_get R r' u k = r_get R r u k)"

text \<open>Every live entry was written at one of the recorded fills (instant, key, value).\<close>

definition explained :: "'r redis_ops \<Rightarrow> string \<Rightarrow> seconds \<Rightarrow> instant \<Rightarrow> (instant \<times> string \<times> json) list \<Rightarrow> 'r \<Rightarrow> bool" where
  "explained R prefix ttl t fills r \<longleftrightarrow>
     (\<forall>u \<ge> t. \<forall>k v. has_prefix prefix k \<longrightarrow> r_get R r u k = Some v \<longrightarrow>
        (\<exists>t0 j. (t0, k, j) \<in> set fills \<and> json_ok j \<and> v = json_dumps j \<and> t0 \<le> u \<and> u < t0 + ttl))"

lemma explained_untouched:
  "explained R prefix ttl t fills r \<Longrightarrow> t \<le> t' \<Longrightarrow> untouched R prefix t' r r' \<Longrightarrow>
     explained R prefix ttl t' fills r'"
  unfolding explained_def untouched_def by (metis option.distinct(1) order_trans)

lemma untouched_refl [simp]: "untouched R prefix t r r"
  by (simp add: untouched_def)

lemma explained_later: "explained R prefix ttl t fills r \<Longrightarrow> t \<le> t' \<Longrightarrow> explained R prefix ttl t' fills r"
  by (rule explained_untouched [OF _ _ untouched_refl])

lemma explained_more: "explained R prefix ttl t fills r \<Longrightarrow> explained R prefix ttl t (fill # fills) r"
  by (fastforce simp: explained_def)

locale cached_reads = redis_store R for R :: "'r redis_ops" +
  fixes key_func :: "string \<Rightarrow> request \<Rightarrow> string" and encode :: "'a \<Rightarrow> json"
  assumes key_prefix: "has_prefix prefix (key_func prefix req)"
    and encode_ok: "json_ok (encode x)"
begin

lemma explained_set:
  assumes "explained R prefix ttl t fills r" and "t \<le> t'"
  shows "explained R prefix ttl t' ((t', key_func prefix req, encode x) # fills)
    (r_set R r t' (key_func prefix req) (json_dumps (encode x)) (Some ttl))"
  unfolding explained_def
proof (intro allI impI)
  fix u k v
  assume u: "t' \<le> u" and k: "has_prefix prefix k"
    and v: "r_get R (r_set R r t' (key_func prefix req) (json_dumps (encode x)) (Some ttl)) u k = Some v"
  show "\<exists>t0 j. (t0, k, j) \<in> set ((t', key_func prefix req, encode x) # fills) \<and> json_ok j \<and>
      v = json_dumps j \<and> t0 \<le> u \<and> u < t0 + ttl"
  proof (cases "k = key_func prefix req")
    case True
    with v get_set [OF u] u encode_ok [of x] show ?thesis by (fastforce simp: live_def split: if_splits)
  next
    case False
    with v get_set [OF u] have "r_get R r u k = Some v" by simp
    with assms u k show ?thesis unfolding explained_def by (metis list.set_intros(2) order_trans)
  qed
qed

text \<open>One call: what it serves, and the history it leaves.\<close>

lemma cache_hit_explained:
  assumes "explained R prefix ttl t fills (app_redis a)" and "t \<le> t_get"
    and "redis_cache R key_func prefix ttl encode t_get t_set [RequestArg req] [] fn a = (Inr (Cached j), a')"
  shows "a' = a \<and> (\<exists>t0. (t0, key_func prefix req, j) \<in> set fills \<and> t0 \<le> t_get \<and> t_get < t0 + ttl)"
proof -
  obtain v where v: "r_get R (app_redis a) t_get (key_func prefix req) = Some v" "json_loads v = Some j"
      "a' = a"
    using assms(3) by (auto simp: redis_cache_def Let_def split: if_splits option.splits prod.splits sum.splits)
  moreover obtain t0 j' where "(t0, key_func prefix req, j') \<in> set fills" "json_ok j'" "v = json_dumps j'"
      "t0 \<le> t_get" "t_get < t0 + ttl"
    using assms(1,2) v(1) key_prefix [of prefix req] unfolding explained_def by blast
  ultimately show ?thesis using loads_dumps by auto
qed

lemma cache_no_decode_error:
  assumes "explained R prefix ttl t fills (app_redis a)" and "t \<le> t_get"
    and "redis_cache R key_func prefix ttl encode t_get t_set [RequestArg req] [] fn a = (Inl e, a')"
  shows "fn a = (Inl e, a')"
proof -
  have "json_loads v \<noteq> None" if "r_get R (app_redis a) t_get (key_func prefix req) = Some v" for v
    using that assms(1,2) key_prefix [of prefix req] loads_dumps unfolding explained_def by (metis option.distinct(1))
  with assms(3) show ?thesis
    by (auto simp: redis_cache_def Let_def split: if_splits option.splits prod.splits sum.splits)
qed

lemma cache_fresh:
  assumes "redis_cache R key_func prefix ttl encode t_get t_set [RequestArg req] [] fn a = (Inr (Fresh x), a')"
  shows "\<exists>a1. fn a = (Inr x, a1) \<and> a' = a1\<lparr>app_redis := r_set R (app_redis a1) t_set
    (key_func prefix req) (json_dumps (encode x)) (Some ttl)\<rparr>"
  using assms by (auto simp: redis_cache_def Let_def split: if_splits option.splits prod.splits sum.splits)

lemma cache_call_explained:
  assumes "explained R prefix ttl t fills (app_redis a)" and "t \<le> t_get" and "t_get \<le> t_set"
    and "redis_cache R key_func prefix ttl encode t_get t_set [RequestArg req] [] fn a = (res, a')"
    and "\<And>x a1. fn a = (x, a1) \<Longrightarrow> app_redis a1 = app_redis a"
  shows "explained R prefix ttl t_set
    (case res of Inr (Fresh x) \<Rightarrow> (t_set, key_func prefix req, encode x) # fills | _ \<Rightarrow> fills) (app_redis a')"
proof (cases res)
  case (Inl e)
  with cache_no_decode_error [OF assms(1,2)] assms(4,5) have "app_redis a' = app_redis a" by blast
  with Inl assms(2,3) explained_later [OF assms(1), of t_set] show ?thesis by simp
next
  case (Inr s)
  show ?thesis
  proof (cases s)
    case (Fresh x)
    with cache_fresh Inr assms(4,5) obtain a1 where a1: "app_redis a1 = app_redis a"
        "a' = a1\<lparr>app_redis := r_set R (app_redis a1) t_set (key_func prefix req) (json_dumps (encode x)) (Some ttl)\<rparr>"
      by blast
    have "t \<le> t_set" using assms(2,3) by simp
    from explained_set [OF assms(1) this, of req x] a1 Inr Fresh show ?thesis by simp
  next
    case (Cached j)
    with cache_hit_explained [OF assms(1,2)] Inr assms(4) have "a' = a" by blast
    with Inr Cached assms(2,3) explained_later [OF assms(1), of t_set] show ?thesis by simp
  qed
qed

end

end
