(* ===== verification/Api_Reads.thy ===== *)
theory Api_Reads
  imports Api_Guarantees Cache
begin

text \<open>
  The routes that only read: \<^verbatim>\<open>list_parcels\<close> and \<^verbatim>\<open>get_parcel\<close> (\<^verbatim>\<open>app/api/parcel.py\<close>),
  \<^verbatim>\<open>list_parcel_types\<close> (\<^verbatim>\<open>app/api/parcel_type.py\<close>) and \<^verbatim>\<open>healthcheck\<close>.  Their results
  go through the response cache; what comes back from Redis is validated by the route's
  response model and rendered again, as FastAPI does.  The typed response models are records
  (\<open>parcel_view\<close>, \<open>page\<close>) with a function to JSON and a validator from JSON.
\<close>

subsection \<open>Response models\<close>

record parcel_view =
  pv_id :: ident
  pv_name :: string
  pv_weight_kg :: decimal
  pv_declared_value_usd :: decimal
  pv_delivery_cost_rub :: "decimal option"
  pv_parcel_type :: parcel_type

record 'v page =
  page_items :: "'v list"
  page_total :: int
  page_limit :: int
  page_offset :: int

definition parcel_view_json :: "parcel_view \<Rightarrow> json" where
  "parcel_view_json v = JObj
     [(''id'', JStr (pv_id v)), (''name'', JStr (pv_name v)),
      (''weightKg'', decimal_json (Some (pv_weight_kg v))),
      (''declaredValueUsd'', decimal_json (Some (pv_declared_value_usd v))),
      (''deliveryCostRub'', decimal_json (pv_delivery_cost_rub v)),
      (''parcelType'', parcel_type_read (pv_parcel_type v))]"

definition page_json :: "('v \<Rightarrow> json) \<Rightarrow> 'v page \<Rightarrow> json" where
  "page_json item pg = JObj
     [(''items'', JArr (map item (page_items pg))), (''total'', JInt (page_total pg)),
      (''limit'', JInt (page_limit pg)), (''offset'', JInt (page_offset pg))]"

text \<open>Validation of a JSON value: the alias of a field first, then its name.\<close>

definition model_field :: "string \<Rightarrow> string \<Rightarrow> (string \<times> json) list \<Rightarrow> json option" where
  "model_field alias name kvs =
     (case map_of kvs alias of Some v \<Rightarrow> Some v | None \<Rightarrow> map_of kvs name)"

definition as_str :: "json option \<Rightarrow> string option" where
  "as_str v = (case v of Some (JStr s) \<Rightarrow> Some s | _ \<Rightarrow> None)"

definition as_int :: "json option \<Rightarrow> int option" where
  "as_int v = (case v of Some (JInt i) \<Rightarrow> Some i | _ \<Rightarrow> None)"

definition as_decimal :: "json option \<Rightarrow> decimal option" where
  "as_decimal v =
     (case v of
        Some (JStr s) \<Rightarrow> dec_parse s
      | Some (JFloat t) \<Rightarrow> dec_parse t
      | Some (JInt i) \<Rightarrow> Some (Dec (i < 0) (nat \<bar>i\<bar>) 0)
      | _ \<Rightarrow> None)"

definition as_optional_decimal :: "json option \<Rightarrow> decimal option option" where
  "as_optional_decimal v =
     (case v of None \<Rightarrow> Some None | Some JNull \<Rightarrow> Some None | Some j \<Rightarrow> map_option Some (as_decimal (Some j)))"

definition validate_type :: "json option \<Rightarrow> parcel_type option" where
  "validate_type v =
     (case v of
        Some (JObj kvs) \<Rightarrow>
          (case (as_str (model_field ''id'' ''id'' kvs), as_str (model_field ''name'' ''name'' kvs)) of
             (Some i, Some n) \<Rightarrow> Some \<lparr>pt_id = i, pt_name = n\<rparr>
           | _ \<Rightarrow> None)
      | _ \<Rightarrow> None)"

definition validate_view :: "json \<Rightarrow> parcel_view option" where
  "validate_view v =
     (case v of
        JObj kvs \<Rightarrow>
          (case (as_str (model_field ''id'' ''id'' kvs), as_str (model_field ''name'' ''name'' kvs),
                 as_decimal (model_field ''weightKg'' ''weight_kg'' kvs),
                 as_decimal (model_field ''declaredValueUsd'' ''declared_value_usd'' kvs),
                 as_optional_decimal (model_field ''deliveryCostRub'' ''delivery_cost_rub'' kvs),
                 validate_type (model_field ''parcelType'' ''parcel_type'' kvs)) of
             (Some i, Some n, Some w, Some u, Some c, Some t) \<Rightarrow>
               Some \<lparr>pv_id = i, pv_name = n, pv_weight_kg = w, pv_declared_value_usd = u,
                 pv_delivery_cost_rub = c, pv_parcel_type = t\<rparr>
           | _ \<Rightarrow> None)
      | _ \<Rightarrow> None)"

text \<open>All items of a list, or nothing.\<close>

fun map_all :: "('a \<Rightarrow> 'b option) \<Rightarrow> 'a list \<Rightarrow> 'b list option" where
  "map_all f [] = Some []"
| "map_all f (x # xs) =
     (case f x of None \<Rightarrow> None | Some y \<Rightarrow> map_option (\<lambda>ys. y # ys) (map_all f xs))"

definition validate_page :: "(json \<Rightarrow> 'v option) \<Rightarrow> json \<Rightarrow> 'v page option" where
  "validate_page item v =
     (case v of
        JObj kvs \<Rightarrow>
          (case (case map_of kvs ''items'' of Some (JArr js) \<Rightarrow> map_all item js | _ \<Rightarrow> None,
                 as_int (map_of kvs ''total''), as_int (map_of kvs ''limit''),
                 as_int (map_of kvs ''offset'')) of
             (Some xs, Some t, Some l, Some off) \<Rightarrow>
               Some \<lparr>page_items = xs, page_total = t, page_limit = l, page_offset = off\<rparr>
           | _ \<Rightarrow> None)
      | _ \<Rightarrow> None)"

text \<open>The value a route returned, rendered by its response model.\<close>

definition render :: "('a \<Rightarrow> 'm option) \<Rightarrow> (json \<Rightarrow> 'm option) \<Rightarrow> ('m \<Rightarrow> json) \<Rightarrow> 'a served \<Rightarrow> http_response result" where
  "render from_object from_json to_json s =
     (case (case s of Fresh x \<Rightarrow> from_object x | Cached j \<Rightarrow> from_json j) of
        None \<Rightarrow> Inl (UnexpectedError ''ResponseValidationError'')
      | Some m \<Rightarrow> Inr (plain_response 200 (to_json m)))"

definition respond_with :: "('a \<Rightarrow> http_response result) \<Rightarrow> 'a result \<times> 'w \<Rightarrow> http_response result \<times> 'w" where
  "respond_with f rw = (case rw of (res, w) \<Rightarrow> (bind_result res f, w))"

subsection \<open>Handlers\<close>

text \<open>\<^verbatim>\<open>ParcelRead\<close> from an ORM row with its type (\<^verbatim>\<open>from_attributes\<close>).\<close>

definition view_of :: "parcel \<times> parcel_type option \<Rightarrow> parcel_view option" where
  "view_of r =
     (case r of (p, ty) \<Rightarrow>
        map_option (\<lambda>t. \<lparr>pv_id = p_id p, pv_name = p_name p, pv_weight_kg = p_weight_kg p,
          pv_declared_value_usd = p_declared_value_usd p,
          pv_delivery_cost_rub = p_delivery_cost_rub p, pv_parcel_type = t\<rparr>) ty)"

definition list_parcels ::
  "settings \<Rightarrow> ident \<Rightarrow> pagination_params \<Rightarrow> parcel_filter_params \<Rightarrow> db \<Rightarrow> parcel_view page result" where
  "list_parcels S owner pagination filters db =
     (let (cnt, rows) = list_owned S owner filters (nat (pg_limit pagination)) (nat (pg_offset pagination)) db
      in case map_all view_of rows of
           None \<Rightarrow> Inl (UnexpectedError ''ValidationError'')
         | Some items \<Rightarrow> Inr \<lparr>page_items = items, page_total = int cnt,
             page_limit = pg_limit pagination, page_offset = pg_offset pagination\<rparr>)"

definition get_parcel ::
  "settings \<Rightarrow> ident \<Rightarrow> ident \<Rightarrow> db \<Rightarrow> (parcel \<times> parcel_type option) result" where
  "get_parcel S parcel_id owner db =
     (case get_owned S parcel_id owner db of
        Inl (UnauthorizedError m) \<Rightarrow> Inl (HTTPException 403 ''Forbidden'')
      | Inl (NotFoundError m) \<Rightarrow> Inl (HTTPException 404 ''Not found'')
      | res \<Rightarrow> res)"

definition list_parcel_types :: "pagination_params \<Rightarrow> db \<Rightarrow> parcel_type page result" where
  "list_parcel_types pagination db = Inr
     \<lparr>page_items = page_of (nat (pg_limit pagination)) (nat (pg_offset pagination)) (list_all_types db),
      page_total = int (total_types db), page_limit = pg_limit pagination,
      page_offset = pg_offset pagination\<rparr>"

text \<open>
  \<^verbatim>\<open>jsonable_encoder\<close> of the ORM object: its columns and the loaded type under their Python
  names; a \<^verbatim>\<open>Decimal\<close> becomes an \<^verbatim>\<open>int\<close> or a \<^verbatim>\<open>float\<close> by its exponent.  \<open>float_repr d\<close> is
  \<^verbatim>\<open>repr(float(d))\<close> for up to 15 significant digits and at most four decimal places, which
  every column value has (a double then identifies the decimal): the digits without
  trailing zeros, at least one of them after the point.
\<close>

fun drop_zeros :: "nat \<Rightarrow> nat \<Rightarrow> nat \<times> nat" where
  "drop_zeros c (Suc (Suc k)) = (if c mod 10 = 0 then drop_zeros (c div 10) (Suc k) else (c, Suc (Suc k)))"
| "drop_zeros c k = (c, k)"

definition float_repr :: "decimal \<Rightarrow> string" where
  "float_repr d =
     (let (c, k) = drop_zeros (dec_coeff d) (nat (- dec_exp d)) in dec_str (Dec (dec_neg d) c (- int k)))"

definition decimal_encoder :: "decimal \<Rightarrow> json" where
  "decimal_encoder d =
     (if 0 \<le> dec_exp d then JInt (dec_int d * 10 ^ nat (dec_exp d)) else JFloat (float_repr d))"

definition orm_json :: "parcel \<times> parcel_type option \<Rightarrow> json" where
  "orm_json r =
     (case r of (p, ty) \<Rightarrow> JObj
        [(''id'', JStr (p_id p)), (''name'', JStr (p_name p)),
         (''weight_kg'', decimal_encoder (p_weight_kg p)),
         (''declared_value_usd'', decimal_encoder (p_declared_value_usd p)),
         (''session_id'', JStr (p_session_id p)),
         (''delivery_cost_rub'',
           (case p_delivery_cost_rub p of None \<Rightarrow> JNull | Some c \<Rightarrow> decimal_encoder c)),
         (''parcel_type_id'', JStr (p_parcel_type_id p)),
         (''user_id'', (case p_user_id p of None \<Rightarrow> JNull | Some u \<Rightarrow> JStr u)),
         (''parcel_type'', (case ty of None \<Rightarrow> JNull | Some t \<Rightarrow>
           JObj [(''id'', JStr (pt_id t)), (''name'', JStr (pt_name t))]))])"

subsection \<open>Routes\<close>

text \<open>A query string FastAPI cannot convert raises with the list of its errors.\<close>

definition parsed :: "json list + 'a \<Rightarrow> 'a result" where
  "parsed q = (case q of Inl errs \<Rightarrow> Inl (RequestValidationError errs) | Inr x \<Rightarrow> Inr x)"

definition pagination_query :: "('r, 'l) platform \<Rightarrow> request \<Rightarrow> pagination_params result" where
  "pagination_query P req =
     bind_result (parsed (pf_page_query P (rq_query req))) (\<lambda>(l, off). parse_pagination l off)"

definition list_query :: "('r, 'l) platform \<Rightarrow> request \<Rightarrow> (pagination_params \<times> parcel_filter_params) result" where
  "list_query P req = bind_result (pagination_query P req) (\<lambda>pg.
     bind_result (parsed (pf_filter_query P (rq_query req))) (\<lambda>fs. Inr (pg, fs)))"

definition cached_list ::
  "('r, 'l) platform \<Rightarrow> instant \<Rightarrow> instant \<Rightarrow> request \<Rightarrow> ident \<Rightarrow> pagination_params \<Rightarrow>
     parcel_filter_params \<Rightarrow> 'r app \<Rightarrow> parcel_view page served result \<times> 'r app" where
  "cached_list P t_get t_set req owner_id pagination filters =
     (let S = pf_settings P in
      redis_cache (pf_redis P) (make_cache_key S (pf_crypto P)) ''parcels'' (CACHE_TTL_DEFAULT S)
        (page_json parcel_view_json) t_get t_set [] [(''request'', RequestArg req)]
        (\<lambda>a. (list_parcels S owner_id pagination filters (app_db a), a)))"

definition list_parcels_route ::
  "('r, 'l) platform \<Rightarrow> instant \<Rightarrow> instant \<Rightarrow> instant \<Rightarrow> request \<Rightarrow>
     ('r, 'l) world \<Rightarrow> http_response \<times> ('r, 'l) world" where
  "list_parcels_route P now t_get t_set req =
     (let S = pf_settings P in
      with_dependency (get_parcel_reader_owner_id S (pf_jwt P) now req (pf_bearer P req)) (\<lambda>owner_id.
        with_dependency (list_query P req) (\<lambda>(pagination, filters).
          limited P (RATE_LIMIT_LIST S) now req (\<lambda>a.
            respond_with (render Some (validate_page validate_view) (page_json parcel_view_json))
              (cached_list P t_get t_set req owner_id pagination filters a)))))"

text \<open>The path is \<^verbatim>\<open>/parcels/{parcel_id}\<close>.\<close>

definition path_parcel_id :: "request \<Rightarrow> ident" where
  "path_parcel_id req = drop 9 (rq_path req)"

definition cached_get ::
  "('r, 'l) platform \<Rightarrow> instant \<Rightarrow> instant \<Rightarrow> request \<Rightarrow> ident \<Rightarrow> 'r app \<Rightarrow>
     (parcel \<times> parcel_type option) served result \<times> 'r app" where
  "cached_get P t_get t_set req owner_id =
     (let S = pf_settings P in
      redis_cache (pf_redis P) (make_cache_key S (pf_crypto P)) ''parcel'' (CACHE_TTL_DEFAULT S)
        orm_json t_get t_set [] [(''request'', RequestArg req)]
        (\<lambda>a. (get_parcel S (path_parcel_id req) owner_id (app_db a), a)))"

definition get_parcel_route ::
  "('r, 'l) platform \<Rightarrow> instant \<Rightarrow> instant \<Rightarrow> instant \<Rightarrow> request \<Rightarrow>
     ('r, 'l) world \<Rightarrow> http_response \<times> ('r, 'l) world" where
  "get_parcel_route P now t_get t_set req =
     (let S = pf_settings P in
      with_dependency (get_parcel_reader_owner_id S (pf_jwt P) now req (pf_bearer P req)) (\<lambda>owner_id.
        limited P (RATE_LIMIT_DETAIL S) now req (\<lambda>a.
          respond_with (render view_of validate_view parcel_view_json)
            (cached_get P t_get t_set req owner_id a))))"

definition cached_types ::
  "('r, 'l) platform \<Rightarrow> instant \<Rightarrow> instant \<Rightarrow> request \<Rightarrow> pagination_params \<Rightarrow> 'r app \<Rightarrow>
     parcel_type page served result \<times> 'r app" where
  "cached_types P t_get t_set req pagination =
     redis_cache (pf_redis P) (make_cache_key_no_session (pf_crypto P)) ''parcel_types''
       (CACHE_TTL_DEFAULT (pf_settings P)) (page_json parcel_type_read) t_get t_set []
       [(''request'', RequestArg req)] (\<lambda>a. (list_parcel_types pagination (app_db a), a))"

definition list_parcel_types_route ::
  "('r, 'l) platform \<Rightarrow> instant \<Rightarrow> instant \<Rightarrow> instant \<Rightarrow> request \<Rightarrow>
     ('r, 'l) world \<Rightarrow> http_response \<times> ('r, 'l) world" where
  "list_parcel_types_route P now t_get t_set req =
     with_dependency (pagination_query P req) (\<lambda>pagination.
       limited P (RATE_LIMIT_PARCEL_TYPES (pf_settings P)) now req (\<lambda>a.
         respond_with (render Some (validate_page (\<lambda>j. validate_type (Some j))) (page_json parcel_type_read))
           (cached_types P t_get t_set req pagination a)))"

definition healthcheck :: http_response where
  "healthcheck = plain_response 200 (JObj [(''status'', JStr ''ok'')])"

end
