(* ===== verification/Read_Guarantees.thy ===== *)
theory Read_Guarantees
  imports Api_Reads
begin

text \<open>
  What the reading routes guarantee.  A response model reads back what it wrote, so a page
  served from the cache is, character by character, the page the handler returned when the
  entry was filled; entries are shared only between requests of the same identity, path and
  query (or on a SHA-256 collision) and live for \<^verbatim>\<open>CACHE_TTL_DEFAULT\<close> seconds.
\<close>

subsection \<open>Response models read back what they write\<close>

lemma as_decimal_json: "as_decimal (Some (decimal_json (Some d))) = Some d"
  by (simp add: as_decimal_def decimal_json_def dec_parse_str)

lemma as_optional_decimal_json: "as_optional_decimal (Some (decimal_json d)) = Some d"
  by (cases d) (simp_all add: as_optional_decimal_def decimal_json_def as_decimal_def dec_parse_str)

lemma validate_type_json: "validate_type (Some (parcel_type_read t)) = Some t"
  by (simp add: validate_type_def parcel_type_read_def model_field_def as_str_def)

lemma validate_view_json: "validate_view (parcel_view_json v) = Some v"
  unfolding validate_view_def parcel_view_json_def model_field_def
  by (simp add: as_str_def as_decimal_json as_optional_decimal_json validate_type_json)

lemma map_all_map: "(\<And>x. f (g x) = Some x) \<Longrightarrow> map_all f (map g xs) = Some xs"
  by (induction xs) simp_all

lemma validate_page_json: "(\<And>x. item (js x) = Some x) \<Longrightarrow> validate_page item (page_json js p) = Some p"
  by (simp add: validate_page_def page_json_def as_int_def map_all_map)

lemma render_cached_page:
  "(\<And>x. item (js x) = Some x) \<Longrightarrow>
     render Some (validate_page item) (page_json js) (Cached (page_json js p)) =
     render Some (validate_page item) (page_json js) (Fresh p)"
  by (simp add: render_def validate_page_json)

subsection \<open>Every encoding is valid JSON text\<close>

lemma json_ok_decimal [simp]: "json_ok (decimal_json d)"
  by (cases d) (simp_all add: decimal_json_def)

lemma json_ok_view [simp]: "json_ok (parcel_view_json v)"
  by (simp add: parcel_view_json_def parcel_type_read_def)

lemma json_ok_type [simp]: "json_ok (parcel_type_read t)"
  by (simp add: parcel_type_read_def)

lemma json_ok_page [simp]: "(\<And>x. json_ok (js x)) \<Longrightarrow> json_ok (page_json js p)"
  by (simp add: page_json_def list_all_iff)

lemma cached_reads_pages:
  assumes "redis_store R" and "\<And>x. json_ok (js x)"
  shows "cached_reads R (make_cache_key S C) (page_json js)"
    and "cached_reads R (make_cache_key_no_session C) (page_json js)"
  using assms by (simp_all add: cached_reads_def cached_reads_axioms_def)

interpretation parcel_pages: cached_reads reference_redis "make_cache_key S C" "page_json parcel_view_json" for S C
  by (rule cached_reads_pages) (simp_all add: ref_redis.redis_store_axioms)

interpretation type_pages: cached_reads reference_redis "make_cache_key_no_session C" "page_json parcel_type_read" for C
  by (rule cached_reads_pages) (simp_all add: ref_redis.redis_store_axioms)

subsection \<open>A history of the list route\<close>

text \<open>
  In session mode a request has passed the session middleware.
\<close>

lemma uuid_ok_anon: "\<not> uuid_ok ''anon''"
  by code_simp

definition through_middleware :: "settings \<Rightarrow> request \<Rightarrow> bool" where
  "through_middleware S req \<longleftrightarrow> AUTH_REQUIRED S \<or>
     (\<exists>fresh. uuid_ok fresh \<and> rq_session req = Some (choose_session fresh req))"

text \<open>
  \<open>list_run P t es w\<close>: the world \<open>w\<close> at \<open>t\<close> after the authenticated list requests \<open>es\<close>
  (latest first, each with the instant of its cache write, its owner and the database it
  met), between which anything else may happen that does not write under \<^verbatim>\<open>parcels:\<close>.
\<close>

inductive list_run ::
  "('r, 'l) platform \<Rightarrow> instant \<Rightarrow> (instant \<times> request \<times> ident \<times> db) list \<Rightarrow> ('r, 'l) world \<Rightarrow> bool"
  for P where
  start: "(\<And>u k. t \<le> u \<Longrightarrow> has_prefix ''parcels'' k \<Longrightarrow> r_get (pf_redis P) (app_redis (w_app w)) u k = None) \<Longrightarrow>
    list_run P t [] w"
| other: "list_run P t es w \<Longrightarrow> t \<le> t' \<Longrightarrow>
    untouched (pf_redis P) ''parcels'' t' (app_redis (w_app w)) (app_redis (w_app w')) \<Longrightarrow>
    list_run P t' es w'"
| list: "list_run P t es w \<Longrightarrow> t \<le> t_get \<Longrightarrow> t_get \<le> t_set \<Longrightarrow>
    through_middleware (pf_settings P) req \<Longrightarrow>
    get_parcel_reader_owner_id (pf_settings P) (pf_jwt P) now req (pf_bearer P req) = Inr owner \<Longrightarrow>
    list_parcels_route P now t_get t_set req w = (resp, w') \<Longrightarrow>
    list_run P t_set ((t_set, req, owner, app_db (w_app w)) # es) w'"

definition page_fill ::
  "('r, 'l) platform \<Rightarrow> (instant \<times> request \<times> ident \<times> db) list \<Rightarrow> instant \<times> string \<times> json \<Rightarrow> bool" where
  "page_fill P es f \<longleftrightarrow> (case f of (t0, k, j) \<Rightarrow>
     \<exists>rq owner db pg fs p. (t0, rq, owner, db) \<in> set es \<and>
       k = make_cache_key (pf_settings P) (pf_crypto P) ''parcels'' rq \<and> list_query P rq = Inr (pg, fs) \<and>
       list_parcels (pf_settings P) owner pg fs db = Inr p \<and> j = page_json parcel_view_json p)"

lemma page_fill_mono: "page_fill P es f \<Longrightarrow> page_fill P (e # es) f"
  by (fastforce simp: page_fill_def split: prod.splits)

text \<open>A limited request either is refused, with the application untouched, or runs its handler.\<close>

lemma limited_cases:
  assumes "limited P lv now req handler w = (resp, w')"
  obtains (refused) "w_app w' = w_app w" and "status_code resp = 429"
    | (failed) e where "handler (w_app w) = (Inl e, w_app w')" and "resp = respond_error e"
    | (served) "handler (w_app w) = (Inr resp, w_app w')"
proof -
  obtain l' ok where hit: "l_hit (pf_limiter P) (w_limits w) now lv (route_identifier req)
      (remote_address req) = (l', ok)" by fastforce
  obtain res a' where h: "handler (w_app w) = (res, a')" by fastforce
  show thesis
  proof (cases ok)
    case False
    with hit assms have "w_app w' = w_app w" "status_code resp = 429"
      by (auto simp: limited_def limit_def respond_error_status)
    then show thesis by (rule refused)
  next
    case True
    with hit h assms have "(case res of Inl e \<Rightarrow> respond_error e | Inr r \<Rightarrow> r) = resp" "w_app w' = a'"
      by (auto simp: limited_def limit_def)
    with h failed served show thesis by (cases res) auto
  qed
qed

lemma cached_list_alt:
  "cached_list P t_get t_set req owner pg fs =
     redis_cache (pf_redis P) (make_cache_key (pf_settings P) (pf_crypto P)) ''parcels''
       (CACHE_TTL_DEFAULT (pf_settings P)) (page_json parcel_view_json) t_get t_set [RequestArg req] []
       (\<lambda>a. (list_parcels (pf_settings P) owner pg fs (app_db a), a))"
  by (simp add: cached_list_def Let_def redis_cache_keyword)

lemma query_errors:
  "pagination_query P req = Inl e \<Longrightarrow> status_code (respond_error e) = 422"
  "list_query P req = Inl e \<Longrightarrow> status_code (respond_error e) = 422"
proof -
  have pg: "\<exists>errs. e = RequestValidationError errs" if "pagination_query P req = Inl e" for e
    using that by (auto simp: pagination_query_def parsed_def parse_pagination_def Let_def
        split: sum.splits if_splits prod.splits)
  then show "pagination_query P req = Inl e \<Longrightarrow> status_code (respond_error e) = 422"
    by (auto simp: respond_error_status)
  show "list_query P req = Inl e \<Longrightarrow> status_code (respond_error e) = 422"
    using pg by (cases "pagination_query P req")
      (auto simp: list_query_def parsed_def respond_error_status split: sum.splits)
qed

lemma list_parcels_error: "list_parcels S owner pg fs db = Inl e \<Longrightarrow> e = UnexpectedError ''ValidationError''"
  by (auto simp: list_parcels_def Let_def split: prod.splits option.splits)

lemma redis_cache_error:
  assumes "redis_cache R kf prefix ttl encode t1 t2 args kwargs fn a = (Inl e, a')"
  shows "fst (fn a) = Inl e \<or> (\<exists>m. e = UnexpectedError m)"
proof (cases "extract_request_for_cache args kwargs")
  case (Inl e')
  then have "\<exists>m. e' = UnexpectedError m"
    by (cases "(args, kwargs)" rule: extract_request_for_cache.cases)
      (auto split: option.splits handler_arg.splits)
  with Inl assms show ?thesis by (simp add: redis_cache_def)
next
  case (Inr x)
  with assms show ?thesis
    by (auto simp: redis_cache_def Let_def split: if_splits option.splits prod.splits sum.splits)
qed

text \<open>What one authenticated list request does, and what it answers.\<close>

lemma list_route_cases:
  assumes "list_parcels_route P now t_get t_set req w = (resp, w')"
    and "get_parcel_reader_owner_id (pf_settings P) (pf_jwt P) now req (pf_bearer P req) = Inr owner"
  obtains (quiet) "w_app w' = w_app w" and "status_code resp \<noteq> 200"
    | (called) pg fs res where "list_query P req = Inr (pg, fs)"
      and "cached_list P t_get t_set req owner pg fs (w_app w) = (res, w_app w')"
      and "status_code resp = 200 \<Longrightarrow> \<exists>s. res = Inr s \<and>
        render Some (validate_page validate_view) (page_json parcel_view_json) s = Inr resp"
proof (cases "list_query P req")
  case (Inl e)
  with assms query_errors(2) [OF Inl] have "w_app w' = w_app w" "status_code resp \<noteq> 200"
    by (auto simp: list_parcels_route_def with_dependency_def Let_def)
  then show thesis by (rule quiet)
next
  case (Inr q)
  obtain pg fs where q: "q = (pg, fs)" by fastforce
  let ?r = "render Some (validate_page validate_view) (page_json parcel_view_json)"
  obtain res a' where c: "cached_list P t_get t_set req owner pg fs (w_app w) = (res, a')" by fastforce
  have lim: "limited P (RATE_LIMIT_LIST (pf_settings P)) now req
      (\<lambda>a. respond_with ?r (cached_list P t_get t_set req owner pg fs a)) w = (resp, w')"
    using assms Inr q by (simp add: list_parcels_route_def with_dependency_def Let_def)
  then show thesis
  proof (cases rule: limited_cases)
    case refused
    then show thesis by (intro quiet) simp_all
  next
    case (failed e)
    then have e: "bind_result res ?r = Inl e" "w_app w' = a'" using c by (simp_all add: respond_with_def)
    have "\<exists>m. e = UnexpectedError m"
    proof (cases res)
      case (Inl e')
      with c have "cached_list P t_get t_set req owner pg fs (w_app w) = (Inl e', a')" by simp
      from redis_cache_error [OF this [unfolded cached_list_alt]] Inl e show ?thesis
        by (auto dest: list_parcels_error)
    next
      case (Inr s)
      with e show ?thesis by (auto simp: render_def split: option.splits)
    qed
    with failed(2) have "status_code resp \<noteq> 200" by (auto simp: respond_error_status)
    with called [OF Inr [unfolded q], of res] c e(2) show thesis by simp
  next
    case served
    then have "bind_result res ?r = Inr resp" "w_app w' = a'" using c by (simp_all add: respond_with_def)
    with called [OF Inr [unfolded q], of res] c show thesis by (auto simp: bind_result_eq_Inr)
  qed
qed

lemma list_reads: "redis_store (pf_redis P) \<Longrightarrow>
    cached_reads (pf_redis P) (make_cache_key (pf_settings P) (pf_crypto P)) (page_json parcel_view_json)"
  by (rule cached_reads_pages(1)) simp_all

text \<open>Along a history every live entry is a page the handler returned for a recorded request.\<close>

lemma list_run_explained:
  assumes "list_run P t es w" and "redis_store (pf_redis P)"
  shows "\<exists>fills. explained (pf_redis P) ''parcels'' (CACHE_TTL_DEFAULT (pf_settings P)) t fills
    (app_redis (w_app w)) \<and> (\<forall>f \<in> set fills. page_fill P es f)"
  using assms(1)
proof (induction rule: list_run.induct)
  case (start t w)
  then show ?case by (intro exI [of _ "[]"]) (simp add: explained_def)
next
  case (other t es w t' w')
  then show ?case by (elim exE conjE) (intro exI conjI, erule (2) explained_untouched)
next
  case (list t es w t_get t_set req now owner resp w')
  let ?ttl = "CACHE_TTL_DEFAULT (pf_settings P)" and ?e = "(t_set, req, owner, app_db (w_app w))"
  obtain fills where fills: "explained (pf_redis P) ''parcels'' ?ttl t fills (app_redis (w_app w))"
    "\<forall>f \<in> set fills. page_fill P es f" using list.IH by blast
  have more: "\<forall>f \<in> set fills. page_fill P (?e # es) f" using fills(2) page_fill_mono by blast
  from list.hyps(6,5) show ?case
  proof (cases rule: list_route_cases)
    case quiet
    with explained_later [OF fills(1), of t_set] list.hyps(2,3) more show ?thesis by auto
  next
    case (called pg fs res)
    note called(2) [unfolded cached_list_alt]
    from cached_reads.cache_call_explained [OF list_reads [OF assms(2)] fills(1) list.hyps(2,3) this]
    have ex: "explained (pf_redis P) ''parcels'' ?ttl t_set
      (case res of Inr (Fresh x) \<Rightarrow>
         (t_set, make_cache_key (pf_settings P) (pf_crypto P) ''parcels'' req, page_json parcel_view_json x) # fills
       | _ \<Rightarrow> fills) (app_redis (w_app w'))" by simp
    show ?thesis
    proof (cases "\<exists>x. res = Inr (Fresh x)")
      case True
      then obtain x where x: "res = Inr (Fresh x)" by blast
      with cached_reads.cache_fresh [OF list_reads [OF assms(2)]] called(2) [unfolded cached_list_alt]
      have "list_parcels (pf_settings P) owner pg fs (app_db (w_app w)) = Inr x" by blast
      with called(1) have "page_fill P (?e # es)
        (t_set, make_cache_key (pf_settings P) (pf_crypto P) ''parcels'' req, page_json parcel_view_json x)"
        unfolding page_fill_def prod.case
        by (intro exI [of _ req] exI [of _ owner] exI [of _ "app_db (w_app w)"] exI [of _ pg] exI [of _ fs]
            exI [of _ x]) simp
      with ex x more show ?thesis by (intro exI) auto
    next
      case False
      with ex have "explained (pf_redis P) ''parcels'' ?ttl t_set fills (app_redis (w_app w'))"
        by (auto split: sum.splits served.splits)
      with more show ?thesis by blast
    qed
  qed
qed

subsection \<open>What a list request answers\<close>

definition same_cache_key :: "settings \<Rightarrow> crypto \<Rightarrow> request \<Rightarrow> request \<Rightarrow> bool" where
  "same_cache_key S C rq rq' \<longleftrightarrow>
     cache_identity S C rq = cache_identity S C rq' \<and> rq_path rq = rq_path rq' \<and> rq_query rq = rq_query rq' \<or>
     sha_collision C (raw_cache_key S C rq) (raw_cache_key S C rq')"

lemma list_served:
  assumes "redis_store (pf_redis P)" and "list_run P t es w" and "t \<le> t_get"
    and "get_parcel_reader_owner_id (pf_settings P) (pf_jwt P) now req (pf_bearer P req) = Inr owner"
    and "list_parcels_route P now t_get t_set req w = (resp, w')" and "status_code resp = 200"
  shows "\<exists>t0 rq owner0 db0 pg fs p.
    ((t0, rq, owner0, db0) = (t_get, req, owner, app_db (w_app w)) \<or>
      (t0, rq, owner0, db0) \<in> set es \<and> t_get < t0 + CACHE_TTL_DEFAULT (pf_settings P)) \<and>
    t0 \<le> t_get \<and> same_cache_key (pf_settings P) (pf_crypto P) rq req \<and> list_query P rq = Inr (pg, fs) \<and>
    list_parcels (pf_settings P) owner0 pg fs db0 = Inr p \<and> content resp = page_json parcel_view_json p"
proof -
  let ?render = "render Some (validate_page validate_view) (page_json parcel_view_json)"
  obtain fills where fills: "explained (pf_redis P) ''parcels'' (CACHE_TTL_DEFAULT (pf_settings P)) t fills
      (app_redis (w_app w))" "\<forall>f \<in> set fills. page_fill P es f"
    using list_run_explained [OF assms(2,1)] by blast
  have page: "content resp = page_json parcel_view_json p" if "?render (Fresh p) = Inr resp" for p
    using that by (auto simp: render_def plain_response_def)
  from assms(5,4) show ?thesis
  proof (cases rule: list_route_cases)
    case quiet
    with assms(6) show ?thesis by simp
  next
    case (called pg fs res)
    then obtain s where s: "res = Inr s" "?render s = Inr resp" using assms(6) by blast
    note call = called(2) [unfolded cached_list_alt s(1)]
    show ?thesis
    proof (cases s)
      case (Fresh p)
      with cached_reads.cache_fresh [OF list_reads [OF assms(1)]] call
      have "list_parcels (pf_settings P) owner pg fs (app_db (w_app w)) = Inr p" by blast
      with called(1) page s Fresh show ?thesis unfolding same_cache_key_def by blast
    next
      case (Cached j)
      from cached_reads.cache_hit_explained [OF list_reads [OF assms(1)] fills(1) assms(3)] call Cached
      obtain t0 where t0: "(t0, make_cache_key (pf_settings P) (pf_crypto P) ''parcels'' req, j) \<in> set fills"
        "t0 \<le> t_get" "t_get < t0 + CACHE_TTL_DEFAULT (pf_settings P)" by blast
      with fills(2) obtain rq owner0 db0 pg0 fs0 p where e: "(t0, rq, owner0, db0) \<in> set es"
          "make_cache_key (pf_settings P) (pf_crypto P) ''parcels'' rq =
           make_cache_key (pf_settings P) (pf_crypto P) ''parcels'' req" "list_query P rq = Inr (pg0, fs0)"
          "list_parcels (pf_settings P) owner0 pg0 fs0 db0 = Inr p" "j = page_json parcel_view_json p"
        unfolding page_fill_def by fastforce
      from e(2) have "same_cache_key (pf_settings P) (pf_crypto P) rq req"
        by (simp add: make_cache_key_eq_iff same_cache_key_def)
      moreover have "content resp = page_json parcel_view_json p"
        using s Cached e(5) render_cached_page [of validate_view parcel_view_json, OF validate_view_json] page
        by simp
      ultimately show ?thesis using t0 e by blast
    qed
  qed
qed

text \<open>
  C7: the cache changes nothing but freshness.  In any history of the service, the body of a
  list request answered 200 is exactly what the uncached handler computes: for this request
  on the current database, or for an earlier request with the same identity, path and query
  (unless SHA-256 collides) on the database that request met, less than
  \<^verbatim>\<open>CACHE_TTL_DEFAULT\<close> seconds before.
\<close>

theorem list_is_recent_page:
  assumes "redis_store (pf_redis P)" and "list_run P t es w" and "t \<le> t_get"
    and "get_parcel_reader_owner_id (pf_settings P) (pf_jwt P) now req (pf_bearer P req) = Inr owner"
    and "list_parcels_route P now t_get t_set req w = (resp, w')" and "status_code resp = 200"
  shows "\<exists>t0 rq owner0 db0 pg fs p.
    ((t0, rq, owner0, db0) = (t_get, req, owner, app_db (w_app w)) \<or>
      (t0, rq, owner0, db0) \<in> set es \<and> t_get < t0 + CACHE_TTL_DEFAULT (pf_settings P)) \<and>
    t0 \<le> t_get \<and> same_cache_key (pf_settings P) (pf_crypto P) rq req \<and> list_query P rq = Inr (pg, fs) \<and>
    list_parcels (pf_settings P) owner0 pg fs db0 = Inr p \<and> content resp = page_json parcel_view_json p"
  using assms by (rule list_served)

subsection \<open>Isolation of callers through the cache\<close>

text \<open>
  \<^verbatim>\<open>OAuth2PasswordBearer\<close> takes the token from the \<^verbatim>\<open>Authorization\<close> header alone, and finds
  none without the header (or with the word the cache key uses for its absence).
\<close>

definition bearer_scheme :: "(request \<Rightarrow> string option) \<Rightarrow> bool" where
  "bearer_scheme f \<longleftrightarrow>
     (\<forall>rq rq'. header rq ''Authorization'' = header rq' ''Authorization'' \<longrightarrow> f rq = f rq') \<and>
     (\<forall>rq. header rq ''Authorization'' \<in> {None, Some ''anon''} \<longrightarrow> f rq = None)"

text \<open>A session id the middleware just drew owns nothing yet.\<close>

definition drawn_session_unused :: "request \<Rightarrow> db \<Rightarrow> bool" where
  "drawn_session_unused req db \<longleftrightarrow>
     (\<forall>s. rq_session req = Some s \<longrightarrow> header req SESSION_HEADER \<noteq> Some s \<longrightarrow>
        s \<notin> p_session_id ` set (parcels db))"

text \<open>Two requests whose digests collide: of the raw keys (256 bits), or in JWT mode of the
  \<^verbatim>\<open>Authorization\<close> headers (the first 64 bits only).\<close>

definition key_collision :: "settings \<Rightarrow> crypto \<Rightarrow> request \<Rightarrow> request \<Rightarrow> bool" where
  "key_collision S C rq rq' \<longleftrightarrow>
     sha_collision C (raw_cache_key S C rq) (raw_cache_key S C rq') \<or>
     AUTH_REQUIRED S \<and> header rq ''Authorization'' \<noteq> header rq' ''Authorization'' \<and>
       cache_identity S C rq = cache_identity S C rq'"

lemma map_all_in: "map_all f xs = Some ys \<Longrightarrow> y \<in> set ys \<Longrightarrow> \<exists>x \<in> set xs. f x = Some y"
  by (induction xs arbitrary: ys) (auto split: option.splits)

lemma list_parcels_own:
  assumes "list_parcels S owner pg fs db = Inr p" and "v \<in> set (page_items p)"
  shows "\<exists>q \<in> set (parcels db). p_id q = pv_id v \<and> owner_match S owner q"
proof -
  obtain r where r: "r \<in> set (snd (list_owned S owner fs (nat (pg_limit pg)) (nat (pg_offset pg)) db))"
      "view_of r = Some v"
    using assms by (auto simp: list_parcels_def split: prod.splits option.splits dest: map_all_in)
  obtain q where q: "q \<in> set (matching_parcels S owner fs db)" "r = with_type db q"
    using r(1) set_page_of by (fastforce simp: list_owned_simps)
  from r(2) q(2) have "p_id q = pv_id v" by (auto simp: view_of_def with_type_def)
  with q(1) show ?thesis by (auto simp: matching_parcels_iff)
qed

lemma session_owner:
  assumes "\<not> AUTH_REQUIRED S" and "get_parcel_reader_owner_id S J now req token = Inr owner"
  shows "rq_session req = Some owner"
  using assms by (auto simp: get_parcel_reader_owner_id_def get_owner_id_def get_session_id_def
      split: option.splits)

lemma jwt_owner:
  assumes "AUTH_REQUIRED S" and "get_parcel_reader_owner_id S J now req token = Inr owner"
  shows "\<exists>t c. token = Some t \<and> decode_token S J now t [''parcels:read''] = Some c \<and> tc_sub c = owner"
  using assms by (auto simp: get_parcel_reader_owner_id_def get_owner_id_def
      split: option.splits if_splits)

text \<open>Without a collision, requests with one cache key have one owner, or the owner of the
  earlier one is an id just drawn for it.\<close>

lemma same_key_same_owner:
  assumes "jwt_payloads J" and "bearer_scheme f" and "same_cache_key S C rq req"
    and "\<not> key_collision S C rq req"
    and "through_middleware S rq" and "through_middleware S req"
    and "get_parcel_reader_owner_id S J now0 rq (f rq) = Inr owner0"
    and "get_parcel_reader_owner_id S J now req (f req) = Inr owner"
  shows "owner0 = owner \<or> \<not> AUTH_REQUIRED S \<and> rq_session rq = Some owner0 \<and> header rq SESSION_HEADER \<noteq> Some owner0"
proof (cases "AUTH_REQUIRED S")
  case True
  have "cache_identity S C rq = cache_identity S C req"
    using assms(3,4) by (auto simp: same_cache_key_def key_collision_def)
  with assms(4) True have "header rq ''Authorization'' = header req ''Authorization''"
    by (auto simp: key_collision_def)
  with assms(2) have same: "f rq = f req" unfolding bearer_scheme_def by blast
  obtain t c where "f rq = Some t" "decode_token S J now0 t [''parcels:read''] = Some c" "tc_sub c = owner0"
    using jwt_owner [OF True assms(7)] by blast
  moreover obtain t' c' where "f req = Some t'" "decode_token S J now t' [''parcels:read''] = Some c'"
      "tc_sub c' = owner"
    using jwt_owner [OF True assms(8)] by blast
  ultimately have "owner0 = owner"
    using same jwt_payloads.decode_token_same [OF assms(1)] by fastforce
  then show ?thesis ..
next
  case False
  have own: "rq_session rq = Some owner0" "rq_session req = Some owner"
    using session_owner False assms(7,8) by auto
  show ?thesis
  proof (cases "header rq SESSION_HEADER = Some owner0")
    case True
    have id: "cache_identity S C rq = cache_identity S C req"
      using assms(3,4) by (auto simp: same_cache_key_def key_collision_def)
    obtain fresh where "uuid_ok fresh" "owner0 = choose_session fresh rq"
      using assms(5) False own(1) by (auto simp: through_middleware_def)
    then have ok: "uuid_ok owner0" using choose_session_cases [of fresh rq] by auto
    then have "owner0 \<noteq> ''anon''" by (auto simp: uuid_ok_anon)
    with id True False have "header req SESSION_HEADER = Some owner0"
      by (cases "header req SESSION_HEADER") (simp_all add: cache_identity_def)
    moreover obtain fresh' where "owner = choose_session fresh' req"
      using assms(6) False own(2) by (auto simp: through_middleware_def)
    ultimately show ?thesis
      using choose_session_known [OF _ uuid_ok_nonempty [OF ok] ok] by simp
  next
    case unknown: False
    with False own(1) show ?thesis by simp
  qed
qed

lemma list_run_events:
  assumes "list_run P t es w" and "(t0, rq, owner, db) \<in> set es"
  shows "through_middleware (pf_settings P) rq \<and>
    (\<exists>now. get_parcel_reader_owner_id (pf_settings P) (pf_jwt P) now rq (pf_bearer P rq) = Inr owner)"
  using assms by (induction rule: list_run.induct) auto

text \<open>
  C8: the cache does not mix callers.  Unless digests collide, every item of a list answered
  200, served from the cache or not, is a parcel the caller owns, as stored when the page was
  computed at most \<^verbatim>\<open>CACHE_TTL_DEFAULT\<close> seconds ago.
\<close>

theorem list_shows_only_own:
  assumes "redis_store (pf_redis P)" and "jwt_payloads (pf_jwt P)" and "bearer_scheme (pf_bearer P)"
    and "list_run P t es w" and "t \<le> t_get"
    and "\<forall>(t0, rq, owner0, db0) \<in> set es. drawn_session_unused rq db0 \<and>
      \<not> key_collision (pf_settings P) (pf_crypto P) rq req"
    and "through_middleware (pf_settings P) req"
    and "get_parcel_reader_owner_id (pf_settings P) (pf_jwt P) now req (pf_bearer P req) = Inr owner"
    and "list_parcels_route P now t_get t_set req w = (resp, w')" and "status_code resp = 200"
  shows "\<exists>p db0. content resp = page_json parcel_view_json p \<and>
    (db0 = app_db (w_app w) \<or> (\<exists>t0 rq owner0. (t0, rq, owner0, db0) \<in> set es \<and> t0 \<le> t_get \<and>
      t_get < t0 + CACHE_TTL_DEFAULT (pf_settings P))) \<and>
    (\<forall>v \<in> set (page_items p). \<exists>q \<in> set (parcels db0).
      p_id q = pv_id v \<and> owner_match (pf_settings P) owner q)"
proof -
  let ?S = "pf_settings P" and ?C = "pf_crypto P"
  from list_served [OF assms(1,4,5,8-10)] obtain t0 rq owner0 db0 pg fs p where
    src: "(t0, rq, owner0, db0) = (t_get, req, owner, app_db (w_app w)) \<or>
      (t0, rq, owner0, db0) \<in> set es \<and> t_get < t0 + CACHE_TTL_DEFAULT ?S" "t0 \<le> t_get"
    and key: "same_cache_key ?S ?C rq req" and p: "list_parcels ?S owner0 pg fs db0 = Inr p"
      "content resp = page_json parcel_view_json p" by blast
  from src(1) have "owner_match ?S owner q" if "q \<in> set (parcels db0)" "owner_match ?S owner0 q" for q
  proof
    assume "(t0, rq, owner0, db0) = (t_get, req, owner, app_db (w_app w))"
    with that show ?thesis by simp
  next
    assume e: "(t0, rq, owner0, db0) \<in> set es \<and> t_get < t0 + CACHE_TTL_DEFAULT ?S"
    then have unused: "drawn_session_unused rq db0" "\<not> key_collision ?S ?C rq req" using assms(6) by auto
    obtain now0 where "through_middleware ?S rq"
        "get_parcel_reader_owner_id ?S (pf_jwt P) now0 rq (pf_bearer P rq) = Inr owner0"
      using list_run_events [OF assms(4)] e by blast
    with same_key_same_owner [OF assms(2,3) key unused(2) _ assms(7) _ assms(8)]
    consider "owner0 = owner" | "\<not> AUTH_REQUIRED ?S" "rq_session rq = Some owner0"
      "header rq SESSION_HEADER \<noteq> Some owner0" by blast
    then show ?thesis
    proof cases
      case 2
      with unused(1) that show ?thesis by (auto simp: drawn_session_unused_def owner_match_def)
    qed (use that in simp)
  qed
  with list_parcels_own [OF p(1)] have
    "\<forall>v \<in> set (page_items p). \<exists>q \<in> set (parcels db0). p_id q = pv_id v \<and> owner_match ?S owner q" by blast
  moreover have "db0 = app_db (w_app w) \<or> (\<exists>t0 rq owner0. (t0, rq, owner0, db0) \<in> set es \<and> t0 \<le> t_get \<and>
      t_get < t0 + CACHE_TTL_DEFAULT ?S)"
    using src by blast
  ultimately show ?thesis using p(2) by blast
qed

subsection \<open>A list request and its repetition\<close>

lemma respond_with_simps [simp]:
  "respond_with f (Inr x, a) = (f x, a)" "respond_with f (Inl e, a) = (Inl e, a)"
  by (simp_all add: respond_with_def)

lemma limited_admitted:
  assumes "l_hit (pf_limiter P) (w_limits w) now lv (route_identifier req) (remote_address req) = (l', True)"
    and "handler (w_app w) = (Inr resp, a')"
  shows "limited P lv now req handler w = (resp, \<lparr>w_app = a', w_limits = l'\<rparr>)"
  using assms by (simp add: limited_def limit_def)

text \<open>The two ways a list request is served.\<close>

lemma list_route_miss:
  assumes "get_parcel_reader_owner_id (pf_settings P) (pf_jwt P) now req (pf_bearer P req) = Inr owner"
    and "list_query P req = Inr (pg, fs)"
    and "l_hit (pf_limiter P) (w_limits w) now (RATE_LIMIT_LIST (pf_settings P)) (route_identifier req)
      (remote_address req) = (l', True)"
    and "r_get (pf_redis P) (app_redis (w_app w)) t_get
      (make_cache_key (pf_settings P) (pf_crypto P) ''parcels'' req) = None"
    and "list_parcels (pf_settings P) owner pg fs (app_db (w_app w)) = Inr p"
  shows "list_parcels_route P now t_get t_set req w =
    (plain_response 200 (page_json parcel_view_json p),
     \<lparr>w_app = (w_app w)\<lparr>app_redis := r_set (pf_redis P) (app_redis (w_app w)) t_set
        (make_cache_key (pf_settings P) (pf_crypto P) ''parcels'' req)
        (json_dumps (page_json parcel_view_json p)) (Some (CACHE_TTL_DEFAULT (pf_settings P)))\<rparr>,
      w_limits = l'\<rparr>)"
  using assms
  by (simp add: list_parcels_route_def with_dependency_def Let_def limited_admitted cached_list_alt
      redis_cache_def render_def)

lemma list_route_hit:
  assumes "get_parcel_reader_owner_id (pf_settings P) (pf_jwt P) now req (pf_bearer P req) = Inr owner"
    and "list_query P req = Inr (pg, fs)"
    and "l_hit (pf_limiter P) (w_limits w) now (RATE_LIMIT_LIST (pf_settings P)) (route_identifier req)
      (remote_address req) = (l', True)"
    and "r_get (pf_redis P) (app_redis (w_app w)) t_get
      (make_cache_key (pf_settings P) (pf_crypto P) ''parcels'' req) = Some (json_dumps (page_json parcel_view_json p))"
  shows "list_parcels_route P now t_get t_set req w =
    (plain_response 200 (page_json parcel_view_json p), \<lparr>w_app = w_app w, w_limits = l'\<rparr>)"
  using assms json_dumps_nonempty [of "page_json parcel_view_json p"] loads_dumps [of "page_json parcel_view_json p"]
  by (simp add: list_parcels_route_def with_dependency_def Let_def limited_admitted cached_list_alt
      redis_cache_def render_def validate_page_json validate_view_json)

definition session_platform :: "(kv, counters) platform" where
  "session_platform = reference_platform\<lparr>pf_settings := default_settings\<lparr>AUTH_REQUIRED := False\<rparr>\<rparr>"

definition session_db :: db where
  "session_db = sample_db\<lparr>parcels := [sample_parcel\<lparr>p_session_id := sample_uuid\<rparr>]\<rparr>"

definition session_world :: "db \<Rightarrow> kv \<Rightarrow> (kv, counters) world" where
  "session_world d r = \<lparr>w_app = sample_app\<lparr>app_db := d, app_redis := r\<rparr>, w_limits = no_counters\<rparr>"

definition list_request :: request where
  "list_request = (plain_request [(''x-session-id'', sample_uuid)])\<lparr>rq_session := Some sample_uuid\<rparr>"

definition session_page :: "parcel_view page" where
  "session_page = \<lparr>page_items = [\<lparr>pv_id = ''p1'', pv_name = ''box'', pv_weight_kg = Dec False 2000 (-3),
     pv_declared_value_usd = Dec False 10000 (-2), pv_delivery_cost_rub = None,
     pv_parcel_type = \<lparr>pt_id = ''t1'', pt_name = ''misc''\<rparr>\<rparr>],
     page_total = 1, page_limit = 20, page_offset = 0\<rparr>"

definition session_key :: string where
  "session_key = make_cache_key (pf_settings session_platform) (pf_crypto session_platform) ''parcels'' list_request"

definition filled_cache :: kv where
  "filled_cache = r_set reference_redis empty_kv 11 session_key (json_dumps (page_json parcel_view_json session_page)) (Some 60)"

lemma session_platform_simps [simp]:
  "AUTH_REQUIRED (pf_settings session_platform) = False" "pf_redis session_platform = reference_redis"
  "pf_limiter session_platform = reference_limiter" "pf_jwt session_platform = reference_jwt"
  "pf_bearer session_platform = bearer_of"
  "RATE_LIMIT_LIST (pf_settings session_platform) = ''60/minute''"
  "CACHE_TTL_DEFAULT (pf_settings session_platform) = 60"
  by (simp_all add: session_platform_def reference_platform_def) (simp add: default_settings_def)

lemma session_owner_id:
  "get_parcel_reader_owner_id (pf_settings session_platform) J now list_request tok = Inr sample_uuid"
  by (simp add: get_parcel_reader_owner_id_def get_owner_id_def get_session_id_def list_request_def)

lemma session_header: "header list_request SESSION_HEADER = Some sample_uuid"
  by code_simp

lemma session_query: "list_query session_platform list_request =
    Inr (\<lparr>pg_limit = 20, pg_offset = 0\<rparr>, \<lparr>type_id = None, has_cost = None\<rparr>)"
  by (simp add: list_query_def pagination_query_def parsed_def session_platform_def reference_platform_def
      parse_pagination_def)

lemma session_list: "list_parcels (pf_settings session_platform) sample_uuid \<lparr>pg_limit = 20, pg_offset = 0\<rparr>
    \<lparr>type_id = None, has_cost = None\<rparr> session_db = Inr session_page"
  by (simp add: list_parcels_def list_owned_def matching_parcels_def crud_list_def list_conditions_def
      owner_match_def session_db_def sample_db_def sample_parcel_def with_type_def crud_get_def find_by_def
      view_of_def session_page_def page_of_def)

lemma session_hit: "l_hit reference_limiter no_counters now ''60/minute'' r c =
    (no_counters((''60/minute'', r, c) := Some (now, 1)), True)"
proof -
  have "parse_nat (takeWhile is_digit ''60/minute'') = 60"
    by (simp add: is_digit_def parse_nat_def digit_val_def)
  then show ?thesis by (simp add: reference_limiter_def no_counters_def Let_def)
qed

lemma session_middleware: "through_middleware (pf_settings session_platform) list_request"
proof -
  have "choose_session sample_uuid list_request = sample_uuid"
    by (simp add: choose_session_def session_header sample_uuid_ok)
  then show ?thesis using sample_uuid_ok by (auto simp: through_middleware_def list_request_def)
qed

lemma session_first:
  "list_parcels_route session_platform 10 10 11 list_request (session_world session_db empty_kv) =
    (plain_response 200 (page_json parcel_view_json session_page),
     \<lparr>w_app = sample_app\<lparr>app_db := session_db, app_redis := filled_cache\<rparr>,
      w_limits = no_counters((''60/minute'', route_identifier list_request, remote_address list_request) := Some (10, 1))\<rparr>)"
proof -
  have "r_get reference_redis empty_kv 10 session_key = None" by (simp add: empty_kv_def)
  with list_route_miss [of session_platform 10 list_request sample_uuid _ _ "session_world session_db empty_kv",
      OF session_owner_id session_query] session_hit session_list
  show ?thesis by (simp add: session_world_def filled_cache_def session_key_def)
qed

text \<open>The history: one request filled the cache at 11; then the parcel was deleted.\<close>

lemma session_run:
  "list_run session_platform 11 [(11, list_request, sample_uuid, session_db)] (session_world sample_db filled_cache)"
proof -
  have "list_run session_platform 10 [] (session_world session_db empty_kv)"
    by (rule list_run.start) (simp add: session_world_def empty_kv_def)
  from list_run.list [OF this _ _ session_middleware session_owner_id session_first]
  have "list_run session_platform 11 [(11, list_request, sample_uuid, session_db)]
    \<lparr>w_app = sample_app\<lparr>app_db := session_db, app_redis := filled_cache\<rparr>,
      w_limits = no_counters((''60/minute'', route_identifier list_request, remote_address list_request) := Some (10, 1))\<rparr>"
    by (simp add: session_world_def)
  from list_run.other [OF this, of 11 "session_world sample_db filled_cache"] show ?thesis
    by (simp add: session_world_def)
qed

lemma session_second:
  "list_parcels_route session_platform 20 20 21 list_request (session_world sample_db filled_cache) =
    (plain_response 200 (page_json parcel_view_json session_page),
     \<lparr>w_app = w_app (session_world sample_db filled_cache),
      w_limits = no_counters((''60/minute'', route_identifier list_request, remote_address list_request) := Some (20, 1))\<rparr>)"
proof (rule list_route_hit [OF session_owner_id session_query])
  show "l_hit (pf_limiter session_platform) (w_limits (session_world sample_db filled_cache)) 20
      (RATE_LIMIT_LIST (pf_settings session_platform)) (route_identifier list_request)
      (remote_address list_request) =
    (no_counters((''60/minute'', route_identifier list_request, remote_address list_request) := Some (20, 1)), True)"
    by (simp add: session_hit session_world_def)
  show "r_get (pf_redis session_platform) (app_redis (w_app (session_world sample_db filled_cache))) 20
      (make_cache_key (pf_settings session_platform) (pf_crypto session_platform) ''parcels'' list_request) =
    Some (json_dumps (page_json parcel_view_json session_page))"
    unfolding session_key_def [symmetric] by (simp add: session_world_def filled_cache_def)
qed

theorem list_is_recent_page_witness:
  "\<exists>owner0 db0 pg fs p. db0 \<in> {sample_db, session_db} \<and>
    list_parcels (pf_settings session_platform) owner0 pg fs db0 = Inr p \<and>
    content (fst (list_parcels_route session_platform 20 20 21 list_request
      (session_world sample_db filled_cache))) = page_json parcel_view_json p"
proof -
  have "\<exists>t0 rq owner0 db0 pg fs p. ((t0, rq, owner0, db0) = (20 :: instant, list_request, sample_uuid, sample_db) \<or>
      (t0, rq, owner0, db0) \<in> set [(11, list_request, sample_uuid, session_db)] \<and> 20 < t0 + 60) \<and> t0 \<le> 20 \<and>
    same_cache_key (pf_settings session_platform) (pf_crypto session_platform) rq list_request \<and>
    list_query session_platform rq = Inr (pg, fs) \<and>
    list_parcels (pf_settings session_platform) owner0 pg fs db0 = Inr p \<and>
    content (plain_response 200 (page_json parcel_view_json session_page)) = page_json parcel_view_json p"
    using list_is_recent_page [OF _ session_run _ session_owner_id session_second]
    by (simp add: ref_redis.redis_store_axioms plain_response_def session_world_def)
  then obtain t0 rq owner0 db0 pg fs p where p:
    "(t0, rq, owner0, db0) = (20 :: instant, list_request, sample_uuid, sample_db) \<or>
      (t0, rq, owner0, db0) \<in> set [(11, list_request, sample_uuid, session_db)] \<and> 20 < t0 + 60"
    "list_parcels (pf_settings session_platform) owner0 pg fs db0 = Inr p"
    "content (plain_response 200 (page_json parcel_view_json session_page)) = page_json parcel_view_json p"
    by (elim exE conjE) (rule that)
  from p(1) have "db0 \<in> {sample_db, session_db}" by auto
  with p(2,3) show ?thesis unfolding session_second fst_conv by blast
qed

theorem list_shows_only_own_witness:
  "\<exists>p (db0 :: db). content (fst (list_parcels_route session_platform 20 20 21 list_request
      (session_world sample_db filled_cache))) = page_json parcel_view_json p \<and>
    list_all (\<lambda>v. \<exists>q \<in> set (parcels db0). p_id q = pv_id v \<and>
      owner_match (pf_settings session_platform) sample_uuid q) (page_items p)"
proof -
  have "bearer_scheme bearer_of"
    by (auto simp: bearer_scheme_def bearer_of_def split: option.splits)
  moreover have "drawn_session_unused list_request session_db"
    using session_header by (simp add: drawn_session_unused_def list_request_def)
  moreover have "\<not> key_collision (pf_settings session_platform) (pf_crypto session_platform) list_request list_request"
    by (simp add: key_collision_def sha_collision_def)
  ultimately have "\<exists>p db0. content (plain_response 200 (page_json parcel_view_json session_page)) =
      page_json parcel_view_json p \<and>
    (db0 = sample_db \<or> (\<exists>t0 rq owner0. (t0, rq, owner0, db0) \<in> set [(11 :: instant, list_request, sample_uuid, session_db)] \<and>
      t0 \<le> 20 \<and> 20 < t0 + 60)) \<and>
    (\<forall>v \<in> set (page_items p). \<exists>q \<in> set (parcels db0).
      p_id q = pv_id v \<and> owner_match (pf_settings session_platform) sample_uuid q)"
    using list_shows_only_own [OF _ _ _ session_run _ _ session_middleware session_owner_id session_second]
    by (simp add: ref_redis.redis_store_axioms ref_jwt_payloads.jwt_payloads_axioms plain_response_def session_world_def)
  then obtain p and db0 :: db where "content (plain_response 200 (page_json parcel_view_json session_page)) =
      page_json parcel_view_json p" "\<forall>v \<in> set (page_items p). \<exists>q \<in> set (parcels db0).
      p_id q = pv_id v \<and> owner_match (pf_settings session_platform) sample_uuid q"
    by (elim exE conjE) (rule that)
  then show ?thesis unfolding session_second fst_conv list_all_iff by blast
qed

end
