(* ===== verification/Detail_Guarantees.thy ===== *)
theory Detail_Guarantees
  imports Read_Guarantees
begin

text \<open>
  What \<^verbatim>\<open>GET /parcels/{parcel_id}\<close> guarantees: its outcome on every branch, and what a copy
  from the cache keeps of the parcel.  The route returns the ORM row, so the cache holds
  what \<^verbatim>\<open>jsonable_encoder\<close> makes of it, with floats for the decimals.
\<close>

subsection \<open>A parcel through the cache\<close>

lemma drop_zeros_val:
  "drop_zeros c k = (c', k') \<Longrightarrow> k' \<le> k \<and> c = c' * 10 ^ (k - k') \<and> (0 < k \<longrightarrow> 0 < k')"
proof (induction c k arbitrary: c' k' rule: drop_zeros.induct)
  case (1 c k)
  show ?case
  proof (cases "c mod 10 = 0")
    case True
    with 1 have "k' \<le> Suc k" "c div 10 = c' * 10 ^ (Suc k - k')" "0 < k'" by auto
    moreover from True have "c = c div 10 * 10" by auto
    ultimately show ?thesis by (simp add: Suc_diff_le)
  qed (use 1 in simp)
qed simp_all

lemma float_repr_parse:
  assumes "dec_exp d < 0"
  shows "\<exists>d'. dec_parse (float_repr d) = Some d' \<and> dec_val d' = dec_val d \<and> dec_exp d' < 0 \<and>
    float_repr d = dec_str d'"
proof -
  obtain c k where ck: "drop_zeros (dec_coeff d) (nat (- dec_exp d)) = (c, k)" by fastforce
  let ?d = "Dec (dec_neg d) c (- int k)"
  from drop_zeros_val [OF ck] assms have k: "k \<le> nat (- dec_exp d)" "0 < k"
    and c: "dec_coeff d = c * 10 ^ (nat (- dec_exp d) - k)" by auto
  have "(10::rat) ^ j * 10 powi e = 10 powi (e + int j)" for j e
    using powi_shift [of "int j" e] by simp
  from this [of "nat (- dec_exp d) - k" "dec_exp d"] k assms
  have "(10::rat) ^ (nat (- dec_exp d) - k) * 10 powi dec_exp d = 10 powi (- int k)"
    by (simp add: nat_le_iff le_nat_iff of_nat_diff)
  then have "dec_val ?d = dec_val d"
    by (simp add: dec_val_eq c algebra_simps)
  moreover have "float_repr d = dec_str ?d" by (simp add: float_repr_def ck)
  ultimately show ?thesis using k(2) dec_parse_str by (intro exI [of _ ?d]) simp
qed

lemma dec_str_chars: "list_all is_number_char (dec_str d)"
proof -
  have digs: "list_all is_number_char (show_nat n)" for n
    using digits_show_nat [of n] by (auto simp: list_all_iff digit_number_char)
  have parts: "list_all is_number_char (take n (show_nat c))" "list_all is_number_char (drop n (show_nat c))" for n c
    using digs [of c] by (auto simp: list_all_iff dest: in_set_takeD in_set_dropD)
  have zeros: "list_all is_number_char (replicate n CHR ''0'')" for n
    by (simp add: list_all_length digit_number_char)
  have one: "is_number_char CHR ''0''" "is_number_char CHR ''.''" "is_number_char CHR ''-''"
    "is_number_char CHR ''+''" "is_number_char CHR ''E''"
    by (simp_all add: is_number_char_def)
  show ?thesis
    by (simp add: dec_str_def Let_def show_signed_def digs parts zeros one)
qed

lemma dec_str_form: "\<exists>r rs. dec_str d = (if dec_neg d then ''-'' else []) @ r # rs \<and> is_digit r"
proof -
  obtain c cs where c: "show_nat (dec_coeff d) = c # cs" "is_digit c"
    using hd_show_nat(1) [of "dec_coeff d"] by (cases "show_nat (dec_coeff d)") auto
  have "take (nat n) (c # cs) = c # take (nat n - 1) cs" if "0 < n" for n :: int
    using that by (cases "nat n") auto
  with c show ?thesis unfolding dec_str_def Let_def by (simp add: not_le)
qed

lemma float_text_dec_str: "dec_exp d < 0 \<Longrightarrow> float_text (dec_str d)"
proof -
  assume e: "dec_exp d < 0"
  obtain r rs where form: "dec_str d = (if dec_neg d then ''-'' else []) @ r # rs" "is_digit r"
    using dec_str_form by blast
  define neg ds where "neg = dec_neg d" and "ds = r # rs"
  from form have s: "parse_sign (dec_str d) = (neg, ds)"
    by (simp add: neg_def ds_def parse_sign_digit)
  from form(2) have ds: "is_digit (hd ds)" "ds \<noteq> []" by (simp_all add: ds_def)
  have "\<not> list_all is_digit ds"
  proof
    assume "list_all is_digit ds"
    then have "dec_parse (dec_str d) = Some (Dec neg (parse_nat ds) 0)"
      using parse_unsigned_int [of ds "[]" 0 neg] ds(2) s by (simp add: dec_parse_def)
    with dec_parse_str [of d] e show False by (metis decimal.sel(3) option.inject less_irrefl)
  qed
  moreover have "dec_str d \<noteq> []" "hd (dec_str d) \<noteq> CHR ''+''"
    using form by auto
  ultimately show ?thesis
    using s ds dec_str_chars [of d] by (simp add: float_text_def number_value_def dec_parse_str)
qed

lemma as_decimal_encoder:
  "\<exists>d'. as_decimal (Some (decimal_encoder d)) = Some d' \<and> dec_val d' = dec_val d"
proof (cases "0 \<le> dec_exp d")
  case True
  then have "dec_val d = of_int (dec_int d * 10 ^ nat (dec_exp d))"
    by (simp add: dec_val_def power_int_def)
  with True show ?thesis by (auto simp: decimal_encoder_def as_decimal_def dec_val_Dec)
next
  case False
  with float_repr_parse [of d] show ?thesis by (auto simp: decimal_encoder_def as_decimal_def)
qed

lemma json_ok_encoder [simp]: "json_ok (decimal_encoder d)"
proof (cases "0 \<le> dec_exp d")
  case False
  with float_repr_parse [of d] float_text_dec_str show ?thesis by (auto simp: decimal_encoder_def)
qed (simp add: decimal_encoder_def)

lemma encoder_not_null [simp]: "decimal_encoder d \<noteq> JNull"
  by (simp add: decimal_encoder_def)

lemma json_ok_orm [simp]: "json_ok (orm_json r)"
  by (simp add: orm_json_def split: prod.splits option.splits)

text \<open>Two views with the same text fields and numerically equal decimals.\<close>

definition same_values :: "parcel_view \<Rightarrow> parcel_view \<Rightarrow> bool" where
  "same_values v v' \<longleftrightarrow> pv_id v' = pv_id v \<and> pv_name v' = pv_name v \<and>
     pv_parcel_type v' = pv_parcel_type v \<and> dec_val (pv_weight_kg v') = dec_val (pv_weight_kg v) \<and>
     dec_val (pv_declared_value_usd v') = dec_val (pv_declared_value_usd v) \<and>
     map_option dec_val (pv_delivery_cost_rub v') = map_option dec_val (pv_delivery_cost_rub v)"

lemma as_optional_encoder:
  "\<exists>c'. as_optional_decimal (Some (case c of None \<Rightarrow> JNull | Some d \<Rightarrow> decimal_encoder d)) = Some c' \<and>
    map_option dec_val c' = map_option dec_val c"
proof (cases c)
  case (Some d)
  obtain d' where "as_decimal (Some (decimal_encoder d)) = Some d'" "dec_val d' = dec_val d"
    using as_decimal_encoder by blast
  moreover have "as_optional_decimal (Some (decimal_encoder d)) = map_option Some (as_decimal (Some (decimal_encoder d)))"
    using encoder_not_null [of d] by (cases "decimal_encoder d") (simp_all add: as_optional_decimal_def)
  ultimately show ?thesis using Some by simp
qed (simp add: as_optional_decimal_def)

lemma validate_orm:
  assumes "view_of r = Some v"
  shows "\<exists>v'. validate_view (orm_json r) = Some v' \<and> same_values v v'"
proof -
  obtain p t where r: "r = (p, Some t)" using assms by (cases r) (auto simp: view_of_def)
  obtain w where w: "as_decimal (Some (decimal_encoder (p_weight_kg p))) = Some w" "dec_val w = dec_val (p_weight_kg p)"
    using as_decimal_encoder by blast
  obtain u where u: "as_decimal (Some (decimal_encoder (p_declared_value_usd p))) = Some u"
      "dec_val u = dec_val (p_declared_value_usd p)"
    using as_decimal_encoder by blast
  obtain c where c: "as_optional_decimal (Some (case p_delivery_cost_rub p of None \<Rightarrow> JNull | Some d \<Rightarrow> decimal_encoder d)) = Some c"
      "map_option dec_val c = map_option dec_val (p_delivery_cost_rub p)"
    using as_optional_encoder by blast
  have "validate_view (orm_json r) = Some \<lparr>pv_id = p_id p, pv_name = p_name p, pv_weight_kg = w,
      pv_declared_value_usd = u, pv_delivery_cost_rub = c, pv_parcel_type = t\<rparr>"
    by (simp add: validate_view_def orm_json_def r model_field_def as_str_def w c u validate_type_def)
  with w(2) u(2) c(2) assms r show ?thesis by (auto simp: same_values_def view_of_def)
qed

interpretation parcel_copies: cached_reads reference_redis "make_cache_key S C" orm_json for S C
  by (simp add: cached_reads_def cached_reads_axioms_def ref_redis.redis_store_axioms)

lemma cached_get_alt:
  "cached_get P t_get t_set req owner =
     redis_cache (pf_redis P) (make_cache_key (pf_settings P) (pf_crypto P)) ''parcel''
       (CACHE_TTL_DEFAULT (pf_settings P)) orm_json t_get t_set [RequestArg req] []
       (\<lambda>a. (get_parcel (pf_settings P) (path_parcel_id req) owner (app_db a), a))"
  by (simp add: cached_get_def Let_def redis_cache_keyword)

text \<open>The three outcomes of an uncached single read.\<close>

lemma get_route_admitted:
  assumes "get_parcel_reader_owner_id (pf_settings P) (pf_jwt P) now req (pf_bearer P req) = Inr owner"
    and "snd (l_hit (pf_limiter P) (w_limits w) now (RATE_LIMIT_DETAIL (pf_settings P)) (route_identifier req)
      (remote_address req))"
    and "get_parcel_route P now t_get t_set req w = (resp, w')"
  shows "(case respond_with (render view_of validate_view parcel_view_json)
      (cached_get P t_get t_set req owner (w_app w)) of
        (Inl e, a) \<Rightarrow> resp = respond_error e \<and> w_app w' = a
      | (Inr r, a) \<Rightarrow> resp = r \<and> w_app w' = a)"
  using assms
  by (auto simp: get_parcel_route_def with_dependency_def Let_def limited_def limit_def
      split: prod.splits bool.splits sum.splits)

lemma get_route_uncached:
  assumes "db_ok (app_db (w_app w))"
    and "get_parcel_reader_owner_id (pf_settings P) (pf_jwt P) now req (pf_bearer P req) = Inr owner"
    and "snd (l_hit (pf_limiter P) (w_limits w) now (RATE_LIMIT_DETAIL (pf_settings P)) (route_identifier req)
      (remote_address req))"
    and "r_get (pf_redis P) (app_redis (w_app w)) t_get
      (make_cache_key (pf_settings P) (pf_crypto P) ''parcel'' req) = None"
    and "get_parcel_route P now t_get t_set req w = (resp, w')"
  shows "app_db (w_app w') = app_db (w_app w) \<and>
    (case find_by p_id (parcels (app_db (w_app w))) (path_parcel_id req) of
       None \<Rightarrow> resp = plain_response 404 (JObj [(''detail'', JStr ''Not found'')]) \<and> w_app w' = w_app w
     | Some p \<Rightarrow>
         if owner_match (pf_settings P) owner p then
           \<exists>ty. ty \<in> set (parcel_types (app_db (w_app w))) \<and> pt_id ty = p_parcel_type_id p \<and>
             resp = plain_response 200 (parcel_read p ty) \<and>
             app_redis (w_app w') = r_set (pf_redis P) (app_redis (w_app w)) t_set
               (make_cache_key (pf_settings P) (pf_crypto P) ''parcel'' req) (json_dumps (orm_json (p, Some ty)))
               (Some (CACHE_TTL_DEFAULT (pf_settings P)))
         else resp = plain_response 403 (JObj [(''detail'', JStr ''Forbidden'')]) \<and> w_app w' = w_app w)"
proof -
  let ?S = "pf_settings P" and ?db = "app_db (w_app w)"
  note adm = get_route_admitted [OF assms(2,3,5), unfolded cached_get_alt]
  show ?thesis
  proof (cases "find_by p_id (parcels ?db) (path_parcel_id req)")
    case None
    then have "get_parcel ?S (path_parcel_id req) owner ?db = Inl (HTTPException 404 ''Not found'')"
      by (simp add: get_parcel_def get_owned_def crud_get_def)
    with adm assms(4) None show ?thesis
      by (simp add: redis_cache_def Let_def respond_error_def)
  next
    case (Some p)
    show ?thesis
    proof (cases "owner_match ?S owner p")
      case False
      with Some have "get_parcel ?S (path_parcel_id req) owner ?db = Inl (HTTPException 403 ''Forbidden'')"
        by (simp add: get_parcel_def get_owned_def crud_get_def)
      with adm assms(4) Some False show ?thesis
        by (simp add: redis_cache_def Let_def respond_error_def)
    next
      case True
      have "p \<in> set (parcels ?db)" using find_by_SomeD [OF Some] by simp
      from with_type_ok [OF assms(1) this] obtain ty where ty: "with_type ?db p = (p, Some ty)"
        "pt_id ty = p_parcel_type_id p" by metis
      then have mem: "ty \<in> set (parcel_types ?db)"
        by (auto simp: with_type_def dest: crud_get_SomeD)
      from True Some ty(1) have "get_parcel ?S (path_parcel_id req) owner ?db = Inr (p, Some ty)"
        by (simp add: get_parcel_def get_owned_def crud_get_def)
      moreover have "view_of (p, Some ty) = Some v \<Longrightarrow> parcel_view_json v = parcel_read p ty" for v
        by (auto simp: view_of_def parcel_view_json_def parcel_read_def)
      ultimately show ?thesis using adm assms(4) Some True ty(2) mem
        by (auto simp: redis_cache_def Let_def render_def view_of_def parcel_view_json_def parcel_read_def)
    qed
  qed
qed

subsection \<open>The route\<close>



definition get_request :: request where
  "get_request = list_request\<lparr>rq_path := ''/parcels/p1''\<rparr>"

definition session_view :: "decimal \<Rightarrow> decimal \<Rightarrow> parcel_view" where
  "session_view weight price = \<lparr>pv_id = ''p1'', pv_name = ''box'', pv_weight_kg = weight,
     pv_declared_value_usd = price, pv_delivery_cost_rub = None,
     pv_parcel_type = \<lparr>pt_id = ''t1'', pt_name = ''misc''\<rparr>\<rparr>"

lemma get_request_owner:
  "get_parcel_reader_owner_id (pf_settings session_platform) J now get_request tok = Inr sample_uuid"
  by (simp add: get_parcel_reader_owner_id_def get_owner_id_def get_session_id_def get_request_def list_request_def)

lemma get_request_id: "path_parcel_id get_request = ''p1''"
  by (simp add: path_parcel_id_def get_request_def)

lemma session_detail_limit [simp]: "RATE_LIMIT_DETAIL (pf_settings session_platform) = ''60/minute''"
  by (simp add: session_platform_def) (simp add: default_settings_def)

lemma get_request_hit: "snd (l_hit (pf_limiter session_platform) (w_limits (session_world d r)) now
    (RATE_LIMIT_DETAIL (pf_settings session_platform)) (route_identifier get_request) (remote_address get_request))"
  by (simp add: session_hit session_world_def)

lemma session_db_ok: "db_ok session_db"
proof -
  have "length sample_uuid \<le> 255" by code_simp
  then show ?thesis
    by (simp add: db_ok_defs session_db_def sample_db_def sample_parcel_def type_row_ok_def parcel_row_ok_def
        parcel_refs_ok_def dec_val_Dec)
qed

lemma session_find: "find_by p_id (parcels session_db) ''p1'' = Some (sample_parcel\<lparr>p_session_id := sample_uuid\<rparr>)"
  by (simp add: session_db_def find_by_def sample_parcel_def)

lemma session_world_db: "app_db (w_app (session_world d r)) = d"
  by (simp add: session_world_def)


lemma cached_copy_text:
  "dec_str (Dec False 2000 (-3)) = ''2.000''" "float_repr (Dec False 2000 (-3)) = ''2.0''"
  by code_simp+


end
