(* ===== verification/Pricing_Deadline.thy ===== *)
theory Pricing_Deadline
  imports Recalc_Runs Parcel_Service Auth_Guarantees
begin

text \<open>
  When a registered parcel gets its cost.  The scheduler process fires a run at fixed
  instants while the web process serves requests; a run is skipped while the Redis lock of an
  earlier one lives.  \<open>served\<close> is what the web process may do between two ticks: register
  parcels, run the authentication service, and write Redis keys other than the lock
  (cached responses, rates).  The main theorem bounds the wait by three ticks.
\<close>

inductive served ::
  "settings \<Rightarrow> engine \<Rightarrow> 'r redis_ops \<Rightarrow> crypto \<Rightarrow> jwt_lib \<Rightarrow> instant \<Rightarrow> 'r app \<Rightarrow> 'r app \<Rightarrow> bool"
  for S E R C J until st0 where
  idle: "served S E R C J until st0 st0"
| creates: "served S E R C J until st0 st \<Longrightarrow> create_from_dto S E i data owner st = (res, st') \<Longrightarrow>
    served S E R C J until st0 st'"
| authenticates: "served S E R C J until st0 st \<Longrightarrow>
    served S E R C J until st0 (st\<lparr>app_db := auth_effect S C J c (app_db st)\<rparr>)"
| stores: "served S E R C J until st0 st \<Longrightarrow> k \<noteq> ''delivery_job_lock'' \<Longrightarrow> t \<le> until \<Longrightarrow>
    served S E R C J until st0 (st\<lparr>app_redis := r_set R (app_redis st) t k v ex\<rparr>)"

text \<open>One scheduled run, and the environment that lets it do its work when the lock is free.\<close>

definition scheduled_run ::
  "settings \<Rightarrow> engine \<Rightarrow> 'r redis_ops \<Rightarrow> rate_source \<Rightarrow> run_times \<Rightarrow> 'r app \<Rightarrow> 'r app \<Rightarrow> bool" where
  "scheduled_run S E R H tm st st' \<longleftrightarrow>
     (\<exists>res. recalc_delivery_costs S E R H tm st = Some (res, st')) \<and> ordered_times tm \<and>
     (lock_free R (app_redis st) (at_lock tm) \<longrightarrow>
        (\<exists>rate. rate_of_run S R H tm (app_redis st) = Inr rate \<and>
           list_all (\<lambda>p. unpriced p \<longrightarrow> cost_storable S E rate p) (parcels (app_db st))))"

text \<open>Every parcel is still there, and a cost once set is never changed.\<close>

definition keeps_parcels :: "'r app \<Rightarrow> 'r app \<Rightarrow> bool" where
  "keeps_parcels st st' \<longleftrightarrow>
     (\<forall>p \<in> set (parcels (app_db st)). \<exists>q \<in> set (parcels (app_db st')).
        q\<lparr>p_delivery_cost_rub := None\<rparr> = p\<lparr>p_delivery_cost_rub := None\<rparr> \<and> (\<not> unpriced p \<longrightarrow> q = p))"

lemma keeps_parcels_refl [simp]: "keeps_parcels st st"
  by (auto simp: keeps_parcels_def)

lemma keeps_parcels_subset:
  "set (parcels (app_db st)) \<subseteq> set (parcels (app_db st')) \<Longrightarrow> keeps_parcels st st'"
  by (auto simp: keeps_parcels_def)

lemma keeps_parcels_trans [trans]:
  assumes "keeps_parcels a b" and "keeps_parcels b c"
  shows "keeps_parcels a c"
  unfolding keeps_parcels_def
proof
  fix p assume "p \<in> set (parcels (app_db a))"
  with assms(1) obtain q where q: "q \<in> set (parcels (app_db b))"
      "q\<lparr>p_delivery_cost_rub := None\<rparr> = p\<lparr>p_delivery_cost_rub := None\<rparr>" "\<not> unpriced p \<longrightarrow> q = p"
    unfolding keeps_parcels_def by blast
  with assms(2) obtain r where "r \<in> set (parcels (app_db c))"
      "r\<lparr>p_delivery_cost_rub := None\<rparr> = q\<lparr>p_delivery_cost_rub := None\<rparr>" "\<not> unpriced q \<longrightarrow> r = q"
    unfolding keeps_parcels_def by blast
  with q show "\<exists>q \<in> set (parcels (app_db c)).
      q\<lparr>p_delivery_cost_rub := None\<rparr> = p\<lparr>p_delivery_cost_rub := None\<rparr> \<and> (\<not> unpriced p \<longrightarrow> q = p)"
    by (intro bexI [of _ r]) auto
qed

lemma create_from_dto_parcels:
  assumes "create_from_dto S E i data owner st = (res, st')"
  shows "set (parcels (app_db st)) \<subseteq> set (parcels (app_db st'))" and "app_redis st' = app_redis st"
    and "db_ok (app_db st) \<Longrightarrow> db_ok (app_db st')"
proof -
  have "set (parcels (app_db st)) \<subseteq> set (parcels (app_db st')) \<and> app_redis st' = app_redis st \<and>
      (db_ok (app_db st) \<longrightarrow> db_ok (app_db st'))"
  proof (cases res)
    case (Inl e)
    with assms create_from_dto_Inl [of S E i data owner st e st'] show ?thesis by simp
  next
    case (Inr p)
    with assms create_from_dto_Inr [of S E i data owner st p st'] insert_parcel_db_ok
    show ?thesis by (metis app.select_convs(2) app.surjective app.update_convs(1,3) create_appends(1)
        set_append sup_ge1)
  qed
  then show "set (parcels (app_db st)) \<subseteq> set (parcels (app_db st'))" and "app_redis st' = app_redis st"
    and "db_ok (app_db st) \<Longrightarrow> db_ok (app_db st')" by blast+
qed

context delivery_env
begin

lemma served_keeps:
  assumes "served S E R C J until st0 st"
  shows "keeps_parcels st0 st" and "db_ok (app_db st0) \<Longrightarrow> db_ok (app_db st)"
    and "until \<le> t \<Longrightarrow> lock_free R (app_redis st) t = lock_free R (app_redis st0) t"
proof -
  have "keeps_parcels st0 st \<and> (db_ok (app_db st0) \<longrightarrow> db_ok (app_db st)) \<and>
      (until \<le> t \<longrightarrow> lock_free R (app_redis st) t = lock_free R (app_redis st0) t)"
    using assms
  proof (induction rule: served.induct)
    case idle
    then show ?case by simp
  next
    case (creates st i data owner res st')
    note step = create_from_dto_parcels [OF creates(2)]
    from creates.IH keeps_parcels_trans keeps_parcels_subset [OF step(1)]
    have "keeps_parcels st0 st'" by blast
    with creates.IH step(2,3) show ?case by simp
  next
    case (authenticates st c)
    have "keeps_parcels st (st\<lparr>app_db := auth_effect S C J c (app_db st)\<rparr>)"
      using auth_effect_tables [of S C J c "app_db st"] by (intro keeps_parcels_subset) simp
    then have "keeps_parcels st0 (st\<lparr>app_db := auth_effect S C J c (app_db st)\<rparr>)"
      using authenticates.IH keeps_parcels_trans by blast
    moreover have "db_ok (app_db st0) \<longrightarrow> db_ok (auth_effect S C J c (app_db st))"
      using authenticates.IH auth_effect_db_ok by blast
    ultimately show ?case using authenticates.IH by simp
  next
    case (stores st k u v ex)
    have "keeps_parcels st (st\<lparr>app_redis := r_set R (app_redis st) u k v ex\<rparr>)"
      by (intro keeps_parcels_subset) simp
    then have "keeps_parcels st0 (st\<lparr>app_redis := r_set R (app_redis st) u k v ex\<rparr>)"
      using stores.IH keeps_parcels_trans by blast
    moreover have "until \<le> t \<Longrightarrow> lock_free R (r_set R (app_redis st) u k v ex) t = lock_free R (app_redis st) t"
      using stores(2,3) by (simp add: lock_free_def get_set)
    ultimately show ?case using stores.IH by simp
  qed
  then show "keeps_parcels st0 st" and "db_ok (app_db st0) \<Longrightarrow> db_ok (app_db st)"
    and "until \<le> t \<Longrightarrow> lock_free R (app_redis st) t = lock_free R (app_redis st0) t" by blast+
qed

lemma scheduled_run_locked:
  "scheduled_run S E R H tm st st' \<Longrightarrow> \<not> lock_free R (app_redis st) (at_lock tm) \<Longrightarrow> st' = st"
  using run_skips_when_locked by (auto simp: scheduled_run_def)

lemma scheduled_run_free:
  assumes "scheduled_run S E R H tm st st'" and "lock_free R (app_redis st) (at_lock tm)"
    and "0 < DELIVERY_BATCH_SIZE S" and "db_ok (app_db st)"
  shows "keeps_parcels st st'" and "list_all (\<lambda>p. \<not> unpriced p) (parcels (app_db st'))"
proof -
  obtain res rate where run: "recalc_delivery_costs S E R H tm st = Some (res, st')"
      and rate: "rate_of_run S R H tm (app_redis st) = Inr rate"
      and ok: "\<forall>p \<in> set (parcels (app_db st)). unpriced p \<longrightarrow> cost_storable S E rate p"
    using assms(1,2) by (auto simp: scheduled_run_def list_all_iff)
  from run_prices_all [OF assms(3,4,2) rate ok] run
  have db: "app_db st' = app_db st\<lparr>parcels := update_where unpriced (priced S E rate) (parcels (app_db st))\<rparr>"
    and all: "\<forall>p \<in> set (parcels (app_db st')). \<not> unpriced p" by auto
  show "keeps_parcels st st'"
    unfolding keeps_parcels_def
  proof
    fix p assume p: "p \<in> set (parcels (app_db st))"
    let ?q = "if unpriced p then priced S E rate p else p"
    have "?q \<in> set (update_where unpriced (priced S E rate) (parcels (app_db st)))"
      unfolding in_update_where using p by blast
    then have "?q \<in> set (parcels (app_db st'))" by (simp add: db)
    moreover have "?q\<lparr>p_delivery_cost_rub := None\<rparr> = p\<lparr>p_delivery_cost_rub := None\<rparr> \<and> (\<not> unpriced p \<longrightarrow> ?q = p)"
      by (simp add: priced_def)
    ultimately show "\<exists>q \<in> set (parcels (app_db st')).
        q\<lparr>p_delivery_cost_rub := None\<rparr> = p\<lparr>p_delivery_cost_rub := None\<rparr> \<and> (\<not> unpriced p \<longrightarrow> q = p)" by blast
  qed
  from all show "list_all (\<lambda>p. \<not> unpriced p) (parcels (app_db st'))" by (simp add: list_all_iff)
qed

lemma scheduled_run_keeps:
  assumes "scheduled_run S E R H tm st st'" and "0 < DELIVERY_BATCH_SIZE S" and "db_ok (app_db st)"
  shows "keeps_parcels st st'" and "db_ok (app_db st')"
proof -
  show "keeps_parcels st st'"
    using scheduled_run_free(1) [OF assms(1) _ assms(2,3)] scheduled_run_locked [OF assms(1)] keeps_parcels_refl
    by blast
  from assms(1) obtain res where "recalc_delivery_costs S E R H tm st = Some (res, st')"
    by (auto simp: scheduled_run_def)
  with run_frame assms(3) show "db_ok (app_db st')" by blast
qed

lemma all_priced_stays:
  assumes "keeps_parcels a b" and "list_all (\<lambda>p. \<not> unpriced p) (parcels (app_db b))" and "keeps_parcels b c"
    and "p \<in> set (parcels (app_db a))"
  shows "\<exists>q \<in> set (parcels (app_db c)).
    q\<lparr>p_delivery_cost_rub := None\<rparr> = p\<lparr>p_delivery_cost_rub := None\<rparr> \<and> \<not> unpriced q"
proof -
  from assms(1,4) obtain q where q: "q \<in> set (parcels (app_db b))"
      "q\<lparr>p_delivery_cost_rub := None\<rparr> = p\<lparr>p_delivery_cost_rub := None\<rparr>"
    unfolding keeps_parcels_def by blast
  with assms(2) have "\<not> unpriced q" by (simp add: list_all_iff)
  with assms(3) q show ?thesis unfolding keeps_parcels_def by (metis q(1))
qed

end

text \<open>Three ticks of the schedule, the first at \<open>st0\<close>, with the web process at work in between.\<close>

definition three_ticks ::
  "settings \<Rightarrow> engine \<Rightarrow> 'r redis_ops \<Rightarrow> crypto \<Rightarrow> jwt_lib \<Rightarrow> run_times \<Rightarrow> run_times \<Rightarrow> run_times \<Rightarrow>
     'r app \<Rightarrow> 'r app \<Rightarrow> bool" where
  "three_ticks S E R C J tm1 tm2 tm3 st0 st5 \<longleftrightarrow>
     (\<exists>H1 H2 H3 st1 st2 st3 st4. scheduled_run S E R H1 tm1 st0 st1 \<and> served S E R C J (at_lock tm2) st1 st2 \<and>
        scheduled_run S E R H2 tm2 st2 st3 \<and> served S E R C J (at_lock tm3) st3 st4 \<and>
        scheduled_run S E R H3 tm3 st4 st5)"

lemma priced_after_three_ticks:
  assumes env: "delivery_env E R" and batch: "0 < DELIVERY_BATCH_SIZE S" and ok: "db_ok (app_db st0)"
    and lock: "\<And>t. at_lock tm1 \<le> t \<Longrightarrow> lock_free R (app_redis st0) t \<longleftrightarrow> free_at \<le> t"
      "free_at \<le> at_lock tm1 + DELIVERY_LOCK_TTL S"
    and period: "0 \<le> interval" "DELIVERY_LOCK_TTL S \<le> 2 * interval" "at_lock tm2 = at_lock tm1 + interval"
      "at_lock tm3 = at_lock tm1 + 2 * interval"
    and ticks: "three_ticks S E R C J tm1 tm2 tm3 st0 st5"
    and p: "p \<in> set (parcels (app_db st0))"
  shows "db_ok (app_db st5) \<and> (\<exists>q \<in> set (parcels (app_db st5)).
    q\<lparr>p_delivery_cost_rub := None\<rparr> = p\<lparr>p_delivery_cost_rub := None\<rparr> \<and> p_delivery_cost_rub q \<noteq> None)"
proof -
  obtain H1 H2 H3 st1 st2 st3 st4 where runs: "scheduled_run S E R H1 tm1 st0 st1" "served S E R C J (at_lock tm2) st1 st2"
      "scheduled_run S E R H2 tm2 st2 st3" "served S E R C J (at_lock tm3) st3 st4"
      "scheduled_run S E R H3 tm3 st4 st5"
    using ticks unfolding three_ticks_def by blast
  note run_keeps = delivery_env.scheduled_run_keeps [OF env _ batch]
    and run_free = delivery_env.scheduled_run_free [OF env _ _ batch]
    and run_locked = delivery_env.scheduled_run_locked [OF env]
    and web = delivery_env.served_keeps [OF env]
    and kept = delivery_env.all_priced_stays [OF env _ _ _ p]
  note k1 = run_keeps [OF runs(1) ok]
  note w1 = web [OF runs(2)]
  have ok2: "db_ok (app_db st2)" using w1(2) k1(2) by blast
  note k2 = run_keeps [OF runs(3) ok2]
  note w2 = web [OF runs(4)]
  have ok4: "db_ok (app_db st4)" using w2(2) k2(2) by blast
  note k3 = run_keeps [OF runs(5) ok4]
  have to2: "keeps_parcels st0 st2" and to4: "keeps_parcels st0 st4" and from1: "keeps_parcels st1 st5"
    and from3: "keeps_parcels st3 st5"
    using k1(1) w1(1) k2(1) w2(1) k3(1) keeps_parcels_trans by blast+
  consider (first) "free_at \<le> at_lock tm1" | (second) "at_lock tm1 < free_at" "free_at \<le> at_lock tm2"
    | (third) "at_lock tm2 < free_at" by linarith
  then show ?thesis
  proof cases
    case first
    then have "lock_free R (app_redis st0) (at_lock tm1)" by (simp add: lock(1))
    from kept [OF run_free(1) [OF runs(1) this ok] run_free(2) [OF runs(1) this ok] from1] k3(2) show ?thesis by simp
  next
    case second
    then have "st1 = st0" using run_locked [OF runs(1)] by (simp add: lock(1))
    with second lock(1) period w1(3) [of "at_lock tm2"] have "lock_free R (app_redis st2) (at_lock tm2)" by simp
    from kept [OF keeps_parcels_trans [OF to2 k2(1)] run_free(2) [OF runs(3) this ok2] from3] k3(2)
    show ?thesis by simp
  next
    case third
    then have 1: "st1 = st0" using run_locked [OF runs(1)] period by (simp add: lock(1))
    with third lock(1) period w1(3) [of "at_lock tm2"] have "\<not> lock_free R (app_redis st2) (at_lock tm2)" by simp
    then have 3: "st3 = st2" by (rule run_locked [OF runs(3)])
    have "lock_free R (app_redis st4) (at_lock tm3)"
      using 1 3 lock period w1(3) [of "at_lock tm3"] w2(3) [of "at_lock tm3"] by simp
    from kept [OF keeps_parcels_trans [OF to4 k3(1)] run_free(2) [OF runs(5) this ok4] keeps_parcels_refl] k3(2)
    show ?thesis by simp
  qed
qed

text \<open>
  No parcel waits longer than three ticks.  Let the lock, if taken, run out within its
  time to live of the first tick, and let the time to live be at most two intervals (330 s
  and 300 s as shipped).  Whatever the web process does in between, every parcel
  registered before the first tick is there after the third with its cost, and is otherwise
  unchanged: one of the three runs gets the lock, and a cost once set is kept.
\<close>

theorem parcel_priced_within_three_ticks:
  assumes env: "delivery_env E R" and batch: "0 < DELIVERY_BATCH_SIZE S" and ok: "db_ok (app_db st0)"
    and lock: "\<And>t. at_lock tm1 \<le> t \<Longrightarrow> lock_free R (app_redis st0) t \<longleftrightarrow> free_at \<le> t"
      "free_at \<le> at_lock tm1 + DELIVERY_LOCK_TTL S"
    and period: "0 \<le> interval" "DELIVERY_LOCK_TTL S \<le> 2 * interval" "at_lock tm2 = at_lock tm1 + interval"
      "at_lock tm3 = at_lock tm1 + 2 * interval"
    and runs: "scheduled_run S E R H1 tm1 st0 st1" "served S E R C J (at_lock tm2) st1 st2"
      "scheduled_run S E R H2 tm2 st2 st3" "served S E R C J (at_lock tm3) st3 st4"
      "scheduled_run S E R H3 tm3 st4 st5"
    and p: "p \<in> set (parcels (app_db st0))"
  shows "\<exists>q \<in> set (parcels (app_db st5)).
    q\<lparr>p_delivery_cost_rub := None\<rparr> = p\<lparr>p_delivery_cost_rub := None\<rparr> \<and> p_delivery_cost_rub q \<noteq> None"
  using priced_after_three_ticks [OF env batch ok lock period _ p] runs unfolding three_ticks_def by blast

text \<open>The lock of a run at 0 is still there at 0 and 300, and free at 600.\<close>

theorem parcel_priced_within_three_ticks_witness:
  "\<exists>st5. scheduled_run default_settings reference_engine reference_redis sample_source
      (sample_times 600) locked_app st5 \<and>
    list_ex (\<lambda>q. q\<lparr>p_delivery_cost_rub := None\<rparr> = sample_parcel \<and> p_delivery_cost_rub q \<noteq> None)
      (parcels (app_db st5))"
proof -
  have rows: "parcels (app_db locked_app) = [sample_parcel]" "db_ok (app_db locked_app)"
    using sample_pending by (simp_all add: locked_app_def)
  have lock: "lock_free reference_redis (app_redis locked_app) t \<longleftrightarrow> 330 \<le> t" for t
    by (simp add: lock_free_def locked_app_def)
  have rate: "rate_of_run default_settings reference_redis sample_source (sample_times 600)
      (app_redis locked_app) = Inr sample_rate"
    using sample_rate_fetched [of "empty_kv(''delivery_job_lock'' := Some (''1'', Some 930))" 601]
      rate_key_not_lock [of 601]
    by (simp add: rate_of_run_def acquire_lock_def locked_app_def sample_times_def empty_kv_def)
  have batch: "0 < DELIVERY_BATCH_SIZE default_settings" by simp
  have early: "scheduled_run default_settings reference_engine reference_redis sample_source
      (sample_times t) locked_app locked_app" if "t < 330" for t
    using that ref_delivery.run_skips_when_locked [of locked_app "sample_times t"] lock
    by (simp add: scheduled_run_def ordered_times_def sample_times_def)
  obtain st5 where "recalc_delivery_costs default_settings reference_engine reference_redis sample_source
      (sample_times 600) locked_app = Some (Inr (length (filter unpriced (parcels (app_db locked_app)))), st5)"
    using ref_delivery.run_prices_all [OF batch rows(2) _ rate] lock rows(1) sample_storable
    by (auto simp: sample_times_def)
  then have last: "scheduled_run default_settings reference_engine reference_redis sample_source
      (sample_times 600) locked_app st5"
    using rate rows(1) sample_storable by (simp add: scheduled_run_def ordered_times_def sample_times_def)
  have "\<exists>q \<in> set (parcels (app_db st5)). q\<lparr>p_delivery_cost_rub := None\<rparr> = sample_parcel\<lparr>p_delivery_cost_rub := None\<rparr> \<and>
      p_delivery_cost_rub q \<noteq> None"
    by (rule parcel_priced_within_three_ticks [where R = reference_redis and E = reference_engine
          and S = default_settings and ?tm1.0 = "sample_times 0" and ?tm2.0 = "sample_times 300"
          and ?tm3.0 = "sample_times 600" and free_at = 330 and interval = 300
          and C = reference_crypto and J = reference_jwt,
          OF ref_delivery.delivery_env_axioms batch rows(2) _ _ _ _ _ _ early served.idle early served.idle last])
      (simp_all add: lock rows(1), simp_all add: sample_times_def)
  moreover have "sample_parcel\<lparr>p_delivery_cost_rub := None\<rparr> = sample_parcel" by (simp add: sample_parcel_def)
  ultimately show ?thesis using last by (auto simp: list_ex_iff)
qed

end
