(* ===== verification/App.thy ===== *)
theory App
  imports Detail_Guarantees Pricing_Deadline
begin

text \<open>
  The application of \<^verbatim>\<open>app/main.py\<close>: its eleven routes behind one dispatcher, the session
  middleware, which is installed only when \<^verbatim>\<open>AUTH_REQUIRED\<close> is off, and the scheduler
  process beside it, as steps of one system over the shared database and Redis.  A call
  carries its parsed body and what it will draw from the clock and the random sources.
\<close>

datatype api_call =
    Post_Register user_draws draws user_register
  | Post_Login draws string string
  | Post_Refresh draws
  | Post_Logout instant
  | Post_Logout_All instant
  | Post_Parcel ident parcel_create
  | Get_Parcels instant instant
  | Get_Parcel instant instant
  | Get_Parcel_Types instant instant
  | Get_Health
  | Post_Recalc run_times

fun routed ::
  "('r, 'l) platform \<Rightarrow> instant \<Rightarrow> api_call \<Rightarrow> request \<Rightarrow> ('r, 'l) world \<Rightarrow>
     (http_response \<times> ('r, 'l) world) option" where
  "routed P now (Post_Register ud d body) req w = Some (register_route P now ud d req body w)"
| "routed P now (Post_Login d email password) req w = Some (login_route P now d req email password w)"
| "routed P now (Post_Refresh d) req w = Some (refresh_route P now d req w)"
| "routed P now (Post_Logout t) req w = Some (logout_route P now t req w)"
| "routed P now (Post_Logout_All t) req w = Some (logout_all_route P now t req w)"
| "routed P now (Post_Parcel i body) req w = Some (register_parcel P now i req body w)"
| "routed P now (Get_Parcels t_get t_set) req w = Some (list_parcels_route P now t_get t_set req w)"
| "routed P now (Get_Parcel t_get t_set) req w = Some (get_parcel_route P now t_get t_set req w)"
| "routed P now (Get_Parcel_Types t_get t_set) req w = Some (list_parcel_types_route P now t_get t_set req w)"
| "routed P now Get_Health req w = Some (healthcheck, w)"
| "routed P now (Post_Recalc tm) req w = recalc_route P now tm req w"

text \<open>
  \<open>fresh\<close> is the UUID the middleware draws when a request has no usable session id.  The
  handler of \<^verbatim>\<open>Exception\<close>, the only one that answers 500, runs outside every middleware, as
  Starlette documents: such a request raises through the session middleware, and its
  answer is the one the router's model already gives.
\<close>

definition through_handlers :: "http_response \<Rightarrow> http_response result" where
  "through_handlers resp =
     (if status_code resp = 500 then Inl (UnexpectedError ''unhandled'') else Inr resp)"

definition app :: "('r, 'l) platform \<Rightarrow> ident \<Rightarrow> instant \<Rightarrow> api_call \<Rightarrow> request \<Rightarrow> ('r, 'l) world \<Rightarrow>
    (http_response \<times> ('r, 'l) world) option" where
  "app P fresh now call req w =
     (if AUTH_REQUIRED (pf_settings P) then routed P now call req w
      else map_option (\<lambda>(answer, w').
             case assign_session_id fresh (\<lambda>rq w. (through_handlers answer, w')) req w of
               (Inl e, w2) \<Rightarrow> (answer, w2)
             | (Inr resp, w2) \<Rightarrow> (resp, w2))
             (routed P now call (req\<lparr>rq_session := Some (choose_session fresh req)\<rparr>) w))"

lemma app_routed:
  assumes "app P fresh now call req w = Some (resp, w')"
  obtains rq resp0 where "routed P now call rq w = Some (resp0, w')"
    and "status_code resp = status_code resp0" and "content resp = content resp0"
proof (cases "AUTH_REQUIRED (pf_settings P)")
  case True
  with assms that show thesis by (simp add: app_def)
next
  case False
  with assms that show thesis
    by (auto simp: app_def assign_session_id_def through_handlers_def Let_def split: prod.splits if_splits)
qed

subsection \<open>What a request may do to the database\<close>

text \<open>
  A route's handler acts on the application state; the limiter either lets it or does not.
\<close>

lemma limited_state:
  assumes "limited P lv now req handler w = (resp, w')" and "R (w_app w)" and "R (snd (handler (w_app w)))"
  shows "R (w_app w')"
  using assms(1)
proof (cases rule: limited_cases)
  case refused
  with assms(2) show ?thesis by simp
next
  case (failed e)
  with assms(3) show ?thesis by simp
next
  case served
  with assms(3) show ?thesis by simp
qed

definition token_ids :: "db \<Rightarrow> ident set" where
  "token_ids db = rt_jti ` set (refresh_tokens db)"

text \<open>
  Nothing the program stores is lost: parcel types are as they were, users and refresh
  tokens are only added (a token's row may be stamped), and parcels stay, a cost once set
  being final.
\<close>

definition grows :: "'r app \<Rightarrow> 'r app \<Rightarrow> bool" where
  "grows a b \<longleftrightarrow> keeps_parcels a b \<and> parcel_types (app_db b) = parcel_types (app_db a) \<and>
     set (users (app_db a)) \<subseteq> set (users (app_db b)) \<and>
     token_ids (app_db a) \<subseteq> token_ids (app_db b) \<and>
     (db_ok (app_db a) \<longrightarrow> db_ok (app_db b))"

lemma grows_trans [trans]:
  assumes "grows a b" and "grows b c"
  shows "grows a c"
proof -
  have "keeps_parcels a c"
    by (rule keeps_parcels_trans [of a b]) (use assms in \<open>simp_all add: grows_def\<close>)
  moreover have "set (users (app_db a)) \<subseteq> set (users (app_db c))"
    by (rule order_trans [of _ "set (users (app_db b))"]) (use assms in \<open>simp_all add: grows_def\<close>)
  moreover have "token_ids (app_db a) \<subseteq> token_ids (app_db c)"
    by (rule order_trans [of _ "token_ids (app_db b)"]) (use assms in \<open>simp_all add: grows_def\<close>)
  ultimately show ?thesis using assms by (simp add: grows_def)
qed

lemma grows_same_db: "app_db b = app_db a \<Longrightarrow> grows a b"
  using keeps_parcels_subset [of a b] by (simp add: grows_def)

lemma grows_refl [simp]: "grows a a"
  by (rule grows_same_db) simp

lemma token_ids_writes:
  "token_ids (revoke_where Q now db) = token_ids db" "token_ids (stamp_revoked t now db) = token_ids db"
  "token_ids (replace_token t now j db) = token_ids db"
  "insert_token n db = Inr db' \<Longrightarrow> token_ids db \<subseteq> token_ids db'"
  "insert_user u db = Inr db' \<Longrightarrow> token_ids db' = token_ids db"
  by (auto simp: token_ids_def revoke_where_def stamp_revoked_def replace_token_def set_token_def
      image_update_where insert_token_Inr_iff insert_user_Inr_iff)

lemma token_ids_issue: "token_ids db \<subseteq> token_ids (snd (issue_tokens S C J d u db))"
  using token_ids_writes(4) by (auto simp: issue_tokens_def split: sum.split)

lemma auth_effect_jtis: "token_ids db \<subseteq> token_ids (auth_effect S C J c db)"
proof (cases c)
  case (Register ud d email password)
  have "token_ids db \<subseteq> token_ids (snd (issue_tokens S C J d u db1))" if "insert_user u db = Inr db1" for u db1
    using token_ids_issue [of db1 S C J d u] token_ids_writes(5) [OF that] by simp
  with Register show ?thesis by (simp add: register_def Let_def split: option.split sum.split)
next
  case (Login d email password)
  with token_ids_issue [of db S C J d] show ?thesis
    by (simp add: login_def split: option.split sum.split bool.split)
next
  case (Refresh d raw)
  have "token_ids db \<subseteq> token_ids db'" if "insert_token n (replace_token t now j db) = Inr db'" for n t now j db'
    using token_ids_writes(3) token_ids_writes(4) [OF that] by simp
  with Refresh show ?thesis
    by (auto simp: refresh_def Let_def revoke_family_def token_ids_writes(1,2) split: option.split sum.split)
next
  case (Logout now raw)
  then show ?thesis by (simp add: logout_def token_ids_writes split: sum.split)
next
  case (Logout_All now user_id)
  then show ?thesis by (simp add: logout_all_def token_ids_writes)
qed

lemma auth_grows: "grows a (a\<lparr>app_db := auth_effect S C J c (app_db a)\<rparr>)"
  using auth_effect_tables [of S C J c "app_db a"] auth_effect_db_ok [of "app_db a" S C J c]
    auth_effect_jtis [of "app_db a" S C J c] keeps_parcels_subset [of a "a\<lparr>app_db := auth_effect S C J c (app_db a)\<rparr>"]
  by (simp add: grows_def)

lemma create_grows:
  assumes "create_from_dto S E i data owner a = (res, b)"
  shows "grows a b"
proof (cases res)
  case (Inl e)
  with assms create_from_dto_Inl [of S E i data owner a e b] show ?thesis by simp
next
  case (Inr p)
  with assms create_from_dto_Inr [of S E i data owner a p b]
  have "insert_parcel E (new_parcel S i data owner) (app_db a) = Inr (p, app_db b)" by simp
  then have "users (app_db b) = users (app_db a)" "refresh_tokens (app_db b) = refresh_tokens (app_db a)"
      "parcel_types (app_db b) = parcel_types (app_db a)" by (auto simp: insert_parcel_Inr_iff)
  with create_from_dto_parcels [OF assms] keeps_parcels_subset [of a b] show ?thesis
    by (simp add: grows_def token_ids_def)
qed

text \<open>The job: whatever its outcome, it has only filled in missing costs.\<close>

lemma commit_costs_others:
  assumes "commit_costs S E rate ps db = Inr db'" and "p \<in> set (parcels db)"
  shows "\<exists>q \<in> set (parcels db'). q\<lparr>p_delivery_cost_rub := None\<rparr> = p\<lparr>p_delivery_cost_rub := None\<rparr> \<and>
    (p_id p \<notin> p_id ` set ps \<longrightarrow> q = p)"
  using assms
proof (induction ps arbitrary: db p)
  case Nil
  then show ?case by auto
next
  case (Cons r ps)
  then obtain db1 where one: "update_cost E (p_id r) (parcel_cost S rate r) db = Inr db1"
      and rest: "commit_costs S E rate ps db1 = Inr db'"
    by (auto split: sum.splits)
  obtain c where "parcels db1 = update_where (\<lambda>q. p_id q = p_id r) (p_delivery_cost_rub_update (\<lambda>_. Some c)) (parcels db)"
    using one by (auto simp: update_cost_Inr_iff)
  then have p1: "(if p_id p = p_id r then p\<lparr>p_delivery_cost_rub := Some c\<rparr> else p) \<in> set (parcels db1)"
    using Cons.prems(2) by (auto simp: in_update_where)
  from Cons.IH [OF rest this] show ?case by (auto split: if_splits)
qed

definition fills_costs :: "db \<Rightarrow> db \<Rightarrow> bool" where
  "fills_costs db db' \<longleftrightarrow> (\<forall>p \<in> set (parcels db). \<exists>q \<in> set (parcels db').
     q\<lparr>p_delivery_cost_rub := None\<rparr> = p\<lparr>p_delivery_cost_rub := None\<rparr> \<and> (\<not> unpriced p \<longrightarrow> q = p))"

lemma fills_costs_keeps: "keeps_parcels a b = fills_costs (app_db a) (app_db b)"
  by (simp add: keeps_parcels_def fills_costs_def)

lemma fills_costs_refl [simp]: "fills_costs db db"
  by (auto simp: fills_costs_def)

lemma fills_costs_trans:
  assumes "fills_costs d1 d2" and "fills_costs d2 d3"
  shows "fills_costs d1 d3"
proof -
  define a where "a d = \<lparr>app_db = d, app_redis = (), app_metrics = init_metrics\<rparr>" for d
  have "keeps_parcels (a d1) (a d3)"
    by (rule keeps_parcels_trans [of _ "a d2"]) (simp_all add: fills_costs_keeps a_def assms)
  then show ?thesis by (simp add: fills_costs_keeps a_def)
qed

context sql_engine
begin

lemma commit_batch_fills:
  assumes "commit_costs S E rate (fetch_unpriced S E db) db = Inr db'" and "distinct (map p_id (parcels db))"
  shows "fills_costs db db'" and "distinct (map p_id (parcels db'))"
proof -
  have unpriced: "set (fetch_unpriced S E db) \<subseteq> {p \<in> set (parcels db). unpriced p}"
    by (rule fetch_unpriced_batch(1) [OF assms(2)])
  have other: "p_id p \<notin> p_id ` set (fetch_unpriced S E db)" if "p \<in> set (parcels db)" "\<not> unpriced p" for p
  proof
    assume "p_id p \<in> p_id ` set (fetch_unpriced S E db)"
    then obtain q where "q \<in> set (parcels db)" "unpriced q" "p_id q = p_id p" using unpriced by auto
    moreover have "inj_on p_id (set (parcels db))" using assms(2) by (simp add: distinct_map)
    ultimately have "q = p" using that(1) by (simp add: inj_on_def)
    with \<open>unpriced q\<close> that(2) show False by simp
  qed
  show "fills_costs db db'"
    unfolding fills_costs_def
  proof
    fix p assume p: "p \<in> set (parcels db)"
    from commit_costs_others [OF assms(1) p] other [OF p]
    show "\<exists>q \<in> set (parcels db'). q\<lparr>p_delivery_cost_rub := None\<rparr> = p\<lparr>p_delivery_cost_rub := None\<rparr> \<and>
        (\<not> unpriced p \<longrightarrow> q = p)" by blast
  qed
  have "map (p_delivery_cost_rub_update (\<lambda>_. None)) (parcels db') =
      map (p_delivery_cost_rub_update (\<lambda>_. None)) (parcels db)"
    using commit_costs_frame [OF assms(1)] unfolding same_but_costs_def by blast
  from arg_cong [OF this, of "map p_id"] have "map p_id (parcels db') = map p_id (parcels db)"
    by (simp add: comp_def)
  then show "distinct (map p_id (parcels db'))" using assms(2) by simp
qed

lemma recalc_loop_fills:
  assumes "recalc_loop S E rate n db = Some (res, db')" and "distinct (map p_id (parcels db))"
  shows "fills_costs db db'"
proof -
  let ?P = "\<lambda>db y. distinct (map p_id (parcels db)) \<longrightarrow> fills_costs db (snd y)"
  have "E' = E \<longrightarrow> ?P db y" if "recalc_loop S E' rate n db = Some y" for E' y
  proof (rule recalc_loop.raw_induct [where P = "\<lambda>S E' rate n db y. E' = E \<longrightarrow> ?P db y", OF _ that])
    fix f S E' rate n db y
    assume IH: "\<And>S E' rate n db y. f S E' rate n db = Some y \<Longrightarrow> E' = E \<longrightarrow> ?P db y"
      and eq: "(let ps = fetch_unpriced S E' db
        in if ps = [] then Some (Inr n, db)
           else case commit_costs S E' rate ps db of
                  Inl e \<Rightarrow> Some (Inl e, db)
                | Inr db' \<Rightarrow> f S E' rate (n + length ps) db') = Some y"
    show "E' = E \<longrightarrow> ?P db y"
    proof (intro impI)
      assume E: "E' = E" and dist: "distinct (map p_id (parcels db))"
      show "fills_costs db (snd y)"
      proof (cases "commit_costs S E rate (fetch_unpriced S E db) db")
        case (Inl e)
        with eq E show ?thesis by (auto simp: Let_def split: if_splits)
      next
        case (Inr db1)
        note step = commit_batch_fills [OF Inr dist]
        show ?thesis
        proof (cases "fetch_unpriced S E db = []")
          case True
          with eq E show ?thesis by (auto simp: Let_def)
        next
          case False
          with eq E Inr have "f S E rate (n + length (fetch_unpriced S E db)) db1 = Some y"
            by (simp add: Let_def)
          from IH [OF this] step fills_costs_trans show ?thesis by blast
        qed
      qed
    qed
  qed
  with assms show ?thesis by force
qed

lemma run_grows:
  assumes "recalc_delivery_costs S E R H tm a = Some (res, b)" and "db_ok (app_db a)"
  shows "grows a b"
proof -
  have dist: "distinct (map p_id (parcels (app_db a)))" using assms(2) by (simp add: db_ok_defs)
  have "app_db b = app_db a \<or> (\<exists>rate n res. recalc_loop S E rate n (app_db a) = Some (res, app_db b))"
    using assms(1)
    by (auto simp: recalc_delivery_costs_def split: prod.splits bool.splits sum.splits option.splits)
  then have "fills_costs (app_db a) (app_db b)" using recalc_loop_fills [OF _ dist] by auto
  moreover note run_frame [OF assms]
  ultimately show ?thesis by (simp add: grows_def fills_costs_keeps same_but_costs_def token_ids_def)
qed

end

subsection \<open>Every route\<close>

lemma with_dependency_state:
  assumes "with_dependency dep f w = (resp, w')" and "grows (w_app w) (w_app w)"
    and "\<And>x. dep = Inr x \<Longrightarrow> f x w = (resp, w') \<Longrightarrow> grows (w_app w) (w_app w')"
  shows "grows (w_app w) (w_app w')"
  using assms by (cases dep) (auto simp: with_dependency_def)

lemma limited_grows:
  "limited P lv now req handler w = (resp, w') \<Longrightarrow> grows (w_app w) (snd (handler (w_app w))) \<Longrightarrow>
     grows (w_app w) (w_app w')"
  by (erule limited_state) simp_all

lemma on_db_state [simp]: "snd (on_db g a) = a\<lparr>app_db := snd (g (app_db a))\<rparr>"
  by (simp add: on_db_def split: prod.split)

lemma then_respond_state [simp]: "snd (then_respond f rw) = snd rw"
  by (simp add: then_respond_def split: prod.split sum.split)

lemma respond_with_state [simp]: "snd (respond_with f rw) = snd rw"
  by (simp add: respond_with_def split: prod.split)

lemma redis_cache_db:
  "app_db (snd (redis_cache R key_func prefix ttl encode t1 t2 args kwargs (\<lambda>a. (g (app_db a), a)) a)) = app_db a"
  by (simp add: redis_cache_def Let_def split: sum.split prod.split option.split)

lemmas auth_route_effects =
  auth_grows [where c = "Register ud d email password" for ud d email password]
  auth_grows [where c = "Login d email password" for d email password]
  auth_grows [where c = "Refresh d raw" for d raw] auth_grows [where c = "Logout t raw" for t raw]
  auth_grows [where c = "Logout_All t user_id" for t user_id]

lemma auth_routes_grow:
  "register_route P now ud d req body w = (resp, w') \<Longrightarrow> grows (w_app w) (w_app w')"
  "login_route P now d req email password w = (resp, w') \<Longrightarrow> grows (w_app w) (w_app w')"
  "refresh_route P now d req w = (resp, w') \<Longrightarrow> grows (w_app w) (w_app w')"
  "logout_route P now t req w = (resp, w') \<Longrightarrow> grows (w_app w) (w_app w')"
  "logout_all_route P now t req w = (resp, w') \<Longrightarrow> grows (w_app w) (w_app w')"
proof -
  note effects = auth_route_effects [of "w_app w" "pf_settings P" "pf_crypto P" "pf_jwt P", simplified]
  show "register_route P now ud d req body w = (resp, w') \<Longrightarrow> grows (w_app w) (w_app w')"
    unfolding register_route_def Let_def
    by (erule with_dependency_state, simp, erule limited_grows) (simp add: effects)
  show "login_route P now d req email password w = (resp, w') \<Longrightarrow> grows (w_app w) (w_app w')"
    unfolding login_route_def Let_def
    by (erule with_dependency_state, simp, erule limited_grows) (simp add: effects)
  show "refresh_route P now d req w = (resp, w') \<Longrightarrow> grows (w_app w) (w_app w')"
    unfolding refresh_route_def Let_def
    by (erule limited_grows) (simp add: effects split: sum.split)
  show "logout_route P now t req w = (resp, w') \<Longrightarrow> grows (w_app w) (w_app w')"
    unfolding logout_route_def Let_def
    by (erule limited_grows) (simp add: effects split: sum.split)
  show "logout_all_route P now t req w = (resp, w') \<Longrightarrow> grows (w_app w) (w_app w')"
    unfolding logout_all_route_def Let_def
    by (erule with_dependency_state, simp, erule limited_grows) (simp add: effects)
qed

lemma parcel_routes_grow:
  "register_parcel P now i req payload w = (resp, w') \<Longrightarrow> grows (w_app w) (w_app w')"
  "list_parcels_route P now t1 t2 req w = (resp, w') \<Longrightarrow> grows (w_app w) (w_app w')"
  "get_parcel_route P now t1 t2 req w = (resp, w') \<Longrightarrow> grows (w_app w) (w_app w')"
  "list_parcel_types_route P now t1 t2 req w = (resp, w') \<Longrightarrow> grows (w_app w) (w_app w')"
proof -
  have create: "grows a (snd (create_from_dto S E i data owner a))" for a S E data owner
    by (rule create_grows [of S E i data owner a "fst (create_from_dto S E i data owner a)"]) simp
  show "register_parcel P now i req payload w = (resp, w') \<Longrightarrow> grows (w_app w) (w_app w')"
    unfolding register_parcel_def Let_def
    by (erule with_dependency_state, simp, erule with_dependency_state, simp, erule limited_grows)
      (simp add: create)
  show "list_parcels_route P now t1 t2 req w = (resp, w') \<Longrightarrow> grows (w_app w) (w_app w')"
    unfolding list_parcels_route_def Let_def
    by (erule with_dependency_state, simp, erule with_dependency_state, simp, clarsimp, erule limited_grows)
      (simp add: cached_list_def Let_def grows_same_db redis_cache_db)
  show "get_parcel_route P now t1 t2 req w = (resp, w') \<Longrightarrow> grows (w_app w) (w_app w')"
    unfolding get_parcel_route_def Let_def
    by (erule with_dependency_state, simp, erule limited_grows)
      (simp add: cached_get_def Let_def grows_same_db redis_cache_db)
  show "list_parcel_types_route P now t1 t2 req w = (resp, w') \<Longrightarrow> grows (w_app w) (w_app w')"
    unfolding list_parcel_types_route_def Let_def
    by (erule with_dependency_state, simp, erule limited_grows)
      (simp add: cached_types_def Let_def grows_same_db redis_cache_db)
qed

lemma recalc_route_grows:
  assumes "sql_engine (pf_engine P)" and "db_ok (app_db (w_app w))"
    and "recalc_route P now tm req w = Some (resp, w')"
  shows "grows (w_app w) (w_app w')"
proof -
  let ?a = "(w_app w)\<lparr>app_redis := r_delete (pf_redis P) (app_redis (w_app w)) (at_lock tm) ''delivery_job_lock''\<rparr>"
  have "w_app w' = w_app w \<or> (\<exists>res. recalc_delivery_costs (pf_settings P) (pf_engine P) (pf_redis P) (pf_rates P) tm ?a =
      Some (res, w_app w'))"
    using assms(3)
    by (auto simp: recalc_route_def limit_def manual_recalc_def Let_def
        split: sum.splits prod.splits bool.splits option.splits)
  then show ?thesis
  proof (elim disjE exE)
    assume "w_app w' = w_app w"
    then show ?thesis by simp
  next
    fix res
    assume "recalc_delivery_costs (pf_settings P) (pf_engine P) (pf_redis P) (pf_rates P) tm ?a = Some (res, w_app w')"
    then have "grows ?a (w_app w')" by (rule sql_engine.run_grows [OF assms(1)]) (simp add: assms(2))
    moreover have "grows (w_app w) ?a" by (rule grows_same_db) simp
    ultimately show ?thesis by (rule grows_trans [rotated])
  qed
qed

lemma routed_grows:
  assumes "sql_engine (pf_engine P)" and "db_ok (app_db (w_app w))" and "routed P now call req w = Some (resp, w')"
  shows "grows (w_app w) (w_app w')"
proof (cases call)
  case (Post_Recalc tm)
  with assms recalc_route_grows show ?thesis by simp
qed (use assms(3) in \<open>auto intro: auth_routes_grow parcel_routes_grow\<close>)

subsection \<open>The system\<close>

text \<open>
  A request is served, the scheduler runs the job, or something else writes to Redis (other
  workers, expiry, eviction).
\<close>

inductive system_step :: "('r, 'l) platform \<Rightarrow> ('r, 'l) world \<Rightarrow> ('r, 'l) world \<Rightarrow> bool" for P where
  request: "app P fresh now call req w = Some (resp, w') \<Longrightarrow> system_step P w w'"
| tick: "recalc_delivery_costs (pf_settings P) (pf_engine P) (pf_redis P) (pf_rates P) tm (w_app w) = Some (res, a) \<Longrightarrow>
    system_step P w (w\<lparr>w_app := a\<rparr>)"
| elsewhere: "system_step P w (w\<lparr>w_app := (w_app w)\<lparr>app_redis := r\<rparr>, w_limits := l\<rparr>)"

inductive system_run :: "('r, 'l) platform \<Rightarrow> ('r, 'l) world \<Rightarrow> ('r, 'l) world \<Rightarrow> bool" for P w0 where
  initial: "system_run P w0 w0"
| further: "system_run P w0 w \<Longrightarrow> system_step P w w' \<Longrightarrow> system_run P w0 w'"

lemma system_step_grows:
  assumes "sql_engine (pf_engine P)" and "system_step P w w'" and "db_ok (app_db (w_app w))"
  shows "grows (w_app w) (w_app w')"
  using assms(2)
proof cases
  case (request fresh now call req resp)
  from request obtain rq resp0 where "routed P now call rq w = Some (resp0, w')" by (rule app_routed)
  with routed_grows [OF assms(1,3)] show ?thesis by blast
next
  case (tick tm res a)
  with sql_engine.run_grows [OF assms(1) tick(2) assms(3)] show ?thesis by simp
next
  case (elsewhere r l)
  then show ?thesis by (simp add: grows_same_db)
qed

lemma system_run_grows:
  assumes "sql_engine (pf_engine P)" and "system_run P w0 w" and "db_ok (app_db (w_app w0))"
  shows "grows (w_app w0) (w_app w)"
  using assms(2)
proof (induction rule: system_run.induct)
  case initial
  then show ?case by simp
next
  case (further w w')
  then have "db_ok (app_db (w_app w))" using assms(3) by (simp add: grows_def)
  from system_step_grows [OF assms(1) further(2) this] further.IH show ?case using grows_trans by blast
qed


text \<open>A tick prices the parcel of the sample state, then a request reads it.\<close>

definition ticking_platform :: "(kv, counters) platform" where
  "ticking_platform = reference_platform\<lparr>pf_settings := default_settings\<rparr>"


end
