(* ===== verification/Contract.thy ===== *)
theory Contract
  imports App
begin

text \<open>
  The documented interface: the \<^verbatim>\<open>responses=\<close> tables of the routers (\<^verbatim>\<open>app/api\<close>,
  \<^verbatim>\<open>app/tasks/routes.py\<close>) with the examples of \<^verbatim>\<open>app/api/examples.py\<close>, and what the
  application answers.  \<open>conforms\<close> says that a response has a documented status and the
  shape documented for it; 429 and 500, which no table lists, have a shape of their own.
\<close>

subsection \<open>Examples\<close>

definition TOKEN_RESPONSE_EXAMPLE :: json where
  "TOKEN_RESPONSE_EXAMPLE = JObj
     [(''access_token'', JStr (''eyJhbGciOiJIUzI1NiIsInR5cCI6IkpXVCJ9.'' @
        ''eyJzdWIiOiI0M2Y0YTgyYS1iYjNmLTQ4MzgtOWI4Ni1hOWY1MjZmNTE5N2IifQ.'' @ ''signature'')),
      (''token_type'', JStr ''bearer'')]"

definition VALIDATION_ERROR_EXAMPLE :: json where
  "VALIDATION_ERROR_EXAMPLE = JObj
     [(''code'', JStr ''validation_error''), (''message'', JStr ''Payload validation failed''),
      (''details'', JArr [JObj
        [(''type'', JStr ''greater_than''), (''loc'', JArr [JStr ''body'', JStr ''weightKg'']),
         (''msg'', JStr ''Input should be greater than 0''), (''input'', JStr ''-1''),
         (''ctx'', JObj [(''gt'', JInt 0)])]])]"

definition UNAUTHORIZED_ERROR_EXAMPLE :: json where
  "UNAUTHORIZED_ERROR_EXAMPLE = JObj
     [(''code'', JStr ''unauthorized''), (''message'', JStr ''Missing authorization token''), (''details'', JNull)]"

definition FORBIDDEN_ERROR_EXAMPLE :: json where
  "FORBIDDEN_ERROR_EXAMPLE = JObj
     [(''code'', JStr ''forbidden''), (''message'', JStr ''Manual task trigger is disabled''), (''details'', JNull)]"

definition BUSINESS_ERROR_EXAMPLE :: json where
  "BUSINESS_ERROR_EXAMPLE = JObj
     [(''code'', JStr ''business_error''), (''message'', JStr ''Unknown parcel type''), (''details'', JNull)]"

definition PARCEL_TYPE_LIST_EXAMPLE :: json where
  "PARCEL_TYPE_LIST_EXAMPLE = JObj
     [(''items'', JArr
        [JObj [(''id'', JStr ''b5e96576-3e2b-4bd7-8d6c-7f0cdd3e5a6e''), (''name'', JStr ''clothes'')],
         JObj [(''id'', JStr ''a3a814f4-4724-4947-b6ab-8337f3b33969''), (''name'', JStr ''electronics'')],
         JObj [(''id'', JStr ''9d7b3c28-80b3-4f08-8b22-4a81ec1f0b75''), (''name'', JStr ''misc'')]]),
      (''total'', JInt 3), (''limit'', JInt 20), (''offset'', JInt 0)]"

definition PARCEL_CREATE_RESPONSE_EXAMPLE :: json where
  "PARCEL_CREATE_RESPONSE_EXAMPLE = JObj
     [(''id'', JStr ''99e93aee-776d-4bc5-8157-ab80a12b6556''),
      (''owner_id'', JStr ''c83e529a-9fa9-4445-a2f5-508e2f10e3de'')]"

definition PARCEL_DETAIL_EXAMPLE :: json where
  "PARCEL_DETAIL_EXAMPLE = JObj
     [(''id'', JStr ''99e93aee-776d-4bc5-8157-ab80a12b6556''), (''name'', JStr ''Apple iPhone 15 Pro''),
      (''weightKg'', JStr ''1.200''), (''declaredValueUsd'', JStr ''1299.99''), (''deliveryCostRub'', JNull),
      (''parcelType'', JObj
        [(''id'', JStr ''a3a814f4-4724-4947-b6ab-8337f3b33969''), (''name'', JStr ''electronics'')])]"

definition PARCEL_LIST_EXAMPLE :: json where
  "PARCEL_LIST_EXAMPLE = JObj
     [(''items'', JArr [PARCEL_DETAIL_EXAMPLE]), (''total'', JInt 1), (''limit'', JInt 20), (''offset'', JInt 0)]"

definition PARCEL_FORBIDDEN_EXAMPLE :: json where
  "PARCEL_FORBIDDEN_EXAMPLE = JObj [(''detail'', JStr ''Forbidden'')]"

definition NOT_FOUND_ERROR_EXAMPLE :: json where
  "NOT_FOUND_ERROR_EXAMPLE = JObj [(''detail'', JStr ''Not found'')]"

definition TASK_RECALC_RESPONSE_EXAMPLE :: json where
  "TASK_RECALC_RESPONSE_EXAMPLE = JObj [(''updated'', JInt 5)]"

subsection \<open>Documented responses\<close>

record response_doc =
  rd_status :: nat
  rd_model :: "string option"
  rd_description :: string
  rd_example :: json

abbreviation doc_ok :: "nat \<Rightarrow> string \<Rightarrow> json \<Rightarrow> response_doc" where
  "doc_ok code descr ex \<equiv> \<lparr>rd_status = code, rd_model = None, rd_description = descr, rd_example = ex\<rparr>"

abbreviation doc_error :: "nat \<Rightarrow> string \<Rightarrow> json \<Rightarrow> response_doc" where
  "doc_error code descr ex \<equiv>
     \<lparr>rd_status = code, rd_model = Some ''ErrorResponse'', rd_description = descr, rd_example = ex\<rparr>"

definition register_responses :: "response_doc list" where
  "register_responses =
     [doc_ok 201 ''User registered and access token issued.'' TOKEN_RESPONSE_EXAMPLE,
      doc_error 400 ''Email is already registered.'' (JObj
        [(''code'', JStr ''business_error''), (''message'', JStr ''Email already registered''), (''details'', JNull)]),
      doc_error 422 ''Invalid registration payload.'' VALIDATION_ERROR_EXAMPLE]"

definition login_responses :: "response_doc list" where
  "login_responses =
     [doc_ok 200 ''User authenticated and access token issued.'' TOKEN_RESPONSE_EXAMPLE,
      doc_error 401 ''Invalid email or password.'' UNAUTHORIZED_ERROR_EXAMPLE,
      doc_error 422 ''Invalid login payload.'' VALIDATION_ERROR_EXAMPLE]"

definition refresh_responses :: "response_doc list" where
  "refresh_responses =
     [doc_ok 200 ''Refresh token rotated and access token issued.'' TOKEN_RESPONSE_EXAMPLE,
      doc_error 401 ''Missing, expired, or revoked refresh token.'' UNAUTHORIZED_ERROR_EXAMPLE,
      doc_error 403 ''Missing or invalid CSRF token.'' FORBIDDEN_ERROR_EXAMPLE]"

definition logout_responses :: "response_doc list" where
  "logout_responses =
     [doc_error 401 ''Missing refresh token.'' UNAUTHORIZED_ERROR_EXAMPLE,
      doc_error 403 ''Missing or invalid CSRF token.'' FORBIDDEN_ERROR_EXAMPLE]"

definition logout_all_responses :: "response_doc list" where
  "logout_all_responses = [doc_error 401 ''Missing or invalid access token.'' UNAUTHORIZED_ERROR_EXAMPLE]"

definition register_parcel_responses :: "response_doc list" where
  "register_parcel_responses =
     [doc_ok 201 ''Parcel registered for the authenticated caller.'' PARCEL_CREATE_RESPONSE_EXAMPLE,
      doc_error 400 ''Unknown parcel type or business-rule violation.'' BUSINESS_ERROR_EXAMPLE,
      doc_error 401 ''Missing or invalid access token.'' UNAUTHORIZED_ERROR_EXAMPLE,
      doc_error 422 ''Invalid parcel payload.'' VALIDATION_ERROR_EXAMPLE]"

definition list_parcels_responses :: "response_doc list" where
  "list_parcels_responses =
     [doc_ok 200 ''Paginated parcels owned by the current caller.'' PARCEL_LIST_EXAMPLE,
      doc_error 401 ''Missing or invalid access token.'' UNAUTHORIZED_ERROR_EXAMPLE,
      doc_error 422 ''Invalid pagination or filter query.'' VALIDATION_ERROR_EXAMPLE]"

definition get_parcel_responses :: "response_doc list" where
  "get_parcel_responses =
     [doc_ok 200 ''Parcel details for an owned parcel.'' PARCEL_DETAIL_EXAMPLE,
      doc_error 401 ''Missing or invalid access token.'' UNAUTHORIZED_ERROR_EXAMPLE,
      doc_ok 403 ''The parcel exists but belongs to another caller.'' PARCEL_FORBIDDEN_EXAMPLE,
      doc_ok 404 ''Parcel not found.'' (JObj [(''detail'', JStr ''Not found'')])]"

definition parcel_types_responses :: "response_doc list" where
  "parcel_types_responses =
     [doc_ok 200 ''Paginated reference parcel types.'' PARCEL_TYPE_LIST_EXAMPLE,
      doc_error 422 ''Invalid pagination query.'' VALIDATION_ERROR_EXAMPLE]"

definition recalc_responses :: "response_doc list" where
  "recalc_responses =
     [doc_ok 202 ''Delivery-cost recalculation completed.'' TASK_RECALC_RESPONSE_EXAMPLE,
      doc_error 403 ''Manual trigger is disabled or admin token is invalid.'' FORBIDDEN_ERROR_EXAMPLE]"

fun responses_of :: "api_call \<Rightarrow> response_doc list" where
  "responses_of (Post_Register ud d body) = register_responses"
| "responses_of (Post_Login d email password) = login_responses"
| "responses_of (Post_Refresh d) = refresh_responses"
| "responses_of (Post_Logout t) = logout_responses"
| "responses_of (Post_Logout_All t) = logout_all_responses"
| "responses_of (Post_Parcel i body) = register_parcel_responses"
| "responses_of (Get_Parcels t_get t_set) = list_parcels_responses"
| "responses_of (Get_Parcel t_get t_set) = get_parcel_responses"
| "responses_of (Get_Parcel_Types t_get t_set) = parcel_types_responses"
| "responses_of Get_Health = []"
| "responses_of (Post_Recalc tm) = recalc_responses"

text \<open>The \<^verbatim>\<open>status_code\<close> of the decorators, 200 by default.\<close>

fun success_code :: "api_call \<Rightarrow> nat" where
  "success_code (Post_Register ud d body) = 201"
| "success_code (Post_Logout t) = 204"
| "success_code (Post_Logout_All t) = 204"
| "success_code (Post_Parcel i body) = 201"
| "success_code (Post_Recalc tm) = 202"
| "success_code _ = 200"

subsection \<open>Shapes\<close>

fun token_body :: "json \<Rightarrow> bool" where
  "token_body (JObj [(a, JStr t), (b, JStr ty)]) \<longleftrightarrow> a = ''access_token'' \<and> b = ''token_type'' \<and> ty = ''bearer''"
| "token_body _ \<longleftrightarrow> False"

fun created_body :: "json \<Rightarrow> bool" where
  "created_body (JObj [(a, JStr i), (b, JStr owner)]) \<longleftrightarrow> a = ''id'' \<and> b = ''owner_id''"
| "created_body _ \<longleftrightarrow> False"

fun error_body :: "json \<Rightarrow> bool" where
  "error_body (JObj [(a, JStr c), (b, JStr m), (d, v)]) \<longleftrightarrow>
     a = ''code'' \<and> b = ''message'' \<and> d = ''details'' \<and> (case v of JNull \<Rightarrow> True | JArr es \<Rightarrow> True | _ \<Rightarrow> False)"
| "error_body _ \<longleftrightarrow> False"

fun single_field :: "string \<Rightarrow> json \<Rightarrow> bool" where
  "single_field k (JObj [(a, JStr m)]) \<longleftrightarrow> a = k"
| "single_field k _ \<longleftrightarrow> False"

fun updated_body :: "json \<Rightarrow> bool" where
  "updated_body (JObj [(a, JInt n)]) \<longleftrightarrow> a = ''updated'' \<and> 0 \<le> n"
| "updated_body _ \<longleftrightarrow> False"

fun success_body :: "api_call \<Rightarrow> json \<Rightarrow> bool" where
  "success_body (Post_Register ud d body) j \<longleftrightarrow> token_body j"
| "success_body (Post_Login d email password) j \<longleftrightarrow> token_body j"
| "success_body (Post_Refresh d) j \<longleftrightarrow> token_body j"
| "success_body (Post_Logout t) j \<longleftrightarrow> j = JNull"
| "success_body (Post_Logout_All t) j \<longleftrightarrow> j = JNull"
| "success_body (Post_Parcel i body) j \<longleftrightarrow> created_body j"
| "success_body (Get_Parcels t_get t_set) j \<longleftrightarrow> validate_page validate_view j \<noteq> None"
| "success_body (Get_Parcel t_get t_set) j \<longleftrightarrow> validate_view j \<noteq> None"
| "success_body (Get_Parcel_Types t_get t_set) j \<longleftrightarrow> validate_page (\<lambda>i. validate_type (Some i)) j \<noteq> None"
| "success_body Get_Health j \<longleftrightarrow> single_field ''status'' j"
| "success_body (Post_Recalc tm) j \<longleftrightarrow> updated_body j"

text \<open>A table entry without a model documents the framework's own error body.\<close>

definition doc_admits :: "api_call \<Rightarrow> response_doc \<Rightarrow> json \<Rightarrow> bool" where
  "doc_admits call doc j \<longleftrightarrow>
     (if rd_status doc = success_code call then success_body call j
      else if rd_model doc = Some ''ErrorResponse'' then error_body j
      else single_field ''detail'' j)"

definition conforms :: "api_call \<Rightarrow> http_response \<Rightarrow> bool" where
  "conforms call resp \<longleftrightarrow>
     (if status_code resp = 429 then single_field ''error'' (content resp)
      else if status_code resp = 500 then error_body (content resp)
      else if status_code resp = success_code call then success_body call (content resp)
      else list_ex (\<lambda>doc. rd_status doc = status_code resp \<and> doc_admits call doc (content resp))
             (responses_of call))"

lemma example_amounts:
  "dec_parse ''1.200'' = Some (Dec False 1200 (-3))" "dec_parse ''1299.99'' = Some (Dec False 129999 (-2))"
  by (simp_all add: dec_parse_def parse_sign_def parse_unsigned_def is_digit_def parse_nat_def digit_val_def)

lemma detail_example_valid: "\<exists>v. validate_view PARCEL_DETAIL_EXAMPLE = Some v"
  by (simp add: PARCEL_DETAIL_EXAMPLE_def validate_view_def model_field_def as_str_def as_decimal_def
      example_amounts as_optional_decimal_def validate_type_def)

lemma list_example_valid: "\<exists>p. validate_page validate_view PARCEL_LIST_EXAMPLE = Some p"
  using detail_example_valid by (auto simp: PARCEL_LIST_EXAMPLE_def validate_page_def as_int_def)

lemma reads_documented:
  "list_all (\<lambda>doc. doc_admits (Get_Parcels a b) doc (rd_example doc)) list_parcels_responses"
  "list_all (\<lambda>doc. doc_admits (Get_Parcel a b) doc (rd_example doc)) get_parcel_responses"
  using detail_example_valid list_example_valid
  by (simp_all add: list_parcels_responses_def get_parcel_responses_def doc_admits_def
      UNAUTHORIZED_ERROR_EXAMPLE_def VALIDATION_ERROR_EXAMPLE_def PARCEL_FORBIDDEN_EXAMPLE_def)

text \<open>
  The documentation's examples are valid: in every responses table, the example of each
  entry has the shape documented for it, a success example that of the route's response
  model.
\<close>

theorem documented_examples_valid:
  "list_all (\<lambda>doc. doc_admits call doc (rd_example doc)) (responses_of call)"
proof (cases call)
  case (Get_Parcels a b)
  with reads_documented(1) show ?thesis by simp
next
  case (Get_Parcel a b)
  with reads_documented(2) show ?thesis by simp
qed (hypsubst, code_simp)+

subsection \<open>Errors of the operations\<close>

fun internal :: "exc \<Rightarrow> bool" where
  "internal (RuntimeError m) \<longleftrightarrow> True"
| "internal (DatabaseError m) \<longleftrightarrow> True"
| "internal (HttpClientError m) \<longleftrightarrow> True"
| "internal (UnexpectedError m) \<longleftrightarrow> True"
| "internal _ \<longleftrightarrow> False"

lemma conforms_internal: "internal e \<Longrightarrow> conforms call (respond_error e)"
  by (cases e) (simp_all add: conforms_def respond_error_def plain_response_def handler_defs)

lemma conforms_limit: "conforms call (respond_error (RateLimitExceeded m))"
  by (simp add: conforms_def respond_error_def plain_response_def handler_defs)

lemma limited_conforms:
  assumes "\<And>e. fst (handler (w_app w)) = Inl e \<Longrightarrow> conforms call (respond_error e)"
    and "\<And>r. fst (handler (w_app w)) = Inr r \<Longrightarrow> conforms call r"
  shows "conforms call (fst (limited P lv now req handler w))"
  using assms conforms_limit
  by (auto simp: limited_def limit_def split: prod.split bool.split sum.split)

lemma dependency_conforms:
  assumes "\<And>e. dep = Inl e \<Longrightarrow> conforms call (respond_error e)"
    and "\<And>x. dep = Inr x \<Longrightarrow> conforms call (fst (f x w))"
  shows "conforms call (fst (with_dependency dep f w))"
  using assms by (simp add: with_dependency_def split: sum.split)

lemma insert_token_internal: "insert_token t db = Inl e \<Longrightarrow> internal e"
  by (auto simp: insert_token_def split: if_splits)

lemma insert_user_internal: "insert_user u db = Inl e \<Longrightarrow> internal e"
  by (auto simp: insert_user_def split: if_splits)

lemma issue_tokens_internal: "fst (issue_tokens S C J d u db) = Inl e \<Longrightarrow> internal e"
  by (auto simp: issue_tokens_def insert_token_internal split: sum.splits)

context crypto_library
begin

lemma register_errors:
  assumes "fst (register S C J ud d email password db) = Inl e"
  shows "internal e \<or> e = BusinessError ''Email already registered''"
proof -
  have "internal e'" if "bcrypt_hash C password salt = Inl e'" for salt e'
    using that bcrypt_hash_short [of password salt] bcrypt_hash_long [of password salt]
    by (cases "72 < utf8_len password") auto
  with assms insert_user_internal issue_tokens_internal show ?thesis
    by (auto simp: register_def hash_password_def Let_def split: option.splits sum.splits)
qed

lemma login_errors:
  assumes "fst (login S C J d email password db) = Inl e"
  shows "internal e \<or> e = UnauthorizedError ''Invalid email or password''"
  using assms bcrypt_check_error issue_tokens_internal
  by (fastforce simp: login_def verify_password_def split: option.splits sum.splits bool.splits)

end

lemma refresh_errors:
  "fst (refresh S C J d raw db) = Inl e \<Longrightarrow> internal e \<or> e = UnauthorizedError ''Invalid refresh token''"
  using insert_token_internal
  by (auto simp: refresh_def get_refresh_token_def Let_def split: option.splits sum.splits if_splits)

lemma logout_errors: "fst (logout C now raw db) = Inl e \<Longrightarrow> e = UnauthorizedError ''Invalid refresh token''"
  by (auto simp: logout_def get_refresh_token_def split: option.splits sum.splits)

lemma create_errors:
  assumes "fst (create_from_dto S E i data owner a) = Inl e"
  shows "internal e \<or> (\<exists>m. e = BusinessError m)"
proof -
  have "internal e'" if "insert_parcel E p db = Inl e'" for p db e'
    using that by (auto simp: insert_parcel_def store_parcel_def bind_result_def split: option.splits if_splits sum.splits)
  with assms show ?thesis
    by (auto simp: create_from_dto_def commit_new_def Let_def split: if_splits sum.splits prod.splits)
qed

lemma csrf_errors:
  "require_csrf S req = Inl e \<Longrightarrow> internal e \<or> e = ForbiddenError ''Invalid CSRF token''"
  by (auto simp: require_csrf_def Let_def compare_digest_def bind_result_def split: if_splits)

lemma cookie_errors: "refresh_token_from_request S req = Inl e \<Longrightarrow> e = UnauthorizedError ''Missing refresh token''"
  by (auto simp: refresh_token_from_request_def split: option.splits if_splits)

lemma owner_errors: "get_owner_id S J now req token scopes = Inl e \<Longrightarrow> \<exists>m. e = UnauthorizedError m"
  by (auto simp: get_owner_id_def get_session_id_def split: option.splits if_splits)

lemma user_errors: "get_current_user_id S J now token = Inl e \<Longrightarrow> \<exists>m. e = UnauthorizedError m"
  by (auto simp: get_current_user_id_def split: option.splits if_splits)

lemma admin_errors:
  "require_task_admin_token S t = Inl e \<Longrightarrow> internal e \<or> (\<exists>m. e = ForbiddenError m)"
  by (auto simp: require_task_admin_token_def compare_digest_def bind_result_def split: option.splits if_splits)

lemma query_error_form:
  "pagination_query P req = Inl e \<Longrightarrow> \<exists>es. e = RequestValidationError es"
  "list_query P req = Inl e \<Longrightarrow> \<exists>es. e = RequestValidationError es"
proof -
  show pg: "\<exists>es. e = RequestValidationError es" if "pagination_query P req = Inl e" for e
    using that by (auto simp: pagination_query_def parsed_def parse_pagination_def Let_def
        split: sum.splits if_splits prod.splits)
  show "list_query P req = Inl e \<Longrightarrow> \<exists>es. e = RequestValidationError es"
    using pg by (cases "pagination_query P req") (auto simp: list_query_def parsed_def split: sum.splits)
qed

text \<open>The job raises only internal errors.\<close>

lemma commit_costs_internal: "commit_costs S E rate ps db = Inl e \<Longrightarrow> internal e"
proof (induction ps arbitrary: db)
  case (Cons p ps)
  have "internal e'" if "update_cost E i c db = Inl e'" for i c e'
    using that by (auto simp: update_cost_def split: option.splits if_splits)
  with Cons show ?case by (auto split: sum.splits)
qed simp

lemma recalc_loop_internal:
  assumes "recalc_loop S E rate n db = Some (Inl e, db')"
  shows "internal e"
proof -
  let ?P = "\<lambda>y :: nat result \<times> db. case fst y of Inl e \<Rightarrow> internal e | Inr k \<Rightarrow> True"
  have "?P y" if "recalc_loop S E rate n db = Some y" for y
  proof (rule recalc_loop.raw_induct [where P = "\<lambda>S E rate n db y. ?P y", OF _ that])
    fix f S E rate n db y
    assume IH: "\<And>S E rate n db y. f S E rate n db = Some y \<Longrightarrow> ?P y"
      and eq: "(let ps = fetch_unpriced S E db
        in if ps = [] then Some (Inr n, db)
           else case commit_costs S E rate ps db of
                  Inl e \<Rightarrow> Some (Inl e, db)
                | Inr db' \<Rightarrow> f S E rate (n + length ps) db') = Some y"
    show "?P y"
    proof (cases "fetch_unpriced S E db = []")
      case True
      with eq show ?thesis by (auto simp: Let_def)
    next
      case False
      show ?thesis
      proof (cases "commit_costs S E rate (fetch_unpriced S E db) db")
        case (Inl e)
        with eq False commit_costs_internal [OF Inl] show ?thesis by (auto simp: Let_def)
      next
        case (Inr db1)
        with eq False have "f S E rate (n + length (fetch_unpriced S E db)) db1 = Some y" by (simp add: Let_def)
        then show ?thesis by (rule IH)
      qed
    qed
  qed
  from this [OF assms] show ?thesis by simp
qed

context rate_client
begin

lemma run_internal:
  assumes "recalc_delivery_costs S E R H tm a = Some (Inl e, b)"
  shows "internal e"
proof -
  have "internal e'" if "get_usd_rub_rate S R H now r = (Inl e', r')" for now r e' r'
    using rate_error [OF that] by auto
  with assms recalc_loop_internal show ?thesis
    by (auto simp: recalc_delivery_costs_def split: prod.splits bool.splits sum.splits option.splits)
qed

end

subsection \<open>Every route conforms\<close>

lemma conforms_error:
  assumes "list_ex (\<lambda>doc. rd_status doc = status_code (handle_exception e) \<and> rd_model doc = Some ''ErrorResponse'')
      (responses_of call)"
    and "status_code (handle_exception e) \<noteq> success_code call" and "\<And>c m. e \<noteq> HTTPException c m"
    and "\<And>m. e \<noteq> RateLimitExceeded m"
  shows "conforms call (respond_error e)"
proof (cases "internal e")
  case True
  then show ?thesis by (rule conforms_internal)
next
  case False
  then have fine: "error_body (content (handle_exception e))" "status_code (handle_exception e) \<noteq> 429"
      "status_code (handle_exception e) \<noteq> 500"
    using assms(3,4) by (cases e; simp add: handler_defs)+
  from assms(1) obtain doc where "doc \<in> set (responses_of call)"
      "rd_status doc = status_code (handle_exception e)" "rd_model doc = Some ''ErrorResponse''"
    by (auto simp: list_ex_iff)
  with fine have "list_ex (\<lambda>doc. rd_status doc = status_code (handle_exception e) \<and>
      doc_admits call doc (content (handle_exception e))) (responses_of call)"
    using assms(2) unfolding list_ex_iff by (intro bexI [of _ doc]) (simp_all add: doc_admits_def)
  with fine assms(2) show ?thesis
    by (simp add: conforms_def respond_error_def plain_response_def Let_def)
qed

lemma conforms_success:
  assumes "status_code resp = success_code call" and "success_body call (content resp)"
  shows "conforms call resp"
  using assms by (cases call) (simp_all add: conforms_def)

lemma token_page_conforms:
  "success_code call = code \<Longrightarrow> (\<And>j. token_body j \<Longrightarrow> success_body call j) \<Longrightarrow> conforms call (token_page S code r)"
  by (rule conforms_success) (simp_all add: token_response_def)

lemma then_respond_cases:
  "fst (then_respond f rw) = Inl e \<longleftrightarrow> fst rw = Inl e"
  "fst (then_respond f rw) = Inr r \<longleftrightarrow> (\<exists>x. fst rw = Inr x \<and> r = f x)"
  by (auto simp: then_respond_def split: prod.splits sum.splits)

lemma on_db_result [simp]: "fst (on_db g a) = fst (g (app_db a))"
  by (simp add: on_db_def split: prod.split)

lemmas response_tables = register_responses_def login_responses_def refresh_responses_def
  logout_responses_def logout_all_responses_def register_parcel_responses_def list_parcels_responses_def
  get_parcel_responses_def parcel_types_responses_def recalc_responses_def

lemma register_route_conforms:
  assumes "crypto_library (pf_crypto P)"
  shows "conforms (Post_Register ud d body) (fst (register_route P now ud d req body w))"
proof -
  have err: "conforms (Post_Register ud d body) (respond_error e)"
    if "e = RequestValidationError [] \<or> internal e \<or> e = BusinessError ''Email already registered''" for e
    using that by (auto intro: conforms_internal conforms_error simp: response_tables)
  show ?thesis
    unfolding register_route_def Let_def
    using crypto_library.register_errors [OF assms] err
    by (intro dependency_conforms limited_conforms)
      (auto simp: then_respond_cases intro!: token_page_conforms split: if_splits)
qed

lemma login_route_conforms:
  assumes "crypto_library (pf_crypto P)"
  shows "conforms (Post_Login d email password) (fst (login_route P now d req email password w))"
proof -
  have err: "conforms (Post_Login d email password) (respond_error e)"
    if "e = RequestValidationError [] \<or> internal e \<or> e = UnauthorizedError ''Invalid email or password''" for e
    using that by (auto intro: conforms_internal conforms_error simp: response_tables)
  show ?thesis
    unfolding login_route_def Let_def
    using crypto_library.login_errors [OF assms] err
    by (intro dependency_conforms limited_conforms)
      (auto simp: then_respond_cases intro!: token_page_conforms split: if_splits)
qed

text \<open>The guards of the cookie routes.\<close>

lemma cookie_guards_conform:
  assumes "\<And>m. conforms call (respond_error (ForbiddenError m))"
    and "\<And>m. conforms call (respond_error (UnauthorizedError m))"
    and "\<And>raw e. fst (f raw) = Inl e \<Longrightarrow> conforms call (respond_error e)"
    and "\<And>raw r. fst (f raw) = Inr r \<Longrightarrow> conforms call r"
  shows "fst (case require_csrf S req of Inl e \<Rightarrow> (Inl e, a)
      | Inr u \<Rightarrow> (case refresh_token_from_request S req of Inl e \<Rightarrow> (Inl e, a) | Inr raw \<Rightarrow> f raw)) = Inl e \<Longrightarrow>
      conforms call (respond_error e)"
    and "fst (case require_csrf S req of Inl e \<Rightarrow> (Inl e, a)
      | Inr u \<Rightarrow> (case refresh_token_from_request S req of Inl e \<Rightarrow> (Inl e, a) | Inr raw \<Rightarrow> f raw)) = Inr r \<Longrightarrow>
      conforms call r"
  using assms csrf_errors [of S req] cookie_errors [of S req] conforms_internal
  by (auto split: sum.splits)

lemma refresh_route_conforms: "conforms (Post_Refresh d) (fst (refresh_route P now d req w))"
proof -
  have u: "conforms (Post_Refresh d) (respond_error (UnauthorizedError m))" for m
    by (rule conforms_error) (auto simp: response_tables)
  have f: "conforms (Post_Refresh d) (respond_error (ForbiddenError m))" for m
    by (rule conforms_error) (auto simp: response_tables)
  show ?thesis
    unfolding refresh_route_def Let_def
    using u f
    by (intro limited_conforms; elim cookie_guards_conform [rotated -1])
      (auto simp: then_respond_cases dest!: refresh_errors intro: conforms_internal token_page_conforms)
qed

lemma logged_out_conforms:
  "conforms (Post_Logout t) (clear_auth_cookies S (plain_response 204 JNull))"
  "conforms (Post_Logout_All t) (clear_auth_cookies S (plain_response 204 JNull))"
  by (simp_all add: conforms_def clear_auth_cookies_def plain_response_def)

lemma logout_route_conforms: "conforms (Post_Logout t) (fst (logout_route P now t req w))"
proof -
  have u: "conforms (Post_Logout t) (respond_error (UnauthorizedError m))" for m
    by (rule conforms_error) (auto simp: response_tables)
  have f: "conforms (Post_Logout t) (respond_error (ForbiddenError m))" for m
    by (rule conforms_error) (auto simp: response_tables)
  show ?thesis
    unfolding logout_route_def Let_def
    using u f
    by (intro limited_conforms; elim cookie_guards_conform [rotated -1])
      (auto simp: then_respond_cases dest!: logout_errors intro: logged_out_conforms)
qed

lemma logout_all_route_conforms: "conforms (Post_Logout_All t) (fst (logout_all_route P now t req w))"
proof -
  have u: "conforms (Post_Logout_All t) (respond_error (UnauthorizedError m))" for m
    by (rule conforms_error) (auto simp: response_tables)
  show ?thesis
    unfolding logout_all_route_def Let_def
    using u
    by (intro dependency_conforms limited_conforms)
      (auto simp: then_respond_cases dest!: user_errors intro: logged_out_conforms)
qed

lemma parcel_route_conforms: "conforms (Post_Parcel i body) (fst (register_parcel P now i req body w))"
proof -
  have u: "conforms (Post_Parcel i body) (respond_error (UnauthorizedError m))" for m
    by (rule conforms_error) (auto simp: response_tables)
  have b: "conforms (Post_Parcel i body) (respond_error (BusinessError m))" for m
    by (rule conforms_error) (auto simp: response_tables)
  have v: "conforms (Post_Parcel i body) (respond_error (RequestValidationError es))" for es
    by (rule conforms_error) (auto simp: response_tables)
  have ok: "conforms (Post_Parcel i body) (plain_response 201 (parcel_create_response p owner))" for p owner
    by (simp add: conforms_def plain_response_def parcel_create_response_def)
  show ?thesis
    unfolding register_parcel_def Let_def get_parcel_writer_owner_id_def
    using u b v ok
    by (intro dependency_conforms limited_conforms)
      (auto simp: then_respond_cases dest!: owner_errors create_errors intro: conforms_internal split: if_splits)
qed

text \<open>The cached reads.\<close>

lemma respond_with_cases:
  "fst (respond_with f rw) = Inl e \<longleftrightarrow> fst rw = Inl e \<or> (\<exists>x. fst rw = Inr x \<and> f x = Inl e)"
  "fst (respond_with f rw) = Inr r \<longleftrightarrow> (\<exists>x. fst rw = Inr x \<and> f x = Inr r)"
  by (auto simp: respond_with_def bind_result_def split: prod.splits sum.splits)

lemma render_conforms:
  assumes "\<And>m. success_body call (to_json m)" and "success_code call = 200"
  shows "render from_object from_json to_json x = Inl e \<Longrightarrow> internal e"
    and "render from_object from_json to_json x = Inr r \<Longrightarrow> conforms call r"
  using assms by (auto simp: render_def plain_response_def intro!: conforms_success split: option.splits)

lemma cache_errors:
  assumes "fst (redis_cache R kf prefix ttl encode t1 t2 args kwargs fn a) = Inl e"
  shows "fst (fn a) = Inl e \<or> internal e"
  using redis_cache_error [of R kf prefix ttl encode t1 t2 args kwargs fn a e] assms
  by (metis internal.simps(4) prod.collapse)

lemma cached_read_conforms:
  assumes "\<And>m. success_body call (to_json m)" and "success_code call = 200"
    and "\<And>a e. fst (g a) = Inl e \<Longrightarrow> conforms call (respond_error e)"
  shows "conforms call (fst (limited P lv now req (\<lambda>a. respond_with (render from_object from_json to_json) (g a)) w))"
  using assms(3) render_conforms [OF assms(1,2), where from_object = from_object and from_json = from_json]
  by (intro limited_conforms) (auto simp: respond_with_cases intro: conforms_internal)

lemma list_route_conforms:
  "conforms (Get_Parcels t_get t_set) (fst (list_parcels_route P now t_get t_set req w))"
proof -
  let ?call = "Get_Parcels t_get t_set"
  have u: "conforms ?call (respond_error (UnauthorizedError m))" for m
    by (rule conforms_error) (auto simp: response_tables)
  have v: "conforms ?call (respond_error (RequestValidationError es))" for es
    by (rule conforms_error) (auto simp: response_tables)
  have cached: "internal e" if "fst (cached_list P t_get t_set req owner pg fs a) = Inl e" for owner pg fs a e
    using cache_errors [OF that [unfolded cached_list_def Let_def]] list_parcels_error by fastforce
  have body: "success_body ?call (page_json parcel_view_json m)" for m
    by (simp add: validate_page_json validate_view_json)
  have read: "conforms ?call (fst (limited P lv now req (\<lambda>a. respond_with
      (render Some (validate_page validate_view) (page_json parcel_view_json))
      (cached_list P t_get t_set req owner pg fs a)) w))" for lv owner pg fs
    by (rule cached_read_conforms [OF body]) (use cached conforms_internal in \<open>auto\<close>)
  have queried: "conforms ?call (fst ((\<lambda>(pg, fs). limited P (RATE_LIMIT_LIST (pf_settings P)) now req
      (\<lambda>a. respond_with (render Some (validate_page validate_view) (page_json parcel_view_json))
        (cached_list P t_get t_set req owner pg fs a))) x w))" for owner x
    using read by (cases x) simp
  show ?thesis
    unfolding list_parcels_route_def Let_def get_parcel_reader_owner_id_def
    by (intro dependency_conforms queried) (use u v in \<open>auto dest!: owner_errors query_error_form\<close>)
qed

lemma detail_route_conforms:
  "conforms (Get_Parcel t_get t_set) (fst (get_parcel_route P now t_get t_set req w))"
proof -
  let ?call = "Get_Parcel t_get t_set"
  have u: "conforms ?call (respond_error (UnauthorizedError m))" for m
    by (rule conforms_error) (auto simp: response_tables)
  have h: "conforms ?call (respond_error (HTTPException c m))" if "c = 403 \<or> c = 404" for c m
    using that by (auto simp: conforms_def respond_error_def plain_response_def response_tables doc_admits_def)
  have cached: "internal e \<or> (\<exists>c m. e = HTTPException c m \<and> (c = 403 \<or> c = 404))"
    if "fst (cached_get P t_get t_set req owner a) = Inl e" for owner a e
    using cache_errors [OF that [unfolded cached_get_def Let_def]]
    by (auto simp: get_parcel_def get_owned_def Let_def split: sum.splits exc.splits option.splits if_splits)
  have body: "success_body ?call (parcel_view_json m)" for m by (simp add: validate_view_json)
  show ?thesis
    unfolding get_parcel_route_def Let_def get_parcel_reader_owner_id_def
    by (intro dependency_conforms cached_read_conforms [OF body])
      (use u h in \<open>auto dest!: owner_errors cached intro: conforms_internal\<close>)
qed

lemma types_route_conforms:
  "conforms (Get_Parcel_Types t_get t_set) (fst (list_parcel_types_route P now t_get t_set req w))"
proof -
  let ?call = "Get_Parcel_Types t_get t_set"
  have v: "conforms ?call (respond_error (RequestValidationError es))" for es
    by (rule conforms_error) (auto simp: response_tables)
  have cached: "internal e" if "fst (cached_types P t_get t_set req pg a) = Inl e" for pg a e
    using cache_errors [OF that [unfolded cached_types_def Let_def]] by (simp add: list_parcel_types_def)
  have body: "success_body ?call (page_json parcel_type_read m)" for m
    by (simp add: validate_page_json validate_type_json)
  show ?thesis
    unfolding list_parcel_types_route_def Let_def
    by (intro dependency_conforms cached_read_conforms [OF body])
      (use v in \<open>auto dest!: cached query_error_form intro: conforms_internal\<close>)
qed

lemma recalc_route_conforms:
  assumes "rate_client (pf_rates P)" and "recalc_route P now tm req w = Some (resp, w')"
  shows "conforms (Post_Recalc tm) resp"
proof -
  have f: "conforms (Post_Recalc tm) (respond_error (ForbiddenError m))" for m
    by (rule conforms_error) (auto simp: response_tables)
  have ok: "conforms (Post_Recalc tm) (plain_response 202 (JObj [(''updated'', JInt (int n))]))" for n
    by (simp add: conforms_def plain_response_def)
  show ?thesis
    using assms(2) f ok conforms_limit
    by (auto simp: recalc_route_def Let_def limit_def manual_recalc_def
        dest!: admin_errors rate_client.run_internal [OF assms(1)] intro: conforms_internal
        split: sum.splits prod.splits bool.splits option.splits)
qed


definition documented_platform :: "(kv, counters) platform" where
  "documented_platform = reference_platform\<lparr>pf_rates := flaky_source\<rparr>"


end
