(* ===== verification/Journey.thy ===== *)
theory Journey
  imports Detail_Guarantees Pricing_Deadline Contract
begin

text \<open>
  The service from end to end: a parcel registered through \<^verbatim>\<open>POST /parcels\<close>, priced by the
  scheduled job while the web process keeps working, and read through \<^verbatim>\<open>GET /parcels/{id}\<close>.
\<close>

lemma create_error_status:
  assumes "fst (create_from_dto S E i data owner a) = Inl e"
  shows "status_code (handle_exception e) \<noteq> 201"
proof -
  have "status_code (handle_exception e) = 500" if "internal e" using that by (cases e) (simp_all add: handler_defs)
  with create_errors [OF assms] show ?thesis by auto
qed

text \<open>A registration answered 201 has stored the parcel for the caller.\<close>

lemma register_parcel_created:
  assumes "get_parcel_writer_owner_id (pf_settings P) (pf_jwt P) now req (pf_bearer P req) = Inr owner"
    and "register_parcel P now i req payload w = (resp, w1)" and "status_code resp = 201"
  shows "\<exists>p. create_from_dto (pf_settings P) (pf_engine P) i payload owner (w_app w) = (Inr p, w_app w1) \<and>
    content resp = parcel_create_response i owner"
proof -
  have valid: "valid_parcel_create payload"
    using assms by (auto simp: register_parcel_def with_dependency_def Let_def respond_error_status split: if_splits)
  then have lim: "limited P (RATE_LIMIT_CREATE (pf_settings P)) now req (\<lambda>a.
      then_respond (\<lambda>p. plain_response 201 (parcel_create_response (p_id p) owner))
        (create_from_dto (pf_settings P) (pf_engine P) i payload owner a)) w = (resp, w1)"
    using assms(1,2) by (simp add: register_parcel_def with_dependency_def Let_def)
  have "\<exists>p. create_from_dto (pf_settings P) (pf_engine P) i payload owner (w_app w) = (Inr p, w_app w1) \<and>
      resp = plain_response 201 (parcel_create_response (p_id p) owner)"
    by (rule limited_success [OF lim assms(3)]) (simp_all add: create_error_status)
  then obtain p where p: "create_from_dto (pf_settings P) (pf_engine P) i payload owner (w_app w) = (Inr p, w_app w1)"
      "resp = plain_response 201 (parcel_create_response (p_id p) owner)" by blast
  with create_appends(2) [OF p(1)] show ?thesis by (auto simp: plain_response_def)
qed

lemma created_ok:
  assumes "create_from_dto S E i data owner st = (Inr p, st')" and "db_ok (app_db st)"
  shows "db_ok (app_db st')" and "p \<in> set (parcels (app_db st'))" and "p_delivery_cost_rub p = None"
    and "p_name p = pc_name data" and "p_parcel_type_id p = pc_parcel_type_id data" and "p_id p = i"
    and "owner_match S owner p"
proof -
  from create_from_dto_Inr [OF assms(1)]
  have ins: "insert_parcel E (new_parcel S i data owner) (app_db st) = Inr (p, app_db st')" by simp
  then have "store_parcel E (new_parcel S i data owner) = Inr p" by (simp add: insert_parcel_Inr_iff)
  note st = store_parcel_InrD [OF this]
  from st show "p_delivery_cost_rub p = None" "p_name p = pc_name data"
    "p_parcel_type_id p = pc_parcel_type_id data"
    by (simp_all add: new_parcel_def)
  show "db_ok (app_db st')" using insert_parcel_db_ok [OF ins assms(2)] .
  show "p \<in> set (parcels (app_db st'))" "p_id p = i" "owner_match S owner p"
    using create_appends [OF assms(1)] by auto
qed

lemma cost_forgotten:
  assumes "q\<lparr>p_delivery_cost_rub := None\<rparr> = p\<lparr>p_delivery_cost_rub := None\<rparr>"
  shows "p_id q = p_id p" and "p_name q = p_name p" and "p_parcel_type_id q = p_parcel_type_id p"
    and "owner_match S owner q = owner_match S owner p"
    and "p_delivery_cost_rub p = None \<Longrightarrow> q\<lparr>p_delivery_cost_rub := None\<rparr> = p"
  using assms by (cases q, cases p, simp add: owner_match_def)+

context delivery_env
begin

text \<open>Of Redis, a run writes the lock, the rate of its day and its metadata only.\<close>

lemma run_redis_elsewhere:
  assumes "recalc_delivery_costs S E R H tm st = Some (res, st')" and "ordered_times tm" and "at_done tm \<le> t"
    and "k \<notin> {''delivery_job_lock'', rate_key (at_rate tm), ''delivery_last_run_updated'', ''delivery_last_run_at''}"
  shows "r_get R (app_redis st') t k = r_get R (app_redis st) t k"
proof (cases "lock_free R (app_redis st) (at_lock tm)")
  case False
  then show ?thesis using assms(1) run_skips_when_locked [OF False] by simp
next
  case True
  let ?r1 = "r_set R (app_redis st) (at_lock tm) ''delivery_job_lock'' ''1'' (Some (DELIVERY_LOCK_TTL S))"
  note times = assms(2,3) [unfolded ordered_times_def]
  obtain rres r2 where rate: "get_usd_rub_rate S R H (at_rate tm) ?r1 = (rres, r2)" by fastforce
  have "r_get R ?r1 t k = r_get R (app_redis st) t k" using times assms(4) by (simp add: get_set)
  moreover have "r_get R r2 t k = r_get R ?r1 t k"
    using rate times assms(4) by (auto simp: get_usd_rub_rate_def Let_def get_set split: option.splits sum.splits)
  moreover have "app_redis st' = r2 \<or> (\<exists>n. app_redis st' = run_metadata R (at_done tm) n r2)"
    using assms(1) rate True
    by (auto simp: recalc_delivery_costs_def lock_free_def acquire_lock_free split: sum.splits option.splits prod.splits)
  ultimately show ?thesis using assms(3,4) by (auto simp: run_metadata_def get_set)
qed

end


subsection \<open>A concrete journey\<close>

text \<open>
  The lock of an earlier run lives until 330, so the runs at 0 and 300 are skipped and the one
  at 600 prices the parcel, which its owner reads at 700.
\<close>

definition journey_payload :: parcel_create where
  "journey_payload = \<lparr>pc_name = ''box'', pc_weight_kg = Dec False 2000 (-3),
     pc_declared_value_usd = Dec False 10000 (-2), pc_parcel_type_id = ''t1''\<rparr>"

definition locked_kv :: kv where
  "locked_kv = empty_kv(''delivery_job_lock'' := Some (''1'', Some 330))"

abbreviation journey_start :: "(kv, counters) world" where
  "journey_start \<equiv> session_world (sample_db\<lparr>parcels := []\<rparr>) locked_kv"

abbreviation journey_row :: parcel where
  "journey_row \<equiv> sample_parcel\<lparr>p_session_id := sample_uuid\<rparr>"

lemma session_settings_eq: "pf_settings session_platform = session_settings"
  "pf_engine session_platform = reference_engine" "pf_crypto session_platform = reference_crypto"
  by (simp_all add: session_platform_def reference_platform_def)

lemma session_rate_ttl: "CACHE_TTL_RATE session_settings = 600"
  by (simp add: default_settings_def)

lemma journey_create:
  "create_from_dto session_settings reference_engine ''p1'' journey_payload sample_uuid (w_app journey_start) =
     (Inr journey_row, (w_app journey_start)\<lparr>app_db := session_db, app_metrics := count_created ''t1'' init_metrics\<rparr>)"
proof -
  have num: "reference_numeric 10 3 (Dec False 2000 (-3)) = Some (Dec False 2000 (-3))"
    "reference_numeric 12 2 (Dec False 10000 (-2)) = Some (Dec False 10000 (-2))"
    by code_simp+
  have "length sample_uuid \<le> 255" by code_simp
  then have "insert_parcel reference_engine (new_parcel session_settings ''p1'' journey_payload sample_uuid)
      (sample_db\<lparr>parcels := []\<rparr>) = Inr (journey_row, session_db)"
    by (simp add: insert_parcel_def store_parcel_def new_parcel_def journey_payload_def sample_db_def session_db_def
        num dec_val_Dec parcel_row_ok_def parcel_refs_ok_def sample_parcel_def)
  then show ?thesis
    by (simp add: create_from_dto_def commit_new_def session_world_def journey_payload_def crud_get_def find_by_def
        sample_db_def less_eq_decimal_def dec_val_Dec sample_app_def)
qed

abbreviation journey_app :: "kv app" where
  "journey_app \<equiv> (w_app journey_start)\<lparr>app_db := session_db, app_metrics := count_created ''t1'' init_metrics\<rparr>"

lemma journey_posted:
  assumes "register_parcel session_platform 0 ''p1'' list_request journey_payload journey_start = (resp, w1)"
  shows "status_code resp = 201" and "w_app w1 = journey_app"
proof -
  have owner: "get_parcel_writer_owner_id session_settings J 0 list_request tok = Inr sample_uuid" for J tok
    using session_owner_id by (simp add: get_parcel_writer_owner_id_def get_parcel_reader_owner_id_def get_owner_id_def)
  have valid: "valid_parcel_create journey_payload"
    by (simp add: valid_parcel_create_def journey_payload_def positive_weight_def non_negative_money_def
        decimal_digits_ok_def dec_scale_ok_def dec_whole_lt_def less_decimal_def less_eq_decimal_def dec_val_Dec)
  have "parse_nat (takeWhile is_digit ''20/minute'') = 20" by (simp add: is_digit_def parse_nat_def digit_val_def)
  then have hit: "snd (l_hit (pf_limiter session_platform) (w_limits journey_start) 0 ''20/minute'' r c)" for r c
    by (simp add: session_world_def reference_limiter_def no_counters_def Let_def)
  have rate: "RATE_LIMIT_CREATE session_settings = ''20/minute''" by (simp add: default_settings_def)
  have "limited session_platform ''20/minute'' 0 list_request (\<lambda>a.
      then_respond (\<lambda>p. plain_response 201 (parcel_create_response (p_id p) sample_uuid))
        (create_from_dto session_settings reference_engine ''p1'' journey_payload sample_uuid a)) journey_start = (resp, w1)"
    using assms owner valid rate
    by (simp add: register_parcel_def with_dependency_def Let_def session_settings_eq del: settings_default)
  from limited_passes [OF this journey_create hit] show "status_code resp = 201" "w_app w1 = journey_app"
    by (simp_all add: plain_response_def)
qed

lemma journey_ticks:
  obtains st where "three_ticks session_settings reference_engine reference_redis reference_crypto reference_jwt
      (sample_times 0) (sample_times 300) (sample_times 600) journey_app st"
    and "\<And>k. take 7 k = ''parcel:'' \<Longrightarrow> r_get reference_redis (app_redis st) 700 k = None"
proof -
  have rows: "parcels (app_db journey_app) = [journey_row]" "db_ok (app_db journey_app)"
    using session_db_ok by (simp_all add: session_db_def)
  have lock: "lock_free reference_redis (app_redis journey_app) t \<longleftrightarrow> 330 \<le> t" for t
    by (simp add: lock_free_def session_world_def locked_kv_def)
  have "get_usd_rub_rate session_settings reference_redis sample_source t m =
      get_usd_rub_rate default_settings reference_redis sample_source t m" for t m
    by (simp add: get_usd_rub_rate_def Let_def session_rate_ttl split: option.split sum.split)
  then have rate: "rate_of_run session_settings reference_redis sample_source (sample_times 600)
      (app_redis journey_app) = Inr sample_rate"
    using sample_rate_fetched [of "empty_kv(''delivery_job_lock'' := Some (''1'', Some 930))" 601]
      rate_key_not_lock [of 601]
    by (simp add: rate_of_run_def acquire_lock_def session_world_def locked_kv_def sample_times_def empty_kv_def)
  have storable: "cost_storable session_settings reference_engine sample_rate journey_row"
    using sample_storable by (simp add: cost_storable_def delivery_formula_def sample_parcel_def)
  have times: "ordered_times (sample_times t)" for t by (simp add: ordered_times_def sample_times_def)
  have early: "scheduled_run session_settings reference_engine reference_redis sample_source
      (sample_times t) journey_app journey_app" if "t < 330" for t
    using that ref_delivery.run_skips_when_locked [of journey_app "sample_times t"] lock times
    by (simp add: scheduled_run_def sample_times_def)
  obtain st where run: "recalc_delivery_costs session_settings reference_engine reference_redis sample_source
      (sample_times 600) journey_app = Some (Inr (length (filter unpriced (parcels (app_db journey_app)))), st)"
    using ref_delivery.run_prices_all [OF _ rows(2) _ rate] lock rows(1) storable
    by (auto simp: sample_times_def)
  then have "scheduled_run session_settings reference_engine reference_redis sample_source
      (sample_times 600) journey_app st"
    using rate rows(1) storable times by (simp add: scheduled_run_def)
  with early [of 0] early [of 300] served.idle
  have "three_ticks session_settings reference_engine reference_redis reference_crypto reference_jwt
      (sample_times 0) (sample_times 300) (sample_times 600) journey_app st"
    unfolding three_ticks_def by fastforce
  moreover have "r_get reference_redis (app_redis st) 700 k = None" if "take 7 k = ''parcel:''" for k
  proof -
    have "k \<noteq> rate_key t \<and> k \<notin> {''delivery_job_lock'', ''delivery_last_run_updated'', ''delivery_last_run_at''}" for t
      using that by (auto simp: rate_key_def)
    then show ?thesis
      using ref_delivery.run_redis_elsewhere [OF run times, of 700 k]
      by (simp add: sample_times_def session_world_def locked_kv_def empty_kv_def)
  qed
  ultimately show ?thesis using that by blast
qed


end
