(* ===== verification/Sessions.thy ===== *)
theory Sessions
  imports Auth_Guarantees
begin

text \<open>
  What the authentication service promises, without its tables: a store of live sessions,
  one per token family, each with its user, the one secret that may renew it and its expiry,
  and the family of every secret ever handed out.  The five operations on this store
  (\<open>spec_call\<close>) are what a client may rely on; \<open>abs_sessions\<close> is the store a token table
  stands for, and every operation of \<^verbatim>\<open>app/services/auth.py\<close> refines its specification.
\<close>

record session =
  se_user :: ident
  se_secret :: string
  se_expires :: instant

record session_store =
  live_sessions :: "ident \<Rightarrow> session option"
  secret_family :: "string \<Rightarrow> ident option"

subsection \<open>The specification\<close>

definition open_session :: "ident \<Rightarrow> session \<Rightarrow> session_store \<Rightarrow> session_store" where
  "open_session f s st = st\<lparr>live_sessions := (live_sessions st)(f \<mapsto> s),
     secret_family := (secret_family st)(se_secret s \<mapsto> f)\<rparr>"

definition end_session :: "ident \<Rightarrow> session_store \<Rightarrow> session_store" where
  "end_session f st = st\<lparr>live_sessions := (live_sessions st)(f := None)\<rparr>"

definition end_user_sessions :: "ident \<Rightarrow> session_store \<Rightarrow> session_store" where
  "end_user_sessions u st = st\<lparr>live_sessions := (\<lambda>f. case live_sessions st f of
     None \<Rightarrow> None | Some s \<Rightarrow> if se_user s = u then None else Some s)\<rparr>"

text \<open>
  Renewal: the current secret of a live session, before its expiry, is exchanged for a new
  one; any other secret of the family, or a late one, ends the session.
\<close>

definition renew_session :: "instant \<Rightarrow> instant \<Rightarrow> string \<Rightarrow> string \<Rightarrow> session_store \<Rightarrow> bool \<times> session_store" where
  "renew_session now expires secret presented st =
     (case secret_family st presented of
        None \<Rightarrow> (False, st)
      | Some f \<Rightarrow>
          (case live_sessions st f of
             None \<Rightarrow> (False, st)
           | Some s \<Rightarrow>
               if se_secret s \<noteq> presented \<or> se_expires s \<le> now then (False, end_session f st)
               else (True, open_session f (s\<lparr>se_secret := secret, se_expires := expires\<rparr>) st)))"

definition close_session :: "string \<Rightarrow> session_store \<Rightarrow> bool \<times> session_store" where
  "close_session presented st =
     (case secret_family st presented of
        None \<Rightarrow> (False, st)
      | Some f \<Rightarrow>
          (case live_sessions st f of
             None \<Rightarrow> (True, st)
           | Some s \<Rightarrow> (True, if se_secret s = presented then end_session f st else st)))"

definition start_session :: "settings \<Rightarrow> crypto \<Rightarrow> draws \<Rightarrow> ident option \<Rightarrow> session_store \<Rightarrow> bool \<times> session_store" where
  "start_session S C d granted st =
     (case granted of
        None \<Rightarrow> (False, st)
      | Some u \<Rightarrow> (True, open_session (d_family_id d)
          \<lparr>se_user = u, se_secret = hash_token C (d_raw_token d),
           se_expires = refresh_expires_at S (d_now d)\<rparr> st))"

text \<open>\<open>granted\<close> is the user whose credentials were accepted, for the calls that check them.\<close>

fun spec_call :: "settings \<Rightarrow> crypto \<Rightarrow> ident option \<Rightarrow> auth_call \<Rightarrow> session_store \<Rightarrow> bool \<times> session_store" where
  "spec_call S C granted (Register ud d email password) st = start_session S C d granted st"
| "spec_call S C granted (Login d email password) st = start_session S C d granted st"
| "spec_call S C granted (Refresh d raw) st =
     renew_session (d_now d) (refresh_expires_at S (d_now d)) (hash_token C (d_raw_token d)) (hash_token C raw) st"
| "spec_call S C granted (Logout now raw) st = close_session (hash_token C raw) st"
| "spec_call S C granted (Logout_All now user_id) st = (True, end_user_sessions user_id st)"

subsection \<open>The store a token table stands for\<close>

definition session_of :: "refresh_token \<Rightarrow> session" where
  "session_of t = \<lparr>se_user = rt_user_id t, se_secret = rt_token_hash t, se_expires = rt_expires_at t\<rparr>"

definition abs_sessions :: "refresh_token list \<Rightarrow> session_store" where
  "abs_sessions ts = \<lparr>
     live_sessions = (\<lambda>f. map_option session_of (List.find (\<lambda>t. rt_family_id t = f \<and> active t) ts)),
     secret_family = (\<lambda>h. map_option rt_family_id (find_by rt_token_hash ts h))\<rparr>"

text \<open>A store is determined by the active rows and the families of all hashes.\<close>

definition active_rows :: "db \<Rightarrow> refresh_token set" where
  "active_rows db = {t \<in> set (refresh_tokens db). active t}"

definition hash_rows :: "db \<Rightarrow> (string \<times> ident) set" where
  "hash_rows db = (\<lambda>t. (rt_token_hash t, rt_family_id t)) ` set (refresh_tokens db)"

definition represents :: "session_store \<Rightarrow> refresh_token set \<Rightarrow> (string \<times> ident) set \<Rightarrow> bool" where
  "represents st A K \<longleftrightarrow>
     (\<forall>f s. live_sessions st f = Some s \<longleftrightarrow> (\<exists>t \<in> A. rt_family_id t = f \<and> session_of t = s)) \<and>
     (\<forall>h f. secret_family st h = Some f \<longleftrightarrow> (h, f) \<in> K)"

lemma representsD:
  assumes "represents st A K"
  shows "live_sessions st f = Some s \<longleftrightarrow> (\<exists>t \<in> A. rt_family_id t = f \<and> session_of t = s)"
    and "secret_family st h = Some f \<longleftrightarrow> (h, f) \<in> K"
  using assms unfolding represents_def by blast+

lemma represents_unique:
  assumes "represents st A K" and "represents st' A K"
  shows "st = st'"
proof -
  have "live_sessions st f = live_sessions st' f" for f
    using representsD(1) [OF assms(1), of f] representsD(1) [OF assms(2), of f] by (metis option.exhaust)
  moreover have "secret_family st h = secret_family st' h" for h
    using representsD(2) [OF assms(1), of h] representsD(2) [OF assms(2), of h] by (metis option.exhaust)
  ultimately show ?thesis by (intro session_store.equality) auto
qed

lemma abs_represents:
  assumes "db_ok db" and "families_ok (refresh_tokens db)"
  shows "represents (abs_sessions (refresh_tokens db)) (active_rows db) (hash_rows db)"
  unfolding represents_def
proof (intro conjI allI)
  fix f s
  let ?ts = "refresh_tokens db"
  have "List.find (\<lambda>t. rt_family_id t = f \<and> active t) ?ts = Some t \<longleftrightarrow>
      t \<in> set ?ts \<and> rt_family_id t = f \<and> active t" for t
  proof
    assume "List.find (\<lambda>t. rt_family_id t = f \<and> active t) ?ts = Some t"
    then show "t \<in> set ?ts \<and> rt_family_id t = f \<and> active t" by (auto dest: find_SomeD)
  next
    assume t: "t \<in> set ?ts \<and> rt_family_id t = f \<and> active t"
    then have "List.find (\<lambda>t. rt_family_id t = f \<and> active t) ?ts \<noteq> None"
      by (auto simp: find_None_iff)
    then obtain u where u: "List.find (\<lambda>t. rt_family_id t = f \<and> active t) ?ts = Some u" by blast
    then have "u \<in> set ?ts \<and> rt_family_id u = f \<and> active u" by (auto dest: find_SomeD)
    with t have "u = t" using families_single [OF assms(2), of u t] by simp
    with u show "List.find (\<lambda>t. rt_family_id t = f \<and> active t) ?ts = Some t" by simp
  qed
  then show "live_sessions (abs_sessions ?ts) f = Some s \<longleftrightarrow>
      (\<exists>t \<in> active_rows db. rt_family_id t = f \<and> session_of t = s)"
    by (auto simp: abs_sessions_def active_rows_def)
next
  fix h f
  have "distinct (map rt_token_hash (refresh_tokens db))" using assms(1) by (simp add: db_ok_defs)
  from find_by_iff [OF this] show "secret_family (abs_sessions (refresh_tokens db)) h = Some f \<longleftrightarrow>
      (h, f) \<in> hash_rows db"
    by (auto simp: abs_sessions_def hash_rows_def)
qed

subsection \<open>The specification on rows\<close>

lemma represents_end:
  "represents st A K \<Longrightarrow> represents (end_session f st) {t \<in> A. rt_family_id t \<noteq> f} K"
  by (auto simp: represents_def end_session_def)

lemma represents_end_user:
  assumes "represents st A K"
  shows "represents (end_user_sessions u st) {t \<in> A. rt_user_id t \<noteq> u} K"
  unfolding represents_def
proof (intro conjI allI)
  fix f s
  have "live_sessions (end_user_sessions u st) f = Some s \<longleftrightarrow>
      live_sessions st f = Some s \<and> se_user s \<noteq> u"
    by (auto simp: end_user_sessions_def split: option.splits if_splits)
  then show "live_sessions (end_user_sessions u st) f = Some s \<longleftrightarrow>
      (\<exists>t \<in> {t \<in> A. rt_user_id t \<noteq> u}. rt_family_id t = f \<and> session_of t = s)"
    unfolding representsD(1) [OF assms] by (auto simp: session_of_def)
next
  fix h f
  show "secret_family (end_user_sessions u st) h = Some f \<longleftrightarrow> (h, f) \<in> K"
    using representsD(2) [OF assms] by (simp add: end_user_sessions_def)
qed

lemma represents_open:
  assumes "represents st A K" and "rt_token_hash n \<notin> fst ` K"
  shows "represents (open_session (rt_family_id n) (session_of n) st)
    (insert n {t \<in> A. rt_family_id t \<noteq> rt_family_id n}) (insert (rt_token_hash n, rt_family_id n) K)"
  unfolding represents_def
proof (intro conjI allI)
  fix f s
  show "live_sessions (open_session (rt_family_id n) (session_of n) st) f = Some s \<longleftrightarrow>
      (\<exists>t \<in> insert n {t \<in> A. rt_family_id t \<noteq> rt_family_id n}. rt_family_id t = f \<and> session_of t = s)"
    using representsD(1) [OF assms(1), of f s] by (auto simp: open_session_def)
next
  fix h f
  have "(rt_token_hash n, f) \<notin> K" using assms(2) by force
  then show "secret_family (open_session (rt_family_id n) (session_of n) st) h = Some f \<longleftrightarrow>
      (h, f) \<in> insert (rt_token_hash n, rt_family_id n) K"
    using representsD(2) [OF assms(1), of h f] by (auto simp: open_session_def session_of_def)
qed

subsection \<open>The operations on rows\<close>

lemma revoke_where_rows:
  "active_rows (revoke_where (\<lambda>t. P t \<and> active t) now db) = {t \<in> active_rows db. \<not> P t}"
    (is "?active")
  "hash_rows (revoke_where Q now db) = hash_rows db" (is "?hashes")
proof -
  show ?active
  proof (rule set_eqI)
    fix t
    show "t \<in> active_rows (revoke_where (\<lambda>t. P t \<and> active t) now db) \<longleftrightarrow> t \<in> {t \<in> active_rows db. \<not> P t}"
      by (auto simp: active_rows_def revoke_where_def in_update_where split: if_splits
          dest: arg_cong [where f = rt_revoked_at])
  qed
  have "map (\<lambda>t. (rt_token_hash t, rt_family_id t)) (refresh_tokens (revoke_where Q now db)) =
      map (\<lambda>t. (rt_token_hash t, rt_family_id t)) (refresh_tokens db)"
    by (simp add: revoke_where_def map_update_where)
  then show ?hashes unfolding hash_rows_def by (metis list.set_map)
qed

text \<open>Revoking the one active row of a family, alone or on behalf of a successor.\<close>

lemma set_token_rows:
  assumes "db_ok db" and "families_ok (refresh_tokens db)" and "t \<in> set (refresh_tokens db)" and "active t"
    and f: "\<not> active (f t)" "\<And>u. rt_token_hash (f u) = rt_token_hash u \<and> rt_family_id (f u) = rt_family_id u"
  shows "active_rows (set_token (rt_jti t) f db) = {u \<in> active_rows db. rt_family_id u \<noteq> rt_family_id t}"
    and "hash_rows (set_token (rt_jti t) f db) = hash_rows db"
proof -
  show "active_rows (set_token (rt_jti t) f db) = {u \<in> active_rows db. rt_family_id u \<noteq> rt_family_id t}"
  proof (rule set_eqI)
    fix u
    have "u \<in> active_rows (set_token (rt_jti t) f db) \<longleftrightarrow> u \<in> set (refresh_tokens db) \<and> u \<noteq> t \<and> active u"
      using set_token_unique [OF assms(1,3), of u f] f(1) by (auto simp: active_rows_def set_token_def)
    moreover have "u \<noteq> t \<longleftrightarrow> rt_family_id u \<noteq> rt_family_id t" if "u \<in> set (refresh_tokens db)" "active u"
      using families_single [OF assms(2) that(1) assms(3) _ that(2) assms(4)] by blast
    ultimately show "u \<in> active_rows (set_token (rt_jti t) f db) \<longleftrightarrow>
        u \<in> {u \<in> active_rows db. rt_family_id u \<noteq> rt_family_id t}"
      by (auto simp: active_rows_def)
  qed
  have "map (\<lambda>t. (rt_token_hash t, rt_family_id t)) (refresh_tokens (set_token (rt_jti t) f db)) =
      map (\<lambda>t. (rt_token_hash t, rt_family_id t)) (refresh_tokens db)"
    using f(2) by (simp add: set_token_def map_update_where)
  then show "hash_rows (set_token (rt_jti t) f db) = hash_rows db" unfolding hash_rows_def by (metis list.set_map)
qed

lemma insert_token_rows:
  assumes "insert_token n db = Inr db'" and "active n"
  shows "active_rows db' = insert n (active_rows db)"
    and "hash_rows db' = insert (rt_token_hash n, rt_family_id n) (hash_rows db)"
    and "rt_token_hash n \<notin> fst ` hash_rows db"
  using assms by (auto simp: insert_token_Inr_iff active_rows_def hash_rows_def image_iff)

subsection \<open>Each operation implements its specification\<close>

text \<open>
  \<open>implements st out db db' spec\<close>: the call that left \<open>db'\<close> with outcome \<open>out\<close> is the step
  \<open>spec\<close> of the store \<open>st\<close>, unless the driver refused a write, which leaves every session.
\<close>

fun database_error :: "exc \<Rightarrow> bool" where
  "database_error (DatabaseError m) \<longleftrightarrow> True"
| "database_error _ \<longleftrightarrow> False"

fun database_failure :: "'a result \<Rightarrow> bool" where
  "database_failure (Inl e) \<longleftrightarrow> database_error e"
| "database_failure (Inr x) \<longleftrightarrow> False"

definition implements :: "'a result \<Rightarrow> db \<Rightarrow> db \<Rightarrow> bool \<times> session_store \<Rightarrow> bool" where
  "implements out db db' spec \<longleftrightarrow>
     (if database_failure out then active_rows db' = active_rows db \<and> hash_rows db' = hash_rows db
      else fst spec = (\<not> isl out) \<and> represents (snd spec) (active_rows db') (hash_rows db'))"

lemma insert_token_Inl: "insert_token t db = Inl e \<Longrightarrow> database_error e"
  by (auto simp: insert_token_def split: if_splits)

lemma insert_user_Inl: "insert_user u db = Inl e \<Longrightarrow> database_error e"
  by (auto simp: insert_user_def split: if_splits)

lemma same_tokens_rows:
  assumes "refresh_tokens db' = refresh_tokens db"
  shows "active_rows db' = active_rows db" "hash_rows db' = hash_rows db"
  by (simp_all add: active_rows_def hash_rows_def assms)

lemma implements_refusal:
  "represents st (active_rows db) (hash_rows db) \<Longrightarrow> implements (Inl e) db db (False, st)"
  by (simp add: implements_def)

lemma issue_tokens_implements:
  assumes "represents st (active_rows db) (hash_rows db)" and "refresh_tokens db1 = refresh_tokens db"
    and "d_family_id d \<notin> rt_family_id ` set (refresh_tokens db)"
  shows "implements (fst (issue_tokens S C J d u db1)) db (snd (issue_tokens S C J d u db1))
    (start_session S C d (Some (u_id u)) st)"
proof -
  let ?n = "new_refresh_row S C d (u_id u) (d_family_id d)"
  show ?thesis
  proof (cases "insert_token ?n db1")
    case (Inl e)
    then show ?thesis using insert_token_Inl [OF Inl] same_tokens_rows [OF assms(2)]
      by (simp add: issue_tokens_def implements_def)
  next
    case (Inr db')
    from insert_token_rows [OF this] same_tokens_rows [OF assms(2)]
    have rows: "active_rows db' = insert ?n (active_rows db)"
        "hash_rows db' = insert (rt_token_hash ?n, rt_family_id ?n) (hash_rows db)"
        "rt_token_hash ?n \<notin> fst ` hash_rows db" by simp_all
    have "{t \<in> active_rows db. rt_family_id t \<noteq> rt_family_id ?n} = active_rows db"
      using assms(3) by (auto simp: active_rows_def) (metis imageI)
    with represents_open [OF assms(1) rows(3)] rows(1,2) Inr show ?thesis
      by (simp add: issue_tokens_def implements_def start_session_def session_of_def)
  qed
qed

text \<open>Who a call's credentials belong to: the new user of a registration, the user whose
password a login gave.\<close>

fun granted_to :: "crypto \<Rightarrow> auth_call \<Rightarrow> db \<Rightarrow> ident option" where
  "granted_to C (Register ud d email password) db =
     (if find_by u_email (users db) email = None \<and> \<not> isl (hash_password C (d_salt ud) password)
      then Some (d_user_id ud) else None)"
| "granted_to C (Login d email password) db =
     (case find_by u_email (users db) email of
        None \<Rightarrow> None
      | Some u \<Rightarrow> if verify_password C password (u_hashed_password u) = Inr True then Some (u_id u) else None)"
| "granted_to C _ db = None"

lemma register_implements:
  assumes "represents st (active_rows db) (hash_rows db)"
    and "d_family_id d \<notin> rt_family_id ` set (refresh_tokens db)"
  shows "implements (fst (register S C J ud d email password db)) db (snd (register S C J ud d email password db))
    (start_session S C d (granted_to C (Register ud d email password) db) st)"
proof (cases "find_by u_email (users db) email")
  case (Some u)
  with implements_refusal [OF assms(1)] show ?thesis by (simp add: register_def start_session_def)
next
  case None
  show ?thesis
  proof (cases "hash_password C (d_salt ud) password")
    case (Inl e)
    with None implements_refusal [OF assms(1)] show ?thesis by (simp add: register_def start_session_def)
  next
    case (Inr h)
    define u where "u = \<lparr>u_id = d_user_id ud, u_email = email, u_hashed_password = h,
      u_role = DEFAULT_USER_ROLE, u_created_at = d_created_at ud\<rparr>"
    show ?thesis
    proof (cases "insert_user u db")
      case (Inl e)
      with None \<open>hash_password C (d_salt ud) password = Inr h\<close> insert_user_Inl [OF Inl] show ?thesis
        by (simp add: register_def implements_def u_def)
    next
      case ins: (Inr db1)
      then have "refresh_tokens db1 = refresh_tokens db" by (auto simp: insert_user_Inr_iff)
      from issue_tokens_implements [OF assms(1) this assms(2), of S C J u] None Inr ins show ?thesis
        by (simp add: register_def u_def)
    qed
  qed
qed

lemma login_implements:
  assumes "represents st (active_rows db) (hash_rows db)"
    and "d_family_id d \<notin> rt_family_id ` set (refresh_tokens db)"
  shows "implements (fst (login S C J d email password db)) db (snd (login S C J d email password db))
    (start_session S C d (granted_to C (Login d email password) db) st)"
proof (cases "find_by u_email (users db) email")
  case None
  with implements_refusal [OF assms(1)] show ?thesis by (simp add: login_def start_session_def)
next
  case (Some u)
  with implements_refusal [OF assms(1)] issue_tokens_implements [OF assms(1) refl assms(2), of S C J u]
  show ?thesis by (auto simp: login_def start_session_def split: sum.split bool.split)
qed

lemma invalid_refresh_no_failure [simp]: "\<not> database_failure invalid_refresh"
  by simp

lemma represents_lookup:
  assumes "represents st (active_rows db) (hash_rows db)" and "families_ok (refresh_tokens db)"
    and "t \<in> set (refresh_tokens db)"
  shows "db_ok db \<Longrightarrow> secret_family st (rt_token_hash t) = Some (rt_family_id t)"
    and "active t \<Longrightarrow> live_sessions st (rt_family_id t) = Some (session_of t)"
    and "live_sessions st (rt_family_id t) = Some s \<Longrightarrow>
      \<exists>u \<in> set (refresh_tokens db). active u \<and> rt_family_id u = rt_family_id t \<and> s = session_of u"
  using representsD [OF assms(1)] assms(3) by (auto simp: active_rows_def hash_rows_def)

lemma represents_unknown:
  assumes "represents st (active_rows db) (hash_rows db)"
    and "hash_token C raw \<notin> rt_token_hash ` set (refresh_tokens db)"
  shows "secret_family st (hash_token C raw) = None"
proof (rule ccontr)
  assume "secret_family st (hash_token C raw) \<noteq> None"
  then obtain f where "(hash_token C raw, f) \<in> hash_rows db" using representsD(2) [OF assms(1)] by blast
  with assms(2) show False by (auto simp: hash_rows_def)
qed

text \<open>A revoked row's family: its live session, if any, has another secret.\<close>

lemma represents_other_secret:
  assumes "represents st (active_rows db) (hash_rows db)" and "db_ok db" and "families_ok (refresh_tokens db)"
    and "t \<in> set (refresh_tokens db)" and "\<not> active t" and "live_sessions st (rt_family_id t) = Some s"
  shows "se_secret s \<noteq> rt_token_hash t"
proof
  assume eq: "se_secret s = rt_token_hash t"
  obtain u where "u \<in> set (refresh_tokens db)" "active u" "s = session_of u"
    using represents_lookup(3) [OF assms(1,3,4,6)] by blast
  with same_hash [OF assms(2) _ assms(4), of u] eq assms(5) show False by (simp add: session_of_def)
qed

lemma no_session_no_rows:
  assumes "represents st (active_rows db) (hash_rows db)" and "live_sessions st f = None"
  shows "{t \<in> active_rows db. rt_family_id t \<noteq> f} = active_rows db"
  using representsD(1) [OF assms(1), of f] assms(2) by auto

abbreviation refresh_meets ::
  "settings \<Rightarrow> crypto \<Rightarrow> jwt_lib \<Rightarrow> draws \<Rightarrow> string \<Rightarrow> db \<Rightarrow> session_store \<Rightarrow> bool" where
  "refresh_meets S C J d raw db st \<equiv>
     implements (fst (refresh S C J d raw db)) db (snd (refresh S C J d raw db))
       (renew_session (d_now d) (refresh_expires_at S (d_now d)) (hash_token C (d_raw_token d)) (hash_token C raw) st)"

lemma replayed_refresh_implements:
  assumes st: "represents st (active_rows db) (hash_rows db)" and ok: "db_ok db"
    and fam: "families_ok (refresh_tokens db)"
    and t: "t \<in> set (refresh_tokens db)" "rt_token_hash t = hash_token C raw" "\<not> active t"
  shows "refresh_meets S C J d raw db st"
proof -
  note hash = represents_lookup(1) [OF st fam t(1) ok, unfolded t(2)]
  have run: "refresh S C J d raw db = (invalid_refresh, revoke_family (rt_family_id t) (d_now d) db)"
    using refresh_cases(2) [OF ok t(1,2)] t(3) by simp
  have rows: "active_rows (snd (refresh S C J d raw db)) = {u \<in> active_rows db. rt_family_id u \<noteq> rt_family_id t}"
      "hash_rows (snd (refresh S C J d raw db)) = hash_rows db"
    unfolding run by (simp_all add: revoke_family_def revoke_where_rows)
  show ?thesis
  proof (cases "live_sessions st (rt_family_id t)")
    case None
    with hash st rows no_session_no_rows [OF st None] run show ?thesis
      by (simp add: implements_def renew_session_def)
  next
    case (Some s)
    with hash rows represents_end [OF st] represents_other_secret [OF st ok fam t(1,3) Some] t(2) run
    show ?thesis by (simp add: implements_def renew_session_def)
  qed
qed

lemma late_refresh_implements:
  assumes st: "represents st (active_rows db) (hash_rows db)" and ok: "db_ok db"
    and fam: "families_ok (refresh_tokens db)"
    and t: "t \<in> set (refresh_tokens db)" "rt_token_hash t = hash_token C raw" "active t" "rt_expires_at t \<le> d_now d"
  shows "refresh_meets S C J d raw db st"
proof -
  note hash = represents_lookup(1) [OF st fam t(1) ok, unfolded t(2)]
    and live = represents_lookup(2) [OF st fam t(1,3)]
  have run: "refresh S C J d raw db = (invalid_refresh, stamp_revoked t (d_now d) db)"
    using refresh_cases(2) [OF ok t(1,2)] t(3,4) by simp
  have rows: "active_rows (stamp_revoked t (d_now d) db) = {u \<in> active_rows db. rt_family_id u \<noteq> rt_family_id t}"
      "hash_rows (stamp_revoked t (d_now d) db) = hash_rows db"
    unfolding stamp_revoked_def using set_token_rows [OF ok fam t(1,3)] by simp_all
  with hash live t(4) represents_end [OF st] run show ?thesis
    by (simp add: implements_def renew_session_def session_of_def)
qed

lemma rotating_refresh_implements:
  assumes st: "represents st (active_rows db) (hash_rows db)" and ok: "db_ok db"
    and fam: "families_ok (refresh_tokens db)"
    and t: "t \<in> set (refresh_tokens db)" "rt_token_hash t = hash_token C raw" "active t" "d_now d < rt_expires_at t"
  shows "refresh_meets S C J d raw db st"
proof -
  note hash = represents_lookup(1) [OF st fam t(1) ok, unfolded t(2)]
    and live = represents_lookup(2) [OF st fam t(1,3)]
  obtain u where u: "find_by u_id (users db) (rt_user_id t) = Some u" "u_id u = rt_user_id t"
    using token_owner [OF ok t(1)] by metis
  let ?n = "new_refresh_row S C d (rt_user_id t) (rt_family_id t)"
  let ?db = "replace_token t (d_now d) (d_jti d) db"
  have run: "refresh S C J d raw db = (case insert_token ?n ?db of
      Inl e \<Rightarrow> (Inl e, db) | Inr db' \<Rightarrow> (Inr (new_auth_result S J d u), db'))"
    using refresh_cases(2) [OF ok t(1,2)] t(3,4) u by simp
  show ?thesis
  proof (cases "insert_token ?n ?db")
    case (Inl e)
    with run insert_token_Inl [OF Inl] show ?thesis by (simp add: implements_def)
  next
    case (Inr db')
    have rows: "active_rows ?db = {u \<in> active_rows db. rt_family_id u \<noteq> rt_family_id t}"
        "hash_rows ?db = hash_rows db"
      unfolding replace_token_def using set_token_rows [OF ok fam t(1,3)] by simp_all
    from insert_token_rows [OF Inr] rows represents_open [OF st, of ?n]
    have "represents (open_session (rt_family_id t) (session_of ?n) st) (active_rows db') (hash_rows db')"
      by simp
    with run Inr hash live t(2,4) show ?thesis
      by (simp add: implements_def renew_session_def session_of_def)
  qed
qed

lemma refresh_implements:
  assumes st: "represents st (active_rows db) (hash_rows db)" and ok: "db_ok db"
    and fam: "families_ok (refresh_tokens db)"
  shows "refresh_meets S C J d raw db st"
proof (cases "hash_token C raw \<in> rt_token_hash ` set (refresh_tokens db)")
  case False
  with refresh_cases(1) [OF ok False] represents_unknown [OF st False] implements_refusal [OF st]
  show ?thesis by (simp add: renew_session_def)
next
  case True
  then obtain t where t: "t \<in> set (refresh_tokens db)" "rt_token_hash t = hash_token C raw" by auto
  consider "\<not> active t" | "active t" "rt_expires_at t \<le> d_now d" | "active t" "d_now d < rt_expires_at t"
    by linarith
  then show ?thesis
    by cases (rule replayed_refresh_implements [OF assms t] late_refresh_implements [OF assms t]
        rotating_refresh_implements [OF assms t], assumption+)+
qed

lemma logout_implements:
  assumes st: "represents st (active_rows db) (hash_rows db)" and ok: "db_ok db"
    and fam: "families_ok (refresh_tokens db)"
  shows "implements (fst (logout C now raw db)) db (snd (logout C now raw db)) (close_session (hash_token C raw) st)"
proof (cases "get_refresh_token C raw db")
  case (Inl e)
  with ok have "hash_token C raw \<notin> rt_token_hash ` set (refresh_tokens db)"
      "e = UnauthorizedError ''Invalid refresh token''"
    by (simp_all add: get_refresh_token_cases)
  with represents_unknown [OF st this(1)] implements_refusal [OF st] Inl show ?thesis
    by (simp add: logout_def close_session_def)
next
  case (Inr t)
  with ok have t: "t \<in> set (refresh_tokens db)" "rt_token_hash t = hash_token C raw"
    by (simp_all add: get_refresh_token_cases)
  note hash = represents_lookup(1) [OF st fam t(1) ok, unfolded t(2)]
  show ?thesis
  proof (cases "active t")
    case False
    with Inr hash st represents_other_secret [OF st ok fam t(1) False] t(2) show ?thesis
      by (auto simp: logout_def implements_def close_session_def split: option.split)
  next
    case act: True
    have "active_rows (stamp_revoked t now db) = {u \<in> active_rows db. rt_family_id u \<noteq> rt_family_id t}"
        "hash_rows (stamp_revoked t now db) = hash_rows db"
      unfolding stamp_revoked_def using set_token_rows [OF ok fam t(1) act] by simp_all
    with Inr hash act represents_lookup(2) [OF st fam t(1) act] represents_end [OF st] t(2) show ?thesis
      by (simp add: logout_def implements_def close_session_def session_of_def)
  qed
qed

text \<open>What the caller of a service call is told: it succeeded, or which exception it raised.\<close>

fun auth_outcome :: "settings \<Rightarrow> crypto \<Rightarrow> jwt_lib \<Rightarrow> auth_call \<Rightarrow> db \<Rightarrow> unit result" where
  "auth_outcome S C J (Register ud d email password) db =
     map_sum id (\<lambda>_. ()) (fst (register S C J ud d email password db))"
| "auth_outcome S C J (Login d email password) db = map_sum id (\<lambda>_. ()) (fst (login S C J d email password db))"
| "auth_outcome S C J (Refresh d raw) db = map_sum id (\<lambda>_. ()) (fst (refresh S C J d raw db))"
| "auth_outcome S C J (Logout now raw) db = fst (logout C now raw db)"
| "auth_outcome S C J (Logout_All now user_id) db = Inr ()"

lemma database_failure_map_sum [simp]: "database_failure (map_sum id g r) = database_failure r"
  by (cases r) simp_all

lemma implements_map_sum [simp]: "implements (map_sum id g r) db db' spec = implements r db db' spec"
  by (simp add: implements_def) (cases r; simp)

lemma auth_call_implements:
  assumes "represents st (active_rows db) (hash_rows db)" and "db_ok db" and "families_ok (refresh_tokens db)"
    and "fresh_family c db"
  shows "implements (auth_outcome S C J c db) db (auth_effect S C J c db) (spec_call S C (granted_to C c db) c st)"
proof (cases c)
  case (Logout_All now user_id)
  have "active_rows (logout_all now user_id db) = {t \<in> active_rows db. rt_user_id t \<noteq> user_id}"
      "hash_rows (logout_all now user_id db) = hash_rows db"
    unfolding logout_all_def by (rule revoke_where_rows)+
  with Logout_All represents_end_user [OF assms(1)] show ?thesis by (simp add: implements_def)
qed (use assms register_implements login_implements refresh_implements logout_implements in
    \<open>simp_all del: granted_to.simps(1,2)\<close>)

text \<open>
  C3: the authentication service implements the session store.  Whatever call is made on a
  consistent database, what the caller is told and the sessions the new token table stands
  for are those of the specification: a login or registration opens a session exactly when
  the credentials were right, a refresh exchanges the current secret of a live session and
  with any other secret of the family, or a late one, ends it, a logout closes the session
  of a current secret and no other, logout from all devices ends exactly the sessions of
  the user.  When the driver refuses the write, every session is as before.
\<close>

theorem auth_refines_sessions:
  assumes "db_ok db" and "families_ok (refresh_tokens db)" and "fresh_family c db"
  shows "if database_failure (auth_outcome S C J c db)
    then abs_sessions (refresh_tokens (auth_effect S C J c db)) = abs_sessions (refresh_tokens db)
    else (\<not> isl (auth_outcome S C J c db), abs_sessions (refresh_tokens (auth_effect S C J c db))) =
      spec_call S C (granted_to C c db) c (abs_sessions (refresh_tokens db))"
proof -
  have "db_ok (auth_effect S C J c db)" by (rule auth_effect_db_ok [OF assms(1)])
  moreover have "families_ok (refresh_tokens (auth_effect S C J c db))"
    by (rule token_step_families_ok [OF auth_effect_step [OF assms(1,3)] assms(2)])
  ultimately have after: "represents (abs_sessions (refresh_tokens (auth_effect S C J c db)))
      (active_rows (auth_effect S C J c db)) (hash_rows (auth_effect S C J c db))"
    by (rule abs_represents)
  note before = abs_represents [OF assms(1,2)]
  from auth_call_implements [OF before assms, of S C J] after before show ?thesis
    by (auto simp: implements_def prod_eq_iff intro: represents_unique split: if_splits)
qed

theorem auth_refines_sessions_witness:
  "live_sessions (abs_sessions (refresh_tokens sample_auth_db)) ''f1'' =
     Some \<lparr>se_user = ''u1'', se_secret = hash_token reference_crypto ''r1'', se_expires = 2592000\<rparr> \<and>
   live_sessions (abs_sessions (refresh_tokens (auth_effect default_settings reference_crypto reference_jwt
       (Refresh (sample_draws ''r2'' ''j2'' ''f2'' 60) ''r1'') sample_auth_db))) ''f1'' =
     Some \<lparr>se_user = ''u1'', se_secret = hash_token reference_crypto ''r2'', se_expires = 2592060\<rparr>"
proof -
  let ?c = "Refresh (sample_draws ''r2'' ''j2'' ''f2'' 60) ''r1''"
  let ?st = "abs_sessions (refresh_tokens sample_auth_db)"
  let ?s = "\<lparr>se_user = ''u1'', se_secret = hash_token reference_crypto ''r1'', se_expires = 2592000\<rparr>"
  have live: "live_sessions ?st ''f1'' = Some ?s"
    and hash: "secret_family ?st (hash_token reference_crypto ''r1'') = Some ''f1''"
    by (simp_all add: abs_sessions_def sample_auth_rows session_of_def find_by_def)
  obtain r db' where "refresh default_settings reference_crypto reference_jwt
      (sample_draws ''r2'' ''j2'' ''f2'' 60) ''r1'' sample_auth_db = (Inr r, db')"
    by (rule sample_refreshed)
  then have "\<not> database_failure (auth_outcome default_settings reference_crypto reference_jwt ?c sample_auth_db)"
    by simp
  then have "abs_sessions (refresh_tokens (auth_effect default_settings reference_crypto reference_jwt ?c sample_auth_db)) =
      snd (spec_call default_settings reference_crypto (granted_to reference_crypto ?c sample_auth_db) ?c ?st)"
    using auth_refines_sessions [OF sample_auth_db_ok sample_families, of ?c default_settings
        reference_crypto reference_jwt] by (metis fresh_family.simps(3) snd_conv)
  also have "\<dots> = open_session ''f1'' (?s\<lparr>se_secret := hash_token reference_crypto ''r2'', se_expires := 2592060\<rparr>) ?st"
    using live hash by (simp add: renew_session_def del: hash_token_r)
  finally show ?thesis using live by (simp add: open_session_def)
qed

text \<open>
  The specification itself: no store ever accepts a secret twice, and what is ended stays
  ended for its secret.
\<close>

lemma renewed_secret_is_spent:
  assumes "renew_session now expires secret presented st = (True, st')" and "secret \<noteq> presented"
  shows "fst (renew_session now' expires' secret' presented st') = False"
  using assms by (auto simp: renew_session_def open_session_def split: option.splits if_splits)

lemma ended_session_refuses:
  "secret_family st presented = Some f \<Longrightarrow>
     fst (renew_session now expires secret presented (end_session f st)) = False"
  by (simp add: renew_session_def end_session_def)

end
