(* ===== verification/Refresh_Races.thy ===== *)
theory Refresh_Races
  imports Sessions
begin

text \<open>
  Refresh requests that overlap.  The service reads the token and its user with plain
  \<^verbatim>\<open>SELECT\<close>s and writes at \<^verbatim>\<open>commit\<close>; between the two, other requests may commit.
  \<open>refresh_read\<close> is the first half, on the database the request sees, \<open>refresh_commit\<close>
  the second, on the database it finds; back to back they are \<open>refresh\<close>.  The writes are
  those the unit of work sends: updates by primary key, then the new row.
\<close>

datatype token_write =
    Stamp_Revoked ident instant
  | Stamp_Replaced ident instant ident
  | Revoke_Family ident instant
  | Add_Token refresh_token

datatype refresh_decision =
    Reject "token_write list"
  | Rotate user "token_write list"

fun write_token :: "token_write \<Rightarrow> db \<Rightarrow> db result" where
  "write_token (Stamp_Revoked jti now) db = Inr (set_token jti (rt_revoked_at_update (\<lambda>_. Some now)) db)"
| "write_token (Stamp_Replaced jti now successor) db =
     Inr (set_token jti (\<lambda>t. t\<lparr>rt_revoked_at := Some now, rt_replaced_by_jti := Some successor\<rparr>) db)"
| "write_token (Revoke_Family family now) db = Inr (revoke_family family now db)"
| "write_token (Add_Token t) db = insert_token t db"

fun commit_writes :: "token_write list \<Rightarrow> db \<Rightarrow> db result" where
  "commit_writes [] db = Inr db"
| "commit_writes (w # ws) db = bind_result (write_token w db) (commit_writes ws)"

definition refresh_read :: "settings \<Rightarrow> crypto \<Rightarrow> draws \<Rightarrow> string \<Rightarrow> db \<Rightarrow> refresh_decision" where
  "refresh_read S C d raw db =
     (case get_refresh_token C raw db of
        Inl e \<Rightarrow> Reject []
      | Inr t \<Rightarrow>
          (let now = d_now d in
           if rt_revoked_at t \<noteq> None then Reject [Revoke_Family (rt_family_id t) now]
           else if rt_expires_at t \<le> now then Reject [Stamp_Revoked (rt_jti t) now]
           else case find_by u_id (users db) (rt_user_id t) of
                  None \<Rightarrow> Reject [Stamp_Revoked (rt_jti t) now]
                | Some u \<Rightarrow> Rotate u [Stamp_Replaced (rt_jti t) now (d_jti d),
                    Add_Token (new_refresh_row S C d (u_id u) (rt_family_id t))]))"

definition refresh_commit ::
  "settings \<Rightarrow> jwt_lib \<Rightarrow> draws \<Rightarrow> refresh_decision \<Rightarrow> db \<Rightarrow> auth_result result \<times> db" where
  "refresh_commit S J d decision db =
     (case decision of
        Reject ws \<Rightarrow>
          (case commit_writes ws db of
             Inl e \<Rightarrow> (Inl e, db)
           | Inr db' \<Rightarrow> (Inl (UnauthorizedError ''Invalid refresh token''), db'))
      | Rotate u ws \<Rightarrow>
          (case commit_writes ws db of
             Inl e \<Rightarrow> (Inl e, db)
           | Inr db' \<Rightarrow> (Inr (new_auth_result S J d u), db')))"

lemma refresh_phases: "refresh S C J d raw db = refresh_commit S J d (refresh_read S C d raw db) db"
proof (cases "get_refresh_token C raw db")
  case (Inl e)
  then have "e = UnauthorizedError ''Invalid refresh token''"
    by (auto simp: get_refresh_token_def split: option.splits)
  with Inl show ?thesis by (simp add: refresh_def refresh_read_def refresh_commit_def)
next
  case (Inr t)
  then show ?thesis
    by (simp add: refresh_def refresh_read_def refresh_commit_def Let_def bind_result_def
        stamp_revoked_def replace_token_def split: option.split sum.split)
qed

text \<open>What the first half depends on: the token's row and its user.\<close>

lemma refresh_read_cong:
  assumes "get_refresh_token C raw db' = get_refresh_token C raw db"
    and "\<And>t. get_refresh_token C raw db = Inr t \<Longrightarrow>
      find_by u_id (users db') (rt_user_id t) = find_by u_id (users db) (rt_user_id t)"
  shows "refresh_read S C d raw db' = refresh_read S C d raw db"
  using assms by (simp add: refresh_read_def Let_def split: sum.split)

lemma get_refresh_token_row:
  assumes "db_ok db" and "db_ok db'" and "t \<in> set (refresh_tokens db)" and "t \<in> set (refresh_tokens db')"
    and "rt_token_hash t = hash_token C raw"
  shows "get_refresh_token C raw db' = get_refresh_token C raw db"
proof -
  have "get_refresh_token C raw db = Inr t" using assms by (simp add: get_refresh_token_cases)
  moreover have "get_refresh_token C raw db' = Inr t" using assms by (simp add: get_refresh_token_cases)
  ultimately show ?thesis by simp
qed

lemma find_user_mono:
  assumes "db_ok db" and "db_ok db'" and "set (users db) \<subseteq> set (users db')"
    and "find_by u_id (users db) i = Some u"
  shows "find_by u_id (users db') i = Some u"
proof -
  have "distinct (map u_id (users db))" "distinct (map u_id (users db'))"
    using assms(1,2) by (simp_all add: db_ok_defs)
  with assms(3,4) show ?thesis by (auto simp: find_by_iff)
qed

text \<open>
  C14: a refresh that overlaps other requests is as good as one that runs alone whenever its
  token's row was not written in between: what it answers and the database it leaves are
  those of an uninterrupted \<^verbatim>\<open>refresh\<close> at the moment of its commit, whatever the others
  did to other tokens and however many users they added.
\<close>

theorem refresh_serializable:
  assumes "db_ok db" and "db_ok db'" and "t \<in> set (refresh_tokens db)" and "t \<in> set (refresh_tokens db')"
    and "rt_token_hash t = hash_token C raw" and "set (users db) \<subseteq> set (users db')"
  shows "refresh_commit S J d (refresh_read S C d raw db) db' = refresh S C J d raw db'"
proof -
  have "find_by u_id (users db') (rt_user_id s) = find_by u_id (users db) (rt_user_id s)"
    if "get_refresh_token C raw db = Inr s" for s
  proof -
    from that have "s \<in> set (refresh_tokens db)" by (simp add: get_refresh_token_cases [OF assms(1)])
    then obtain u where "find_by u_id (users db) (rt_user_id s) = Some u"
      using token_owner [OF assms(1)] by metis
    with find_user_mono [OF assms(1,2,6)] show ?thesis by simp
  qed
  then have "refresh_read S C d raw db' = refresh_read S C d raw db"
    by (rule refresh_read_cong [OF get_refresh_token_row [OF assms(1-5)]])
  then show ?thesis by (simp add: refresh_phases)
qed

subsection \<open>Overlapping requests for one token\<close>

lemma refresh_read_active:
  assumes "db_ok db" and "t \<in> set (refresh_tokens db)" and "rt_token_hash t = hash_token C raw"
    and "active t" and "d_now d < rt_expires_at t"
  shows "\<exists>u \<in> set (users db). u_id u = rt_user_id t \<and> find_by u_id (users db) (rt_user_id t) = Some u \<and>
    refresh_read S C d raw db = Rotate u [Stamp_Replaced (rt_jti t) (d_now d) (d_jti d),
      Add_Token (new_refresh_row S C d (rt_user_id t) (rt_family_id t))]"
proof -
  obtain u where "find_by u_id (users db) (rt_user_id t) = Some u" "u \<in> set (users db)" "u_id u = rt_user_id t"
    using token_owner [OF assms(1,2)] .
  moreover have "get_refresh_token C raw db = Inr t" using assms by (simp add: get_refresh_token_cases)
  ultimately show ?thesis using assms(4,5) by (intro bexI [of _ u]) (simp_all add: refresh_read_def)
qed

text \<open>Committing a rotation decided earlier: it asks only that the new row fits.\<close>

lemma late_rotation:
  assumes "crypto_library C" and "db_ok db" and "usable_draws C db d" and "u \<in> set (users db)"
    and "length family \<le> 36"
  shows "refresh_commit S J d (Rotate u [Stamp_Replaced jti now (d_jti d),
        Add_Token (new_refresh_row S C d (u_id u) family)]) db =
      (Inr (new_auth_result S J d u), db\<lparr>refresh_tokens :=
         update_where (\<lambda>r. rt_jti r = jti)
           (\<lambda>t. t\<lparr>rt_revoked_at := Some now, rt_replaced_by_jti := Some (d_jti d)\<rparr>) (refresh_tokens db) @
         [new_refresh_row S C d (u_id u) family]\<rparr>)"
proof -
  let ?db = "set_token jti (\<lambda>t. t\<lparr>rt_revoked_at := Some now, rt_replaced_by_jti := Some (d_jti d)\<rparr>) db"
  have "usable_draws C ?db d"
    using assms(3) by (simp add: usable_draws_def set_token_def image_update_where)
  from crypto_library.token_insertable [OF assms(1) this _ users_ok_rows [OF assms(2,4)] assms(5)] assms(4)
  show ?thesis by (simp add: refresh_commit_def set_token_def)
qed

text \<open>
  C15: two requests that present the same token at the same time both succeed.  If the second
  reads before the first commits, both are answered with new credentials, the family has two
  different active tokens, and the reuse is not noticed; had the second come after the first
  commit it would have been refused and the family revoked.
\<close>

theorem overlapping_refreshes_both_succeed:
  assumes "crypto_library C" and "db_ok db" and t: "t \<in> set (refresh_tokens db)"
      "rt_token_hash t = hash_token C raw" "active t" "d_now d1 < rt_expires_at t" "d_now d2 < rt_expires_at t"
    and "usable_draws C db d1" and "usable_draws C db d2" and "d_jti d1 \<noteq> d_jti d2"
    and "hash_token C (d_raw_token d1) \<noteq> hash_token C (d_raw_token d2)"
  shows "\<exists>r1 db1 r2 db2 n1 n2.
    refresh_commit S J d1 (refresh_read S C d1 raw db) db = (Inr r1, db1) \<and>
    refresh_commit S J d2 (refresh_read S C d2 raw db) db1 = (Inr r2, db2) \<and>
    {n1, n2} \<subseteq> set (refresh_tokens db2) \<and> n1 \<noteq> n2 \<and> active n1 \<and> active n2 \<and>
    rt_family_id n1 = rt_family_id t \<and> rt_family_id n2 = rt_family_id t \<and>
    rt_token_hash n1 = hash_token C (ar_refresh_token r1) \<and>
    rt_token_hash n2 = hash_token C (ar_refresh_token r2) \<and>
    \<not> families_ok (refresh_tokens db2) \<and>
    fst (refresh S C J d2 raw db1) = invalid_refresh"
proof -
  obtain u where u: "u \<in> set (users db)" "u_id u = rt_user_id t" "find_by u_id (users db) (rt_user_id t) = Some u"
      "refresh_read S C d1 raw db = Rotate u [Stamp_Replaced (rt_jti t) (d_now d1) (d_jti d1),
        Add_Token (new_refresh_row S C d1 (rt_user_id t) (rt_family_id t))]"
    using refresh_read_active [OF assms(2) t(1-4)] by metis
  have read2: "refresh_read S C d2 raw db = Rotate u [Stamp_Replaced (rt_jti t) (d_now d2) (d_jti d2),
      Add_Token (new_refresh_row S C d2 (rt_user_id t) (rt_family_id t))]"
    using refresh_read_active [OF assms(2) t(1-3,5), of S] u(3) by auto
  have len: "length (rt_family_id t) \<le> 36" using tokens_ok_rows [OF assms(2) t(1)] by (simp add: token_row_ok_def)
  let ?n1 = "new_refresh_row S C d1 (rt_user_id t) (rt_family_id t)"
  let ?n2 = "new_refresh_row S C d2 (rt_user_id t) (rt_family_id t)"
  let ?f = "\<lambda>d r. r\<lparr>rt_revoked_at := Some (d_now d), rt_replaced_by_jti := Some (d_jti d)\<rparr>"
  let ?rows = "\<lambda>d. update_where (\<lambda>r. rt_jti r = rt_jti t) (?f d)"
  define db1 where "db1 = db\<lparr>refresh_tokens := ?rows d1 (refresh_tokens db) @ [?n1]\<rparr>"
  have commit1: "refresh_commit S J d1 (refresh_read S C d1 raw db) db = (Inr (new_auth_result S J d1 u), db1)"
    using late_rotation [OF assms(1,2,8) u(1) len, of S J "rt_jti t" "d_now d1"] u(2,4) by (simp add: db1_def)
  then have seq: "refresh S C J d1 raw db = (Inr (new_auth_result S J d1 u), db1)" by (simp add: refresh_phases)
  then have ok1: "db_ok db1" using refresh_db_ok [OF assms(2), of S C J d1 raw] by simp
  have fresh: "usable_draws C db1 d2"
    using assms(9-11) by (simp add: usable_draws_def db1_def image_update_where)
  define db2 where "db2 = db1\<lparr>refresh_tokens := ?rows d2 (refresh_tokens db1) @ [?n2]\<rparr>"
  have users1: "users db1 = users db" by (simp add: db1_def)
  have commit2: "refresh_commit S J d2 (refresh_read S C d2 raw db) db1 = (Inr (new_auth_result S J d2 u), db2)"
    using late_rotation [OF assms(1) ok1 fresh _ len, of u S J "rt_jti t" "d_now d2"] u(1,2) read2 users1
    by (simp add: db2_def)
  have "rt_jti ?n1 \<noteq> rt_jti t" using assms(8) t(1) by (auto simp: usable_draws_def)
  then have "?n1 \<in> set (?rows d2 (refresh_tokens db1))"
    by (auto simp: in_update_where db1_def intro!: bexI [of _ ?n1])
  then have rows: "{?n1, ?n2} \<subseteq> set (refresh_tokens db2)" by (simp add: db2_def)
  have "rt_jti ?n1 \<noteq> rt_jti ?n2" using assms(10) by simp
  then have diff: "?n1 \<noteq> ?n2" by metis
  have "\<not> families_ok (refresh_tokens db2)"
    using families_single [of "refresh_tokens db2" ?n1 ?n2] rows diff by auto
  moreover have "fst (refresh S C J d2 raw db1) = invalid_refresh"
  proof -
    have "?f d1 t \<in> set (refresh_tokens db1)"
      using t(1) by (auto simp: db1_def in_update_where intro!: bexI [of _ t])
    from refresh_revoked [OF ok1 this, of C raw] t(2) show ?thesis by simp
  qed
  ultimately show ?thesis
    using commit1 commit2 rows diff
    by (intro exI [of _ "new_auth_result S J d1 u"] exI [of _ db1] exI [of _ "new_auth_result S J d2 u"]
        exI [of _ db2] exI [of _ ?n1] exI [of _ ?n2]) (simp add: new_auth_result_def)
qed

text \<open>
  C16: a session can survive logout from all devices.  If a refresh has read its token when
  the revocation commits, it goes on to add an active token, so the user who logged out
  everywhere has a live session again, whose token is accepted until it expires; had the
  refresh come after the revocation it would have been refused.
\<close>

theorem refresh_survives_logout_all:
  assumes "crypto_library C" and "db_ok db" and t: "t \<in> set (refresh_tokens db)"
      "rt_token_hash t = hash_token C raw" "active t" "d_now d < rt_expires_at t"
    and "usable_draws C db d"
  shows "\<exists>r db2 n.
    refresh_commit S J d (refresh_read S C d raw db) (logout_all now (rt_user_id t) db) = (Inr r, db2) \<and>
    n \<in> set (refresh_tokens db2) \<and> rt_user_id n = rt_user_id t \<and> active n \<and>
    rt_token_hash n = hash_token C (ar_refresh_token r) \<and> rt_expires_at n = refresh_expires_at S (d_now d) \<and>
    fst (refresh S C J d raw (logout_all now (rt_user_id t) db)) = invalid_refresh"
proof -
  let ?db1 = "logout_all now (rt_user_id t) db"
  let ?n = "new_refresh_row S C d (rt_user_id t) (rt_family_id t)"
  obtain u where u: "u \<in> set (users db)" "u_id u = rt_user_id t"
      "refresh_read S C d raw db = Rotate u [Stamp_Replaced (rt_jti t) (d_now d) (d_jti d), Add_Token ?n]"
    using refresh_read_active [OF assms(2) t] by metis
  have len: "length (rt_family_id t) \<le> 36" using tokens_ok_rows [OF assms(2) t(1)] by (simp add: token_row_ok_def)
  have ok1: "db_ok ?db1" by (rule logout_all_db_ok [OF assms(2)])
  have "usable_draws C ?db1 d"
    using assms(7) by (simp add: usable_draws_def logout_all_def revoke_where_def image_update_where)
  from late_rotation [OF assms(1) ok1 this _ len, of u S J "rt_jti t" "d_now d"] u(1,2)
  obtain db2 where commit: "refresh_commit S J d (Rotate u [Stamp_Replaced (rt_jti t) (d_now d) (d_jti d),
      Add_Token ?n]) ?db1 = (Inr (new_auth_result S J d u), db2)" and "?n \<in> set (refresh_tokens db2)"
    by (auto simp: logout_all_def)
  moreover have "fst (refresh S C J d raw ?db1) = invalid_refresh"
  proof -
    have "t\<lparr>rt_revoked_at := Some now\<rparr> \<in> set (refresh_tokens ?db1)"
      using t(1,3) by (auto simp: logout_all_def revoke_where_def in_update_where intro!: bexI [of _ t])
    from refresh_revoked [OF ok1 this, of C raw] t(2) show ?thesis by simp
  qed
  ultimately show ?thesis using u(3)
    by (intro exI [of _ "new_auth_result S J d u"] exI [of _ db2] exI [of _ ?n]) (simp add: new_auth_result_def)
qed

subsection \<open>Concrete overlaps\<close>

text \<open>The user of the sample database logs in on a second device.\<close>

definition two_device_db :: db where
  "two_device_db = sample_auth_db\<lparr>refresh_tokens := [sample_token,
     new_refresh_row default_settings reference_crypto (sample_draws ''r2'' ''j2'' ''f2'' 60) ''u1'' ''f2'']\<rparr>"

lemma two_device_db_ok: "db_ok two_device_db"
  using sample_auth_db_ok
  by (simp add: two_device_db_def db_ok_defs sample_auth_rows token_row_ok_def user_row_ok_def)

theorem refresh_serializable_witness:
  "refresh_commit default_settings reference_jwt (sample_draws ''r3'' ''j3'' ''f3'' 70)
     (refresh_read default_settings reference_crypto (sample_draws ''r3'' ''j3'' ''f3'' 70) ''r1'' sample_auth_db)
     two_device_db =
   refresh default_settings reference_crypto reference_jwt (sample_draws ''r3'' ''j3'' ''f3'' 70) ''r1'' two_device_db"
  by (rule refresh_serializable [OF sample_auth_db_ok two_device_db_ok, of sample_token])
    (simp_all add: sample_auth_rows two_device_db_def)

lemma hash_token_r3: "hash_token reference_crypto ''r3'' = ''r3'' @ replicate 62 (CHR ''0'')"
  by (simp add: hash_token_def reference_crypto_def take_replicate)

theorem overlapping_refreshes_both_succeed_witness:
  "\<exists>r1 db1 r2 db2.
    refresh_commit default_settings reference_jwt (sample_draws ''r2'' ''j2'' ''f2'' 60)
      (refresh_read default_settings reference_crypto (sample_draws ''r2'' ''j2'' ''f2'' 60) ''r1'' sample_auth_db)
      sample_auth_db = (Inr r1, db1) \<and>
    refresh_commit default_settings reference_jwt (sample_draws ''r3'' ''j3'' ''f3'' 61)
      (refresh_read default_settings reference_crypto (sample_draws ''r3'' ''j3'' ''f3'' 61) ''r1'' sample_auth_db)
      db1 = (Inr r2, db2) \<and> \<not> families_ok (refresh_tokens db2)"
proof -
  have "usable_draws reference_crypto sample_auth_db (sample_draws ''r3'' ''j3'' ''f3'' 61)"
    by (simp add: usable_draws_def sample_auth_rows hash_token_r3)
  from overlapping_refreshes_both_succeed [OF ref_crypto.crypto_library_axioms sample_auth_db_ok, of sample_token
      "''r1''" "sample_draws ''r2'' ''j2'' ''f2'' 60" "sample_draws ''r3'' ''j3'' ''f3'' 61" default_settings
      reference_jwt] this sample_usable(2)
  show ?thesis by (simp add: sample_auth_rows hash_token_r3) blast
qed

theorem refresh_survives_logout_all_witness:
  "\<exists>r db2. refresh_commit default_settings reference_jwt (sample_draws ''r2'' ''j2'' ''f2'' 60)
      (refresh_read default_settings reference_crypto (sample_draws ''r2'' ''j2'' ''f2'' 60) ''r1'' sample_auth_db)
      (logout_all 61 ''u1'' sample_auth_db) = (Inr r, db2) \<and>
    list_ex (\<lambda>n. rt_user_id n = ''u1'' \<and> active n) (refresh_tokens db2)"
  using refresh_survives_logout_all [OF ref_crypto.crypto_library_axioms sample_auth_db_ok, of sample_token
      "''r1''" "sample_draws ''r2'' ''j2'' ''f2'' 60" default_settings reference_jwt 61] sample_usable(2)
  by (fastforce simp: sample_auth_rows list_ex_iff)

end
