(* ===== verification/Schema.thy ===== *)
theory Schema
  imports Models "HOL-Library.AList"
begin

text \<open>
  Relational schemas and the schema operations Alembic issues (\<^verbatim>\<open>op.create_table\<close>,
  \<^verbatim>\<open>op.add_column\<close>, ...), as the migrations of \<^verbatim>\<open>alembic/versions\<close> use them: every key,
  unique constraint, foreign key and index there has one column.  An operation the database
  refuses is an error, and since MySQL commits each schema statement on its own, a
  migration that fails leaves what its earlier statements did (\<open>run_ops\<close>).  Whether the
  server insists on an index for every foreign key, as InnoDB does, is the argument
  \<open>fk_index\<close>.
\<close>

datatype col_type =
    String_T nat
  | Float_T
  | Numeric_T nat nat
  | DateTime_T

record column =
  c_name :: string
  c_type :: col_type
  c_nullable :: bool
  c_default :: "string option"

record foreign_key =
  fk_name :: "string option"
  fk_column :: string
  fk_table :: string
  fk_target :: string

datatype check_expr =
    Positive string
  | Non_Negative string
  | Is_Null string
  | Either check_expr check_expr

record index =
  ix_name :: string
  ix_column :: string
  ix_unique :: bool

record table =
  tb_columns :: "column list"
  tb_primary :: string
  tb_unique :: "string list"
  tb_check :: "(string \<times> check_expr) list"
  tb_foreign :: "foreign_key list"
  tb_index :: "index list"

type_synonym schema = "(string \<times> table) list"

subsection \<open>Schema operations\<close>

datatype migration_op =
    Create_Table string "column list" string "string list" "foreign_key list"
  | Drop_Table string
  | Add_Column string column
  | Drop_Column string string
  | Alter_Column string string col_type bool
  | Create_Check string string check_expr
  | Drop_Check string string
  | Create_Foreign_Key string string string string string
  | Drop_Foreign_Key string string
  | Create_Index string string string
  | Drop_Index string string
  | Upsert_Types "parcel_type list"
  | Delete_Types "string list"

definition column_names :: "table \<Rightarrow> string list" where
  "column_names t = map c_name (tb_columns t)"

fun check_columns :: "check_expr \<Rightarrow> string list" where
  "check_columns (Positive c) = [c]"
| "check_columns (Non_Negative c) = [c]"
| "check_columns (Is_Null c) = [c]"
| "check_columns (Either a b) = check_columns a @ check_columns b"

text \<open>The columns an index-like structure serves: the key, unique constraints, indexes.\<close>

definition indexed_columns :: "table \<Rightarrow> string list" where
  "indexed_columns t = tb_primary t # tb_unique t @ map ix_column (tb_index t)"

definition has_column :: "schema \<Rightarrow> string \<Rightarrow> string \<Rightarrow> bool" where
  "has_column sch n c \<longleftrightarrow>
     (case map_of sch n of None \<Rightarrow> False | Some t \<Rightarrow> c \<in> set (column_names t))"

text \<open>Some other table has a foreign key into the table (into that column of it).\<close>

definition referenced :: "schema \<Rightarrow> string \<Rightarrow> bool" where
  "referenced sch n \<longleftrightarrow>
     list_ex (\<lambda>(m, t). m \<noteq> n \<and> list_ex (\<lambda>k. fk_table k = n) (tb_foreign t)) sch"

definition column_referenced :: "schema \<Rightarrow> string \<Rightarrow> string \<Rightarrow> bool" where
  "column_referenced sch n c \<longleftrightarrow>
     list_ex (\<lambda>(m, t). list_ex (\<lambda>k. fk_table k = n \<and> fk_target k = c) (tb_foreign t)) sch"

definition refuse :: "string \<Rightarrow> 'a result" where
  "refuse m = Inl (DatabaseError m)"

definition on_table :: "schema \<Rightarrow> string \<Rightarrow> (table \<Rightarrow> table result) \<Rightarrow> schema result" where
  "on_table sch n f =
     (case map_of sch n of
        None \<Rightarrow> refuse ''Table does not exist''
      | Some t \<Rightarrow> bind_result (f t) (\<lambda>t'. Inr (AList.update n t' sch)))"

definition check_names :: "schema \<Rightarrow> string list" where
  "check_names sch = concat (map (\<lambda>(n, t). map fst (tb_check t)) sch)"

fun apply_ddl :: "bool \<Rightarrow> migration_op \<Rightarrow> schema \<Rightarrow> schema result" where
  "apply_ddl fk_index (Create_Table n cols pk uniques fks) sch =
     (if map_of sch n \<noteq> None then refuse ''Table already exists''
      else if \<not> list_all (\<lambda>k. has_column sch (fk_table k) (fk_target k)) fks then
        refuse ''Failed to open the referenced table''
      else Inr (sch @ [(n, \<lparr>tb_columns = cols, tb_primary = pk, tb_unique = uniques, tb_check = [],
             tb_foreign = fks, tb_index = []\<rparr>)]))"
| "apply_ddl fk_index (Drop_Table n) sch =
     (if map_of sch n = None then refuse ''Unknown table''
      else if referenced sch n then refuse ''Cannot drop table referenced by a foreign key constraint''
      else Inr (AList.delete n sch))"
| "apply_ddl fk_index (Add_Column n c) sch = on_table sch n (\<lambda>t.
     if c_name c \<in> set (column_names t) then refuse ''Duplicate column name''
     else Inr (t\<lparr>tb_columns := tb_columns t @ [c]\<rparr>))"
| "apply_ddl fk_index (Drop_Column n c) sch = on_table sch n (\<lambda>t.
     if c \<notin> set (column_names t) then refuse ''Can't DROP; check that column/key exists''
     else if list_ex (\<lambda>k. fk_column k = c) (tb_foreign t) \<or> column_referenced sch n c then
       refuse ''Cannot drop column: needed in a foreign key constraint''
     else if list_ex (\<lambda>(m, e). c \<in> set (check_columns e)) (tb_check t) then
       refuse ''Check constraint uses column''
     else Inr (t\<lparr>tb_columns := filter (\<lambda>d. c_name d \<noteq> c) (tb_columns t),
            tb_unique := filter (\<lambda>d. d \<noteq> c) (tb_unique t),
            tb_index := filter (\<lambda>i. ix_column i \<noteq> c) (tb_index t)\<rparr>))"
| "apply_ddl fk_index (Alter_Column n c ty nullable) sch = on_table sch n (\<lambda>t.
     if c \<notin> set (column_names t) then refuse ''Unknown column''
     else Inr (t\<lparr>tb_columns := map (\<lambda>d. if c_name d = c
            then \<lparr>c_name = c, c_type = ty, c_nullable = nullable, c_default = None\<rparr> else d) (tb_columns t)\<rparr>))"
| "apply_ddl fk_index (Create_Check m n e) sch = on_table sch n (\<lambda>t.
     if m \<in> set (check_names sch) then refuse ''Duplicate check constraint name''
     else if \<not> set (check_columns e) \<subseteq> set (column_names t) then refuse ''Unknown column''
     else Inr (t\<lparr>tb_check := tb_check t @ [(m, e)]\<rparr>))"
| "apply_ddl fk_index (Drop_Check m n) sch = on_table sch n (\<lambda>t.
     if m \<notin> set (map fst (tb_check t)) then refuse ''Check constraint is not found in the table''
     else Inr (t\<lparr>tb_check := filter (\<lambda>p. fst p \<noteq> m) (tb_check t)\<rparr>))"
| "apply_ddl fk_index (Create_Foreign_Key m n target c d) sch = on_table sch n (\<lambda>t.
     if c \<notin> set (column_names t) \<or> \<not> has_column sch target d then
       refuse ''Failed to add the foreign key constraint''
     else Inr (t\<lparr>tb_foreign := tb_foreign t @
            [\<lparr>fk_name = Some m, fk_column = c, fk_table = target, fk_target = d\<rparr>]\<rparr>))"
| "apply_ddl fk_index (Drop_Foreign_Key m n) sch = on_table sch n (\<lambda>t.
     if \<not> list_ex (\<lambda>k. fk_name k = Some m) (tb_foreign t) then
       refuse ''Can't DROP; check that column/key exists''
     else Inr (t\<lparr>tb_foreign := filter (\<lambda>k. fk_name k \<noteq> Some m) (tb_foreign t)\<rparr>))"
| "apply_ddl fk_index (Create_Index m n c) sch = on_table sch n (\<lambda>t.
     if list_ex (\<lambda>i. ix_name i = m) (tb_index t) then refuse ''Duplicate key name''
     else if c \<notin> set (column_names t) then refuse ''Key column does not exist in table''
     else Inr (t\<lparr>tb_index := tb_index t @ [\<lparr>ix_name = m, ix_column = c, ix_unique = False\<rparr>]\<rparr>))"
| "apply_ddl fk_index (Drop_Index m n) sch = on_table sch n (\<lambda>t.
     let t' = t\<lparr>tb_index := filter (\<lambda>i. ix_name i \<noteq> m) (tb_index t)\<rparr> in
     if \<not> list_ex (\<lambda>i. ix_name i = m) (tb_index t) then
       refuse ''Can't DROP; check that column/key exists''
     else if fk_index \<and> list_ex (\<lambda>k. fk_column k \<in> set (indexed_columns t) \<and>
                fk_column k \<notin> set (indexed_columns t')) (tb_foreign t) then
       refuse ''Cannot drop index: needed in a foreign key constraint''
     else Inr t')"
| "apply_ddl fk_index (Upsert_Types tys) sch = Inr sch"
| "apply_ddl fk_index (Delete_Types names) sch = Inr sch"

subsection \<open>Row operations\<close>

text \<open>
  \<^verbatim>\<open>INSERT ... ON DUPLICATE KEY UPDATE name = inserted.name\<close>, one row after the other: a row
  whose \<^verbatim>\<open>id\<close> or \<^verbatim>\<open>name\<close> is taken sets the name of the row it collides with.
\<close>

fun upsert_types :: "parcel_type list \<Rightarrow> parcel_type list \<Rightarrow> parcel_type list" where
  "upsert_types [] rows = rows"
| "upsert_types (t # ts) rows = upsert_types ts
     (if pt_id t \<in> set (map pt_id rows) then
        update_where (\<lambda>r. pt_id r = pt_id t) (pt_name_update (\<lambda>_. pt_name t)) rows
      else if pt_name t \<in> set (map pt_name rows) then rows
      else rows @ [t])"

definition delete_types :: "string list \<Rightarrow> db \<Rightarrow> db result" where
  "delete_types names db =
     (if list_ex (\<lambda>t. pt_name t \<in> set names \<and>
            list_ex (\<lambda>p. p_parcel_type_id p = pt_id t) (parcels db)) (parcel_types db)
      then refuse ''Cannot delete a parent row: a foreign key constraint fails''
      else Inr (db\<lparr>parcel_types := filter (\<lambda>t. pt_name t \<notin> set names) (parcel_types db)\<rparr>))"

definition drop_rows :: "string \<Rightarrow> db \<Rightarrow> db" where
  "drop_rows n db =
     (if n = ''parcel_type'' then db\<lparr>parcel_types := []\<rparr>
      else if n = ''parcel'' then db\<lparr>parcels := []\<rparr>
      else if n = ''user'' then db\<lparr>users := []\<rparr>
      else if n = ''refresh_token'' then db\<lparr>refresh_tokens := []\<rparr> else db)"

fun apply_rows :: "migration_op \<Rightarrow> db \<Rightarrow> db result" where
  "apply_rows (Upsert_Types tys) db = Inr (db\<lparr>parcel_types := upsert_types tys (parcel_types db)\<rparr>)"
| "apply_rows (Delete_Types names) db = delete_types names db"
| "apply_rows (Drop_Table n) db = Inr (drop_rows n db)"
| "apply_rows _ db = Inr db"

fun run_ops :: "bool \<Rightarrow> migration_op list \<Rightarrow> schema \<Rightarrow> db \<Rightarrow> unit result \<times> schema \<times> db" where
  "run_ops fk_index [] sch db = (Inr (), sch, db)"
| "run_ops fk_index (op # ops) sch db =
     (case apply_ddl fk_index op sch of
        Inl e \<Rightarrow> (Inl e, sch, db)
      | Inr sch' \<Rightarrow>
          (case apply_rows op db of
             Inl e \<Rightarrow> (Inl e, sch, db)
           | Inr db' \<Rightarrow> run_ops fk_index ops sch' db'))"

lemma run_ops_append:
  "run_ops fk_index (xs @ ys) sch db =
     (case run_ops fk_index xs sch db of
        (Inl e, sch', db') \<Rightarrow> (Inl e, sch', db')
      | (Inr u, sch', db') \<Rightarrow> run_ops fk_index ys sch' db')"
  by (induction xs arbitrary: sch db) (auto split: sum.split)

end
