(* ===== verification/Migrations.thy ===== *)
theory Migrations
  imports Schema
begin

text \<open>
  The six revisions of \<^verbatim>\<open>alembic/versions\<close> as lists of schema operations, in the order of
  their \<^verbatim>\<open>down_revision\<close> chain, and the tables the ORM models declare
  (\<^verbatim>\<open>Base.metadata\<close>, the migrations' \<^verbatim>\<open>target_metadata\<close>).  The theorems compare the two,
  say what the migrated schema enforces (exactly \<open>db_ok\<close>), and which downgrades work.
\<close>

abbreviation col :: "string \<Rightarrow> col_type \<Rightarrow> bool \<Rightarrow> column" where
  "col n ty nullable \<equiv> \<lparr>c_name = n, c_type = ty, c_nullable = nullable, c_default = None\<rparr>"

abbreviation references :: "string \<Rightarrow> string \<Rightarrow> foreign_key" where
  "references c target \<equiv> \<lparr>fk_name = None, fk_column = c, fk_table = target, fk_target = ''id''\<rparr>"

subsection \<open>Revisions\<close>

definition upgrade_init :: "migration_op list" where
  "upgrade_init = [
     Create_Table ''parcel_type''
       [col ''id'' (String_T 36) False, col ''name'' (String_T 50) False] ''id'' [''id'', ''name''] [],
     Create_Table ''parcel''
       [col ''id'' (String_T 36) False, col ''name'' (String_T 255) False, col ''weight_kg'' Float_T False,
        col ''declared_value_usd'' Float_T False, col ''session_id'' (String_T 255) False,
        col ''delivery_cost_rub'' Float_T True, col ''parcel_type_id'' (String_T 36) False]
       ''id'' [] [references ''parcel_type_id'' ''parcel_type'']]"

definition downgrade_init :: "migration_op list" where
  "downgrade_init = [Drop_Table ''parcel'', Drop_Table ''parcel_type'']"

definition default_type_names :: "string list" where
  "default_type_names = [''clothes'', ''electronics'', ''misc'']"

text \<open>\<open>ids\<close> are the three \<^verbatim>\<open>uuid4()\<close> the seed draws.\<close>

definition upgrade_seed :: "ident list \<Rightarrow> migration_op list" where
  "upgrade_seed ids =
     [Upsert_Types (map2 (\<lambda>i n. \<lparr>pt_id = i, pt_name = n\<rparr>) ids default_type_names)]"

definition downgrade_seed :: "migration_op list" where
  "downgrade_seed = [Delete_Types [''clothes'', ''electronics'', ''misc'']]"

definition upgrade_decimal :: "migration_op list" where
  "upgrade_decimal = [
     Alter_Column ''parcel'' ''weight_kg'' (Numeric_T 10 3) False,
     Alter_Column ''parcel'' ''declared_value_usd'' (Numeric_T 12 2) False,
     Alter_Column ''parcel'' ''delivery_cost_rub'' (Numeric_T 12 2) True]"

definition downgrade_decimal :: "migration_op list" where
  "downgrade_decimal = [
     Alter_Column ''parcel'' ''weight_kg'' Float_T False,
     Alter_Column ''parcel'' ''declared_value_usd'' Float_T False,
     Alter_Column ''parcel'' ''delivery_cost_rub'' Float_T True]"

definition upgrade_checks :: "migration_op list" where
  "upgrade_checks = [
     Create_Check ''ck_parcel_weight_positive'' ''parcel'' (Positive ''weight_kg''),
     Create_Check ''ck_parcel_value_non_negative'' ''parcel'' (Non_Negative ''declared_value_usd''),
     Create_Check ''ck_parcel_cost_non_negative'' ''parcel''
       (Either (Non_Negative ''delivery_cost_rub'') (Is_Null ''delivery_cost_rub''))]"

definition downgrade_checks :: "migration_op list" where
  "downgrade_checks = [
     Drop_Check ''ck_parcel_weight_positive'' ''parcel'',
     Drop_Check ''ck_parcel_value_non_negative'' ''parcel'',
     Drop_Check ''ck_parcel_cost_non_negative'' ''parcel'']"

definition upgrade_users :: "migration_op list" where
  "upgrade_users = [
     Create_Table ''user''
       [col ''id'' (String_T 36) False, col ''email'' (String_T 255) False,
        col ''hashed_password'' (String_T 255) False, col ''created_at'' DateTime_T False]
       ''id'' [''email''] [],
     Create_Index ''ix_user_email'' ''user'' ''email'',
     Add_Column ''parcel'' (col ''user_id'' (String_T 36) True),
     Create_Foreign_Key ''fk_parcel_user_id'' ''parcel'' ''user'' ''user_id'' ''id'']"

definition downgrade_users :: "migration_op list" where
  "downgrade_users = [
     Drop_Foreign_Key ''fk_parcel_user_id'' ''parcel'',
     Drop_Column ''parcel'' ''user_id'',
     Drop_Index ''ix_user_email'' ''user'',
     Drop_Table ''user'']"

definition upgrade_tokens :: "migration_op list" where
  "upgrade_tokens = [
     Add_Column ''user'' \<lparr>c_name = ''role'', c_type = String_T 50, c_nullable = False, c_default = Some ''user''\<rparr>,
     Create_Table ''refresh_token''
       [col ''jti'' (String_T 36) False, col ''user_id'' (String_T 36) False,
        col ''token_hash'' (String_T 64) False, col ''family_id'' (String_T 36) False,
        col ''expires_at'' DateTime_T False, col ''revoked_at'' DateTime_T True,
        col ''replaced_by_jti'' (String_T 36) True, col ''created_at'' DateTime_T False]
       ''jti'' [''token_hash''] [references ''user_id'' ''user''],
     Create_Index ''ix_refresh_token_user_id'' ''refresh_token'' ''user_id'',
     Create_Index ''ix_refresh_token_family_id'' ''refresh_token'' ''family_id'',
     Create_Index ''ix_refresh_token_expires_at'' ''refresh_token'' ''expires_at'']"

definition downgrade_tokens :: "migration_op list" where
  "downgrade_tokens = [
     Drop_Index ''ix_refresh_token_expires_at'' ''refresh_token'',
     Drop_Index ''ix_refresh_token_family_id'' ''refresh_token'',
     Drop_Index ''ix_refresh_token_user_id'' ''refresh_token'',
     Drop_Table ''refresh_token'',
     Drop_Column ''user'' ''role'']"

text \<open>\<^verbatim>\<open>alembic upgrade head\<close> on an empty server.\<close>

definition upgrade_head :: "ident list \<Rightarrow> migration_op list" where
  "upgrade_head ids =
     upgrade_init @ upgrade_seed ids @ upgrade_decimal @ upgrade_checks @ upgrade_users @ upgrade_tokens"

subsection \<open>The tables the models declare\<close>

definition parcel_type_table :: table where
  "parcel_type_table = \<lparr>
     tb_columns = [col ''id'' (String_T 36) False, col ''name'' (String_T 50) False],
     tb_primary = ''id'', tb_unique = [''id'', ''name''], tb_check = [], tb_foreign = [], tb_index = []\<rparr>"

definition parcel_table :: table where
  "parcel_table = \<lparr>
     tb_columns = [col ''id'' (String_T 36) False, col ''name'' (String_T 255) False,
       col ''weight_kg'' (Numeric_T 10 3) False, col ''declared_value_usd'' (Numeric_T 12 2) False,
       col ''session_id'' (String_T 255) False, col ''delivery_cost_rub'' (Numeric_T 12 2) True,
       col ''parcel_type_id'' (String_T 36) False, col ''user_id'' (String_T 36) True],
     tb_primary = ''id'', tb_unique = [],
     tb_check = [(''ck_parcel_weight_positive'', Positive ''weight_kg''),
       (''ck_parcel_value_non_negative'', Non_Negative ''declared_value_usd''),
       (''ck_parcel_cost_non_negative'',
          Either (Non_Negative ''delivery_cost_rub'') (Is_Null ''delivery_cost_rub''))],
     tb_foreign = [references ''parcel_type_id'' ''parcel_type'', references ''user_id'' ''user''],
     tb_index = []\<rparr>"

definition user_table :: table where
  "user_table = \<lparr>
     tb_columns = [col ''id'' (String_T 36) False, col ''email'' (String_T 255) False,
       col ''hashed_password'' (String_T 255) False, col ''role'' (String_T 50) False,
       col ''created_at'' DateTime_T False],
     tb_primary = ''id'', tb_unique = [], tb_check = [], tb_foreign = [],
     tb_index = [\<lparr>ix_name = ''ix_user_email'', ix_column = ''email'', ix_unique = True\<rparr>]\<rparr>"

definition refresh_token_table :: table where
  "refresh_token_table = \<lparr>
     tb_columns = [col ''jti'' (String_T 36) False, col ''user_id'' (String_T 36) False,
       col ''token_hash'' (String_T 64) False, col ''family_id'' (String_T 36) False,
       col ''expires_at'' DateTime_T False, col ''revoked_at'' DateTime_T True,
       col ''replaced_by_jti'' (String_T 36) True, col ''created_at'' DateTime_T False],
     tb_primary = ''jti'', tb_unique = [''token_hash''], tb_check = [],
     tb_foreign = [references ''user_id'' ''user''],
     tb_index = [\<lparr>ix_name = ''ix_refresh_token_user_id'', ix_column = ''user_id'', ix_unique = False\<rparr>,
       \<lparr>ix_name = ''ix_refresh_token_family_id'', ix_column = ''family_id'', ix_unique = False\<rparr>,
       \<lparr>ix_name = ''ix_refresh_token_expires_at'', ix_column = ''expires_at'', ix_unique = False\<rparr>]\<rparr>"

definition orm_metadata :: schema where
  "orm_metadata = [(''parcel_type'', parcel_type_table), (''parcel'', parcel_table), (''user'', user_table),
     (''refresh_token'', refresh_token_table)]"

subsection \<open>The migrated schema\<close>

definition migrated_parcel_table :: table where
  "migrated_parcel_table = parcel_table\<lparr>tb_foreign := [references ''parcel_type_id'' ''parcel_type'',
     (references ''user_id'' ''user'')\<lparr>fk_name := Some ''fk_parcel_user_id''\<rparr>]\<rparr>"

definition migrated_user_table :: table where
  "migrated_user_table = \<lparr>
     tb_columns = [col ''id'' (String_T 36) False, col ''email'' (String_T 255) False,
       col ''hashed_password'' (String_T 255) False, col ''created_at'' DateTime_T False,
       \<lparr>c_name = ''role'', c_type = String_T 50, c_nullable = False, c_default = Some ''user''\<rparr>],
     tb_primary = ''id'', tb_unique = [''email''], tb_check = [], tb_foreign = [],
     tb_index = [\<lparr>ix_name = ''ix_user_email'', ix_column = ''email'', ix_unique = False\<rparr>]\<rparr>"

definition migrated_schema :: schema where
  "migrated_schema = [(''parcel_type'', parcel_type_table), (''parcel'', migrated_parcel_table),
     (''user'', migrated_user_table), (''refresh_token'', refresh_token_table)]"

lemmas table_defs = parcel_type_table_def parcel_table_def user_table_def refresh_token_table_def
  migrated_parcel_table_def migrated_user_table_def

lemmas ddl_simps = on_table_def refuse_def has_column_def column_names_def check_names_def referenced_def
  column_referenced_def indexed_columns_def

text \<open>The tables between revisions.\<close>

definition float_parcel_table :: table where
  "float_parcel_table = \<lparr>
     tb_columns = [col ''id'' (String_T 36) False, col ''name'' (String_T 255) False, col ''weight_kg'' Float_T False,
        col ''declared_value_usd'' Float_T False, col ''session_id'' (String_T 255) False,
        col ''delivery_cost_rub'' Float_T True, col ''parcel_type_id'' (String_T 36) False],
     tb_primary = ''id'', tb_unique = [], tb_check = [],
     tb_foreign = [references ''parcel_type_id'' ''parcel_type''], tb_index = []\<rparr>"

definition decimal_parcel_table :: table where
  "decimal_parcel_table = float_parcel_table\<lparr>
     tb_columns := [col ''id'' (String_T 36) False, col ''name'' (String_T 255) False,
       col ''weight_kg'' (Numeric_T 10 3) False, col ''declared_value_usd'' (Numeric_T 12 2) False,
       col ''session_id'' (String_T 255) False, col ''delivery_cost_rub'' (Numeric_T 12 2) True,
       col ''parcel_type_id'' (String_T 36) False]\<rparr>"

definition checked_parcel_table :: table where
  "checked_parcel_table = decimal_parcel_table\<lparr>tb_check := tb_check parcel_table\<rparr>"

definition first_user_table :: table where
  "first_user_table = migrated_user_table\<lparr>
     tb_columns := [col ''id'' (String_T 36) False, col ''email'' (String_T 255) False,
       col ''hashed_password'' (String_T 255) False, col ''created_at'' DateTime_T False]\<rparr>"

lemmas step_table_defs = float_parcel_table_def decimal_parcel_table_def checked_parcel_table_def
  first_user_table_def

definition schema_after :: "nat \<Rightarrow> schema" where
  "schema_after n =
     [[],
      [(''parcel_type'', parcel_type_table), (''parcel'', float_parcel_table)],
      [(''parcel_type'', parcel_type_table), (''parcel'', float_parcel_table)],
      [(''parcel_type'', parcel_type_table), (''parcel'', decimal_parcel_table)],
      [(''parcel_type'', parcel_type_table), (''parcel'', checked_parcel_table)],
      [(''parcel_type'', parcel_type_table), (''parcel'', migrated_parcel_table), (''user'', first_user_table)],
      migrated_schema] ! n"

definition revisions :: "ident list \<Rightarrow> (migration_op list \<times> migration_op list) list" where
  "revisions ids = [(upgrade_init, downgrade_init), (upgrade_seed ids, downgrade_seed),
     (upgrade_decimal, downgrade_decimal), (upgrade_checks, downgrade_checks),
     (upgrade_users, downgrade_users), (upgrade_tokens, downgrade_tokens)]"

definition seeds :: "ident list \<Rightarrow> parcel_type list" where
  "seeds ids = map2 (\<lambda>i n. \<lparr>pt_id = i, pt_name = n\<rparr>) ids default_type_names"

lemma run_upgrades:
  "run_ops b upgrade_init (schema_after 0) db = (Inr (), schema_after 1, db)"
  "run_ops b (upgrade_seed ids) (schema_after 1) db =
     (Inr (), schema_after 2, db\<lparr>parcel_types := upsert_types (seeds ids) (parcel_types db)\<rparr>)"
  "run_ops b upgrade_decimal (schema_after 2) db = (Inr (), schema_after 3, db)"
  "run_ops b upgrade_checks (schema_after 3) db = (Inr (), schema_after 4, db)"
  "run_ops b upgrade_users (schema_after 4) db = (Inr (), schema_after 5, db)"
  "run_ops b upgrade_tokens (schema_after 5) db = (Inr (), schema_after 6, db)"
  by (simp_all add: upgrade_init_def upgrade_seed_def upgrade_decimal_def upgrade_checks_def upgrade_users_def
      upgrade_tokens_def schema_after_def migrated_schema_def ddl_simps table_defs step_table_defs seeds_def)

lemma run_upgrade_head:
  "run_ops b (upgrade_head ids) [] db =
     (Inr (), migrated_schema, db\<lparr>parcel_types := upsert_types (seeds ids) (parcel_types db)\<rparr>)"
proof -
  have "schema_after 0 = []" "schema_after 6 = migrated_schema" by (simp_all add: schema_after_def)
  then show ?thesis using run_upgrades [of b] by (simp add: upgrade_head_def run_ops_append)
qed

definition types_in_use :: "string list \<Rightarrow> db \<Rightarrow> bool" where
  "types_in_use names db \<longleftrightarrow>
     (\<exists>t \<in> set (parcel_types db). pt_name t \<in> set names \<and> (\<exists>p \<in> set (parcels db). p_parcel_type_id p = pt_id t))"

lemma delete_types_cases:
  "delete_types names db =
     (if types_in_use names db then refuse ''Cannot delete a parent row: a foreign key constraint fails''
      else Inr (db\<lparr>parcel_types := filter (\<lambda>t. pt_name t \<notin> set names) (parcel_types db)\<rparr>))"
  by (auto simp: delete_types_def types_in_use_def list_ex_iff)

lemma run_downgrades:
  "run_ops b downgrade_init (schema_after 1) db = (Inr (), schema_after 0, db\<lparr>parcels := [], parcel_types := []\<rparr>)"
  "run_ops b downgrade_seed (schema_after 2) db =
     (if types_in_use default_type_names db
      then (refuse ''Cannot delete a parent row: a foreign key constraint fails'', schema_after 2, db)
      else (Inr (), schema_after 1,
        db\<lparr>parcel_types := filter (\<lambda>t. pt_name t \<notin> set default_type_names) (parcel_types db)\<rparr>))"
  "run_ops b downgrade_decimal (schema_after 3) db = (Inr (), schema_after 2, db)"
  "run_ops b downgrade_checks (schema_after 4) db = (Inr (), schema_after 3, db)"
  "run_ops b downgrade_users (schema_after 5) db = (Inr (), schema_after 4, db\<lparr>users := []\<rparr>)"
  by (simp_all add: downgrade_init_def downgrade_seed_def downgrade_decimal_def downgrade_checks_def
      downgrade_users_def delete_types_cases default_type_names_def schema_after_def ddl_simps table_defs
      step_table_defs drop_rows_def Let_def)

subsection \<open>The migrations build what the models declare\<close>

text \<open>
  Two table declarations that a program cannot tell apart by the rows they admit: the same
  columns with the same types, the same key, uniqueness, checks and foreign keys, and the
  same columns indexed.  Column order, constraint names and server defaults are left out.
\<close>

definition column_shape :: "column \<Rightarrow> string \<times> col_type \<times> bool" where
  "column_shape c = (c_name c, c_type c, c_nullable c)"

definition foreign_shape :: "foreign_key \<Rightarrow> string \<times> string \<times> string" where
  "foreign_shape k = (fk_column k, fk_table k, fk_target k)"

definition unique_columns :: "table \<Rightarrow> string list" where
  "unique_columns t = tb_unique t @ map ix_column (filter ix_unique (tb_index t))"

definition same_shape :: "table \<Rightarrow> table \<Rightarrow> bool" where
  "same_shape t u \<longleftrightarrow>
     set (map column_shape (tb_columns t)) = set (map column_shape (tb_columns u)) \<and>
     distinct (map c_name (tb_columns t)) = distinct (map c_name (tb_columns u)) \<and>
     tb_primary t = tb_primary u \<and> set (unique_columns t) = set (unique_columns u) \<and>
     set (tb_check t) = set (tb_check u) \<and>
     set (map foreign_shape (tb_foreign t)) = set (map foreign_shape (tb_foreign u)) \<and>
     set (indexed_columns t) = set (indexed_columns u)"

definition seed_ids_ok :: "ident list \<Rightarrow> bool" where
  "seed_ids_ok ids \<longleftrightarrow> length ids = 3 \<and> distinct ids \<and> list_all (\<lambda>i. length i \<le> 36) ids"

lemma seeds_upserted:
  assumes "seed_ids_ok ids"
  shows "upsert_types (seeds ids) [] = seeds ids" and "map pt_name (seeds ids) = default_type_names"
    and "types_ok (seeds ids)"
proof -
  from assms obtain i j k where ids: "ids = [i, j, k]" "i \<noteq> j" "i \<noteq> k" "j \<noteq> k" "length i \<le> 36" "length j \<le> 36" "length k \<le> 36"
    unfolding seed_ids_ok_def by (cases ids; cases "tl ids"; cases "tl (tl ids)") auto
  show "upsert_types (seeds ids) [] = seeds ids" "map pt_name (seeds ids) = default_type_names" "types_ok (seeds ids)"
    using ids by (simp_all add: seeds_def default_type_names_def types_ok_def type_row_ok_def)
qed

lemma migrated_shapes: "list_all2 same_shape (map snd migrated_schema) (map snd orm_metadata)"
  by (auto simp: migrated_schema_def orm_metadata_def same_shape_def column_shape_def foreign_shape_def
      unique_columns_def indexed_columns_def table_defs)

lemma seeded_db_ok:
  assumes "seed_ids_ok ids"
  shows "db_ok \<lparr>parcel_types = upsert_types (seeds ids) [], parcels = [], users = [], refresh_tokens = []\<rparr>"
  using seeds_upserted [OF assms] by (simp add: db_ok_defs)

text \<open>
  C30: \<^verbatim>\<open>alembic upgrade head\<close> on an empty server succeeds and builds the tables the ORM
  models declare, each of the same shape, with the three parcel types of the seed as the
  only rows, a database that meets every constraint.  The declarations themselves differ in
  two tables: \<^verbatim>\<open>parcel\<close> (a foreign key has a name) and \<^verbatim>\<open>user\<close> (the model's unique index on
  \<^verbatim>\<open>email\<close> is a unique constraint and a plain index, and \<^verbatim>\<open>role\<close> has a server default).
\<close>

theorem migrations_build_models:
  assumes "seed_ids_ok ids"
  shows "\<exists>sch (db :: db). run_ops fk_index (upgrade_head ids) []
      \<lparr>parcel_types = [], parcels = [], users = [], refresh_tokens = []\<rparr> = (Inr (), sch, db) \<and>
    map fst sch = map fst orm_metadata \<and>
    list_all2 same_shape (map snd sch) (map snd orm_metadata) \<and>
    map fst (filter (\<lambda>(n, t). map_of orm_metadata n \<noteq> Some t) sch) = [''parcel'', ''user''] \<and>
    map pt_name (parcel_types db) = [''clothes'', ''electronics'', ''misc''] \<and> db_ok db"
proof -
  have "map fst (filter (\<lambda>(n, t). map_of orm_metadata n \<noteq> Some t) migrated_schema) = [''parcel'', ''user'']"
    by (simp add: migrated_schema_def orm_metadata_def table_defs)
  then show ?thesis
    using run_upgrade_head migrated_shapes seeded_db_ok [OF assms] seeds_upserted [OF assms]
    by (simp add: migrated_schema_def orm_metadata_def default_type_names_def)
qed

theorem migrations_build_models_witness:
  "\<exists>sch (db :: db). run_ops True (upgrade_head [''a'', ''b'', ''c'']) []
      \<lparr>parcel_types = [], parcels = [], users = [], refresh_tokens = []\<rparr> = (Inr (), sch, db) \<and>
    map pt_name (parcel_types db) = [''clothes'', ''electronics'', ''misc'']"
  using migrations_build_models [of "[''a'', ''b'', ''c'']" True] by (auto simp: seed_ids_ok_def)

text \<open>The seed is idempotent: run again, with other identifiers, it changes nothing.\<close>

lemma seed_idempotent:
  assumes "map pt_name rows = default_type_names @ names" and "set ids \<inter> pt_id ` set rows = {}"
    and "length ids = 3"
  shows "upsert_types (seeds ids) rows = rows"
proof -
  from assms(3) obtain i j k where ids: "ids = [i, j, k]" by (auto simp: length_Suc_conv numeral_3_eq_3)
  have "set default_type_names \<subseteq> pt_name ` set rows"
    using arg_cong [OF assms(1), of set] by auto
  moreover from assms(2) ids have "i \<notin> pt_id ` set rows" "j \<notin> pt_id ` set rows" "k \<notin> pt_id ` set rows" by auto
  ultimately show ?thesis by (simp add: ids seeds_def default_type_names_def)
qed

subsection \<open>Downgrades\<close>



text \<open>
  The last downgrade does not work on the server the project uses.  Where every foreign
  key needs an index, dropping \<^verbatim>\<open>ix_refresh_token_user_id\<close> before its table is refused; the
  two indexes dropped before it stay dropped, so a second attempt fails at its first
  statement.  (Without the rule the downgrade restores the schema of revision
  \<^verbatim>\<open>c3d4e5f6a7b8\<close>.)
\<close>

theorem last_downgrade_stops:
  "run_ops False downgrade_tokens (schema_after 6) db =
     (Inr (), schema_after 5, db\<lparr>refresh_tokens := []\<rparr>) \<and>
   (\<exists>sch. run_ops True downgrade_tokens (schema_after 6) db =
       (refuse ''Cannot drop index: needed in a foreign key constraint'', sch, db) \<and>
     sch \<noteq> schema_after 6 \<and> sch \<noteq> schema_after 5 \<and>
     run_ops True downgrade_tokens sch db = (refuse ''Can't DROP; check that column/key exists'', sch, db))"
  by (simp add: downgrade_tokens_def schema_after_def migrated_schema_def ddl_simps table_defs
      step_table_defs drop_rows_def Let_def)

end
