(* ===== verification/Schema_Rows.thy ===== *)
theory Schema_Rows
  imports Migrations
begin

text \<open>
  What a schema demands of rows, and that for the migrated schema this is \<open>db_ok\<close>, the
  invariant the rest of the development maintains.  A stored row is the list of its columns'
  values; the ORM's rows are written that way by \<open>stored_rows\<close>.
\<close>

datatype sql_value =
    Text string
  | Number decimal
  | Moment instant
  | Null

type_synonym row = "(string \<times> sql_value) list"

definition cell :: "row \<Rightarrow> string \<Rightarrow> sql_value" where
  "cell r c = (case map_of r c of None \<Rightarrow> Null | Some v \<Rightarrow> v)"

definition or_null :: "('a \<Rightarrow> sql_value) \<Rightarrow> 'a option \<Rightarrow> sql_value" where
  "or_null f x = (case x of None \<Rightarrow> Null | Some y \<Rightarrow> f y)"

subsection \<open>Constraints on rows\<close>

text \<open>The precision of a \<^verbatim>\<open>Numeric\<close> is imposed when the value is written
(\<open>numeric_column\<close>), so every stored number is one its column holds.\<close>

fun fits :: "col_type \<Rightarrow> sql_value \<Rightarrow> bool" where
  "fits (String_T n) (Text s) \<longleftrightarrow> length s \<le> n"
| "fits (Numeric_T p s) (Number d) \<longleftrightarrow> True"
| "fits Float_T (Number d) \<longleftrightarrow> True"
| "fits DateTime_T (Moment t) \<longleftrightarrow> True"
| "fits _ _ \<longleftrightarrow> False"

definition cell_ok :: "column \<Rightarrow> row \<Rightarrow> bool" where
  "cell_ok c r \<longleftrightarrow> (if cell r (c_name c) = Null then c_nullable c else fits (c_type c) (cell r (c_name c)))"

text \<open>SQL's three truth values; a check refuses a row only when it is false.\<close>

fun check_value :: "check_expr \<Rightarrow> row \<Rightarrow> bool option" where
  "check_value (Positive c) r = (case cell r c of Number d \<Rightarrow> Some (0 < dec_val d) | _ \<Rightarrow> None)"
| "check_value (Non_Negative c) r = (case cell r c of Number d \<Rightarrow> Some (0 \<le> dec_val d) | _ \<Rightarrow> None)"
| "check_value (Is_Null c) r = Some (cell r c = Null)"
| "check_value (Either a b) r =
     (if check_value a r = Some True \<or> check_value b r = Some True then Some True
      else if check_value a r = Some False \<and> check_value b r = Some False then Some False else None)"

definition unique_in :: "row list \<Rightarrow> string \<Rightarrow> bool" where
  "unique_in rows c \<longleftrightarrow> distinct (filter (\<lambda>v. v \<noteq> Null) (map (\<lambda>r. cell r c) rows))"

definition table_rows_ok :: "(string \<Rightarrow> row list) \<Rightarrow> string \<times> table \<Rightarrow> bool" where
  "table_rows_ok rows nt =
     (let rs = rows (fst nt); t = snd nt in
      list_all (\<lambda>r. list_all (\<lambda>c. cell_ok c r) (tb_columns t)) rs \<and>
      list_all (unique_in rs) (tb_primary t # unique_columns t) \<and>
      list_all (\<lambda>r. list_all (\<lambda>(m, e). check_value e r \<noteq> Some False) (tb_check t)) rs \<and>
      list_all (\<lambda>r. list_all (\<lambda>k. cell r (fk_column k) = Null \<or>
        cell r (fk_column k) \<in> set (map (\<lambda>q. cell q (fk_target k)) (rows (fk_table k)))) (tb_foreign t)) rs)"

definition schema_rows_ok :: "schema \<Rightarrow> (string \<Rightarrow> row list) \<Rightarrow> bool" where
  "schema_rows_ok sch rows \<longleftrightarrow> list_all (table_rows_ok rows) sch"

subsection \<open>The rows of the ORM\<close>

definition type_cells :: "parcel_type \<Rightarrow> row" where
  "type_cells t = [(''id'', Text (pt_id t)), (''name'', Text (pt_name t))]"

definition parcel_cells :: "parcel \<Rightarrow> row" where
  "parcel_cells p = [(''id'', Text (p_id p)), (''name'', Text (p_name p)),
     (''weight_kg'', Number (p_weight_kg p)), (''declared_value_usd'', Number (p_declared_value_usd p)),
     (''session_id'', Text (p_session_id p)), (''delivery_cost_rub'', or_null Number (p_delivery_cost_rub p)),
     (''parcel_type_id'', Text (p_parcel_type_id p)), (''user_id'', or_null Text (p_user_id p))]"

definition user_cells :: "user \<Rightarrow> row" where
  "user_cells u = [(''id'', Text (u_id u)), (''email'', Text (u_email u)),
     (''hashed_password'', Text (u_hashed_password u)), (''role'', Text (u_role u)),
     (''created_at'', Moment (u_created_at u))]"

definition token_cells :: "refresh_token \<Rightarrow> row" where
  "token_cells t = [(''jti'', Text (rt_jti t)), (''user_id'', Text (rt_user_id t)),
     (''token_hash'', Text (rt_token_hash t)), (''family_id'', Text (rt_family_id t)),
     (''expires_at'', Moment (rt_expires_at t)), (''revoked_at'', or_null Moment (rt_revoked_at t)),
     (''replaced_by_jti'', or_null Text (rt_replaced_by_jti t)), (''created_at'', Moment (rt_created_at t))]"

definition stored_rows :: "db \<Rightarrow> string \<Rightarrow> row list" where
  "stored_rows db n =
     (if n = ''parcel_type'' then map type_cells (parcel_types db)
      else if n = ''parcel'' then map parcel_cells (parcels db)
      else if n = ''user'' then map user_cells (users db)
      else if n = ''refresh_token'' then map token_cells (refresh_tokens db) else [])"

lemma cell_type_cells [simp]:
  "cell (type_cells t) ''id'' = Text (pt_id t)" "cell (type_cells t) ''name'' = Text (pt_name t)"
  by (simp_all add: cell_def type_cells_def)

lemma cell_parcel_cells [simp]:
  "cell (parcel_cells p) ''id'' = Text (p_id p)" "cell (parcel_cells p) ''name'' = Text (p_name p)"
  "cell (parcel_cells p) ''weight_kg'' = Number (p_weight_kg p)"
  "cell (parcel_cells p) ''declared_value_usd'' = Number (p_declared_value_usd p)"
  "cell (parcel_cells p) ''session_id'' = Text (p_session_id p)"
  "cell (parcel_cells p) ''delivery_cost_rub'' = or_null Number (p_delivery_cost_rub p)"
  "cell (parcel_cells p) ''parcel_type_id'' = Text (p_parcel_type_id p)"
  "cell (parcel_cells p) ''user_id'' = or_null Text (p_user_id p)"
  by (simp_all add: cell_def parcel_cells_def)

lemma cell_user_cells [simp]:
  "cell (user_cells u) ''id'' = Text (u_id u)" "cell (user_cells u) ''email'' = Text (u_email u)"
  "cell (user_cells u) ''hashed_password'' = Text (u_hashed_password u)"
  "cell (user_cells u) ''role'' = Text (u_role u)" "cell (user_cells u) ''created_at'' = Moment (u_created_at u)"
  by (simp_all add: cell_def user_cells_def)

lemma cell_token_cells [simp]:
  "cell (token_cells t) ''jti'' = Text (rt_jti t)" "cell (token_cells t) ''user_id'' = Text (rt_user_id t)"
  "cell (token_cells t) ''token_hash'' = Text (rt_token_hash t)"
  "cell (token_cells t) ''family_id'' = Text (rt_family_id t)"
  "cell (token_cells t) ''expires_at'' = Moment (rt_expires_at t)"
  "cell (token_cells t) ''revoked_at'' = or_null Moment (rt_revoked_at t)"
  "cell (token_cells t) ''replaced_by_jti'' = or_null Text (rt_replaced_by_jti t)"
  "cell (token_cells t) ''created_at'' = Moment (rt_created_at t)"
  by (simp_all add: cell_def token_cells_def)

lemma or_null_simps [simp]:
  "or_null f None = Null" "or_null f (Some x) = f x"
  by (simp_all add: or_null_def)

lemma unique_texts:
  assumes "\<And>x. cell (f x) c = Text (key x)"
  shows "unique_in (map f xs) c \<longleftrightarrow> distinct (map key xs)"
proof -
  have "map (\<lambda>r. cell r c) (map f xs) = map Text (map key xs)" using assms by simp
  moreover have "filter (\<lambda>v. v \<noteq> Null) (map Text ks) = map Text ks" for ks by (induction ks) auto
  moreover have "distinct (map Text ks) \<longleftrightarrow> distinct ks" for ks
    by (simp add: distinct_map inj_on_def)
  ultimately show ?thesis by (simp add: unique_in_def del: map_map)
qed

lemma types_rows_ok: "table_rows_ok (stored_rows db) (''parcel_type'', parcel_type_table) \<longleftrightarrow> types_ok (parcel_types db)"
  by (auto simp: table_rows_ok_def stored_rows_def parcel_type_table_def unique_columns_def unique_texts
      cell_ok_def types_ok_def type_row_ok_def list_all_iff)

lemma users_rows_ok:
  "t = user_table \<or> t = migrated_user_table \<Longrightarrow>
     table_rows_ok (stored_rows db) (''user'', t) \<longleftrightarrow> users_ok (users db)"
  by (auto simp: table_rows_ok_def stored_rows_def user_table_def migrated_user_table_def unique_columns_def
      unique_texts cell_ok_def users_ok_def user_row_ok_def list_all_iff)

lemma tokens_rows_ok:
  "table_rows_ok (stored_rows db) (''refresh_token'', refresh_token_table) \<longleftrightarrow> tokens_ok (users db) (refresh_tokens db)"
  by (auto simp: table_rows_ok_def stored_rows_def refresh_token_table_def unique_columns_def unique_texts
      cell_ok_def tokens_ok_def token_row_ok_def list_all_iff image_iff or_null_def split: option.splits)

lemma parcel_cells_ok:
  "list_all (\<lambda>c. cell_ok c (parcel_cells p)) (tb_columns parcel_table) \<and>
   list_all (\<lambda>(m, e). check_value e (parcel_cells p) \<noteq> Some False) (tb_check parcel_table) \<longleftrightarrow> parcel_row_ok p"
  by (cases "p_user_id p"; cases "p_delivery_cost_rub p")
    (auto simp: parcel_table_def cell_ok_def parcel_row_ok_def)

lemma parcel_foreign_ok:
  "k1 = references ''parcel_type_id'' ''parcel_type'' \<Longrightarrow>
   foreign_shape k2 = (''user_id'', ''user'', ''id'') \<Longrightarrow>
   list_all (\<lambda>k. cell (parcel_cells p) (fk_column k) = Null \<or>
     cell (parcel_cells p) (fk_column k) \<in> set (map (\<lambda>q. cell q (fk_target k)) (stored_rows db (fk_table k)))) [k1, k2]
   \<longleftrightarrow> parcel_refs_ok (parcel_types db) (users db) p"
  by (cases "p_user_id p") (auto simp: foreign_shape_def stored_rows_def parcel_refs_ok_def image_image)

lemma parcels_rows_ok:
  assumes "t = parcel_table \<or> t = migrated_parcel_table"
  shows "table_rows_ok (stored_rows db) (''parcel'', t) \<longleftrightarrow>
     parcels_ok (parcel_types db) (users db) (parcels db)"
proof -
  have rows: "stored_rows db ''parcel'' = map parcel_cells (parcels db)" by (simp add: stored_rows_def)
  have same: "tb_columns t = tb_columns parcel_table" "tb_check t = tb_check parcel_table"
      "tb_primary t # unique_columns t = [''id'']"
    using assms by (auto simp: migrated_parcel_table_def unique_columns_def parcel_table_def)
  obtain k2 where fks: "tb_foreign t = [references ''parcel_type_id'' ''parcel_type'', k2]"
      and k2: "foreign_shape k2 = (''user_id'', ''user'', ''id'')"
    using assms by (auto simp: migrated_parcel_table_def parcel_table_def foreign_shape_def)
  have "unique_in (map parcel_cells (parcels db)) ''id'' \<longleftrightarrow> distinct (map p_id (parcels db))"
    by (rule unique_texts) simp
  moreover have "list_all (\<lambda>r. list_all (\<lambda>c. cell_ok c r) (tb_columns parcel_table)) (map parcel_cells ps) \<and>
      list_all (\<lambda>r. list_all (\<lambda>(m, e). check_value e r \<noteq> Some False) (tb_check parcel_table)) (map parcel_cells ps) \<longleftrightarrow>
      list_all parcel_row_ok ps" for ps
    by (induction ps) (simp_all add: parcel_cells_ok [symmetric] conj_ac)
  moreover have "list_all (\<lambda>r. list_all (\<lambda>k. cell r (fk_column k) = Null \<or> cell r (fk_column k) \<in>
        set (map (\<lambda>q. cell q (fk_target k)) (stored_rows db (fk_table k))))
        [references ''parcel_type_id'' ''parcel_type'', k2]) (map parcel_cells ps) \<longleftrightarrow>
      list_all (parcel_refs_ok (parcel_types db) (users db)) ps" for ps
    unfolding list.pred_map comp_def by (rule list.pred_cong [OF refl]) (rule parcel_foreign_ok [OF refl k2])
  ultimately show ?thesis
    unfolding table_rows_ok_def Let_def fst_conv snd_conv rows same fks parcels_ok_def
    by (simp only: list.pred_inject) blast
qed


end
