(* ===== verification/Openapi.thy ===== *)
theory Openapi
  imports App
begin

text \<open>
  \<^verbatim>\<open>app/core/openapi.py\<close>: the security the OpenAPI document states for each path, written into
  the schema FastAPI generates (an argument, a JSON object), and whether the routes demand
  what the document says.
\<close>

subsection \<open>Dictionaries\<close>

fun set_key :: "string \<Rightarrow> json \<Rightarrow> (string \<times> json) list \<Rightarrow> (string \<times> json) list" where
  "set_key k v [] = [(k, v)]"
| "set_key k v ((a, b) # kvs) = (if a = k then (k, v) # kvs else (a, b) # set_key k v kvs)"

text \<open>A value used as a \<^verbatim>\<open>dict\<close>, and \<^verbatim>\<open>get(k, {})\<close> or \<^verbatim>\<open>setdefault(k, {})\<close> used as one.\<close>

definition as_object :: "json \<Rightarrow> (string \<times> json) list result" where
  "as_object j = (case j of JObj kvs \<Rightarrow> Inr kvs | _ \<Rightarrow> Inl (UnexpectedError ''AttributeError''))"

definition object_at :: "string \<Rightarrow> (string \<times> json) list \<Rightarrow> (string \<times> json) list result" where
  "object_at k kvs = (case map_of kvs k of None \<Rightarrow> Inr [] | Some j \<Rightarrow> as_object j)"

lemma map_of_set_key [simp]: "map_of (set_key k v kvs) k' = (if k' = k then Some v else map_of kvs k')"
  by (induction k v kvs rule: set_key.induct) auto

lemma as_object_Inr [simp]: "as_object j = Inr kvs \<longleftrightarrow> j = JObj kvs"
  by (cases j) (auto simp: as_object_def)

subsection \<open>Security by path\<close>

definition PUBLIC_PATH_PREFIXES :: "string list" where
  "PUBLIC_PATH_PREFIXES = [''/auth'', ''/health'', ''/metrics'', ''/parcel-types'']"

definition ADMIN_PATH_PREFIXES :: "string list" where
  "ADMIN_PATH_PREFIXES = [''/tasks'']"

definition JWT_PATH_PREFIXES :: "string list" where
  "JWT_PATH_PREFIXES = [''/auth/logout-all'']"

definition starts_with :: "string \<Rightarrow> string list \<Rightarrow> bool" where
  "starts_with s prefixes \<longleftrightarrow> list_ex (\<lambda>p. take (length p) s = p) prefixes"

fun is_operation :: "json \<Rightarrow> bool" where
  "is_operation (JObj kvs) \<longleftrightarrow> map_of kvs ''responses'' \<noteq> None"
| "is_operation _ \<longleftrightarrow> False"

definition auth_scheme_name :: "settings \<Rightarrow> string" where
  "auth_scheme_name S = (if AUTH_REQUIRED S then ''BearerAuth'' else ''SessionAuth'')"

definition path_security :: "settings \<Rightarrow> string \<Rightarrow> string option" where
  "path_security S path_name =
     (if starts_with path_name JWT_PATH_PREFIXES then Some ''BearerAuth''
      else if starts_with path_name ADMIN_PATH_PREFIXES then Some ''AdminToken''
      else if starts_with path_name PUBLIC_PATH_PREFIXES then None
      else Some (auth_scheme_name S))"

definition add_security_schemes :: "settings \<Rightarrow> (string \<times> json) list \<Rightarrow> (string \<times> json) list" where
  "add_security_schemes S schemes =
     (let with_bearer = set_key ''BearerAuth'' (JObj [(''type'', JStr ''http''), (''scheme'', JStr ''bearer''),
            (''bearerFormat'', JStr ''JWT'')]) schemes;
          with_session = (if AUTH_REQUIRED S then with_bearer
            else set_key ''SessionAuth'' (JObj [(''type'', JStr ''apiKey''), (''in'', JStr ''header''),
              (''name'', JStr ''X-Session-Id'')]) with_bearer)
      in set_key ''AdminToken'' (JObj [(''type'', JStr ''apiKey''), (''in'', JStr ''header''),
           (''name'', JStr ''X-Admin-Token'')]) with_session)"

definition requires :: "string \<Rightarrow> json" where
  "requires scheme = JObj [(scheme, JArr [])]"

text \<open>\<^verbatim>\<open>method.setdefault("security", []).append(security)\<close> on the operations of a path.\<close>

definition add_security :: "string \<Rightarrow> json \<Rightarrow> json result" where
  "add_security scheme meth =
     (if \<not> is_operation meth then Inr meth
      else bind_result (as_object meth) (\<lambda>kvs.
        case map_of kvs ''security'' of
          None \<Rightarrow> Inr (JObj (set_key ''security'' (JArr [requires scheme]) kvs))
        | Some (JArr old) \<Rightarrow> Inr (JObj (set_key ''security'' (JArr (old @ [requires scheme])) kvs))
        | Some _ \<Rightarrow> Inl (UnexpectedError ''AttributeError'')))"

fun patch_methods :: "string \<Rightarrow> (string \<times> json) list \<Rightarrow> (string \<times> json) list result" where
  "patch_methods scheme [] = Inr []"
| "patch_methods scheme ((m, v) # ms) =
     bind_result (add_security scheme v) (\<lambda>v'.
       bind_result (patch_methods scheme ms) (\<lambda>ms'. Inr ((m, v') # ms')))"

definition patch_path :: "settings \<Rightarrow> string \<Rightarrow> json \<Rightarrow> json result" where
  "patch_path S path_name path_item =
     (case path_security S path_name of
        None \<Rightarrow> Inr path_item
      | Some scheme \<Rightarrow> bind_result (as_object path_item) (\<lambda>ms.
          bind_result (patch_methods scheme ms) (\<lambda>ms'. Inr (JObj ms'))))"

fun patch_paths :: "settings \<Rightarrow> (string \<times> json) list \<Rightarrow> (string \<times> json) list result" where
  "patch_paths S [] = Inr []"
| "patch_paths S ((p, item) # ps) =
     bind_result (patch_path S p item) (\<lambda>item'.
       bind_result (patch_paths S ps) (\<lambda>ps'. Inr ((p, item') # ps')))"

text \<open>
  \<open>generated\<close> is what \<^verbatim>\<open>get_openapi\<close> returns; \<open>cached\<close> is \<^verbatim>\<open>app.openapi_schema\<close>, which an
  exception leaves as it is.
\<close>

definition patched_schema :: "settings \<Rightarrow> (string \<times> json) list \<Rightarrow> (string \<times> json) list result" where
  "patched_schema S generated =
     bind_result (object_at ''components'' generated) (\<lambda>components.
       bind_result (object_at ''securitySchemes'' components) (\<lambda>schemes.
         let schema = set_key ''components''
               (JObj (set_key ''securitySchemes'' (JObj (add_security_schemes S schemes)) components)) generated
         in bind_result (object_at ''paths'' schema) (\<lambda>paths.
              bind_result (patch_paths S paths) (\<lambda>paths'.
                Inr (if map_of schema ''paths'' = None then schema
                     else set_key ''paths'' (JObj paths') schema)))))"

definition custom_openapi ::
  "settings \<Rightarrow> (string \<times> json) list \<Rightarrow> (string \<times> json) list option \<Rightarrow>
     (string \<times> json) list result \<times> (string \<times> json) list option" where
  "custom_openapi S generated cached =
     (case cached of
        Some (kv # kvs) \<Rightarrow> (Inr (kv # kvs), cached)
      | _ \<Rightarrow> (case patched_schema S generated of
                Inl e \<Rightarrow> (Inl e, cached)
              | Inr schema \<Rightarrow> (Inr schema, Some schema)))"

subsection \<open>The document\<close>

text \<open>Where the routers put the operations; \<^verbatim>\<open>/health\<close> is not in the schema.\<close>

fun path_of :: "api_call \<Rightarrow> string" where
  "path_of (Post_Register ud d body) = ''/auth/register''"
| "path_of (Post_Login d email password) = ''/auth/login''"
| "path_of (Post_Refresh d) = ''/auth/refresh''"
| "path_of (Post_Logout t) = ''/auth/logout''"
| "path_of (Post_Logout_All t) = ''/auth/logout-all''"
| "path_of (Post_Parcel i body) = ''/parcels''"
| "path_of (Get_Parcels t_get t_set) = ''/parcels''"
| "path_of (Get_Parcel t_get t_set) = ''/parcels/{parcel_id}''"
| "path_of (Get_Parcel_Types t_get t_set) = ''/parcel-types''"
| "path_of Get_Health = ''/health''"
| "path_of (Post_Recalc tm) = ''/tasks/recalc-delivery''"

fun method_of :: "api_call \<Rightarrow> string" where
  "method_of (Get_Parcels t_get t_set) = ''get''"
| "method_of (Get_Parcel t_get t_set) = ''get''"
| "method_of (Get_Parcel_Types t_get t_set) = ''get''"
| "method_of Get_Health = ''get''"
| "method_of _ = ''post''"

definition operation_at :: "(string \<times> json) list \<Rightarrow> string \<Rightarrow> string \<Rightarrow> (string \<times> json) list option" where
  "operation_at schema path_name meth =
     (case map_of schema ''paths'' of
        Some (JObj paths) \<Rightarrow>
          (case map_of paths path_name of
             Some (JObj ms) \<Rightarrow>
               (case map_of ms meth of
                  Some (JObj op) \<Rightarrow> if is_operation (JObj op) then Some op else None
                | _ \<Rightarrow> None)
           | _ \<Rightarrow> None)
      | _ \<Rightarrow> None)"

definition security_of :: "(string \<times> json) list \<Rightarrow> json list" where
  "security_of op = (case map_of op ''security'' of Some (JArr xs) \<Rightarrow> xs | _ \<Rightarrow> [])"

definition documented_security :: "(string \<times> json) list \<Rightarrow> api_call \<Rightarrow> json list option" where
  "documented_security schema call = map_option security_of (operation_at schema (path_of call) (method_of call))"

lemma bind_Inr_iff: "bind_result r f = Inr y \<longleftrightarrow> (\<exists>x. r = Inr x \<and> f x = Inr y)"
  by (rule bind_result_eq_Inr)

lemma patch_methods_map:
  assumes "patch_methods scheme ms = Inr ms'" and "map_of ms m = Some v"
  shows "\<exists>v'. map_of ms' m = Some v' \<and> add_security scheme v = Inr v'"
  using assms by (induction ms arbitrary: ms') (auto simp: bind_Inr_iff split: if_splits)

lemma patch_paths_map:
  assumes "patch_paths S ps = Inr ps'" and "map_of ps p = Some item"
  shows "\<exists>item'. map_of ps' p = Some item' \<and> patch_path S p item = Inr item'"
  using assms by (induction ps arbitrary: ps') (auto simp: bind_Inr_iff split: if_splits)

lemma add_security_operation:
  assumes "add_security scheme (JObj op) = Inr v'" and "is_operation (JObj op)"
  shows "\<exists>op'. v' = JObj op' \<and> is_operation (JObj op') \<and> security_of op' = security_of op @ [requires scheme]"
proof (cases "map_of op ''security''")
  case None
  with assms show ?thesis by (auto simp: add_security_def as_object_def security_of_def)
next
  case (Some j)
  with assms show ?thesis by (cases j) (auto simp: add_security_def as_object_def security_of_def)
qed

lemma patch_path_operation:
  assumes "patch_path S p (JObj ms) = Inr item'" and "map_of ms m = Some (JObj op)" and "is_operation (JObj op)"
  shows "\<exists>ms' op'. item' = JObj ms' \<and> map_of ms' m = Some (JObj op') \<and> is_operation (JObj op') \<and>
    security_of op' = security_of op @ (case path_security S p of None \<Rightarrow> [] | Some n \<Rightarrow> [requires n])"
proof (cases "path_security S p")
  case None
  with assms show ?thesis by (auto simp: patch_path_def)
next
  case (Some n)
  with assms(1) obtain ms' where ms': "patch_methods n ms = Inr ms'" "item' = JObj ms'"
    by (auto simp: patch_path_def as_object_def bind_Inr_iff)
  obtain v' where "map_of ms' m = Some v'" "add_security n (JObj op) = Inr v'"
    using patch_methods_map [OF ms'(1) assms(2)] by blast
  with add_security_operation [OF _ assms(3)] Some ms'(2) show ?thesis by fastforce
qed

text \<open>The document adds to what FastAPI generated the scheme of the path's group.\<close>

lemma documented_added:
  assumes "patched_schema S G = Inr D" and "documented_security G call = Some xs"
  shows "documented_security D call =
    Some (xs @ (case path_security S (path_of call) of None \<Rightarrow> [] | Some n \<Rightarrow> [requires n]))"
proof -
  let ?p = "path_of call" and ?m = "method_of call"
  from assms(2) obtain paths ms op where G: "map_of G ''paths'' = Some (JObj paths)"
      "map_of paths ?p = Some (JObj ms)" "map_of ms ?m = Some (JObj op)" "is_operation (JObj op)" "xs = security_of op"
    by (auto simp: documented_security_def operation_at_def split: option.splits json.splits if_splits)
  from assms(1) G(1) obtain paths' where D: "patch_paths S paths = Inr paths'" "map_of D ''paths'' = Some (JObj paths')"
    by (auto simp: patched_schema_def bind_Inr_iff Let_def object_at_def as_object_def split: if_splits)
  obtain item' where item': "map_of paths' ?p = Some item'" "patch_path S ?p (JObj ms) = Inr item'"
    using patch_paths_map [OF D(1) G(2)] by blast
  from patch_path_operation [OF item'(2) G(3,4)] item'(1) D(2) G(5) show ?thesis
    by (auto simp: documented_security_def operation_at_def)
qed

lemma path_security_of:
  "path_security S (path_of call) =
     (case call of
        Post_Logout_All t \<Rightarrow> Some ''BearerAuth''
      | Post_Parcel i body \<Rightarrow> Some (auth_scheme_name S)
      | Get_Parcels t u \<Rightarrow> Some (auth_scheme_name S)
      | Get_Parcel t u \<Rightarrow> Some (auth_scheme_name S)
      | Post_Recalc tm \<Rightarrow> Some ''AdminToken''
      | _ \<Rightarrow> None)"
  by (cases call) (simp_all add: path_security_def starts_with_def JWT_PATH_PREFIXES_def
      ADMIN_PATH_PREFIXES_def PUBLIC_PATH_PREFIXES_def)

subsection \<open>The guards\<close>

text \<open>Requests that differ at most in their credentials.\<close>

definition credential_headers :: "string list" where
  "credential_headers = [''authorization'', ''x-session-id'', ''x-admin-token'']"

definition same_but_credentials :: "request \<Rightarrow> request \<Rightarrow> bool" where
  "same_but_credentials req req' \<longleftrightarrow>
     (\<exists>hs. req' = req\<lparr>rq_headers := hs\<rparr> \<and>
       (\<forall>n. map lower_char n \<notin> set credential_headers \<longrightarrow> header req' n = header req n))"

definition same_answer :: "(http_response \<times> 'w) option \<Rightarrow> (http_response \<times> 'w) option \<Rightarrow> bool" where
  "same_answer x y \<longleftrightarrow>
     map_option (\<lambda>(resp, w). (status_code resp, content resp, rs_cookies resp, w)) x =
     map_option (\<lambda>(resp, w). (status_code resp, content resp, rs_cookies resp, w)) y"

lemma routed_public:
  assumes "path_security S (path_of call) = None"
    and "rq' = rq\<lparr>rq_headers := hs, rq_session := s\<rparr>"
    and "header rq' (CSRF_HEADER_NAME (pf_settings P)) = header rq (CSRF_HEADER_NAME (pf_settings P))"
  shows "routed P now call rq' w = routed P now call rq w"
proof -
  have ck: "cookie rq' n = cookie rq n" for n by (simp add: cookie_def assms(2))
  have "route_identifier rq' = route_identifier rq" "remote_address rq' = remote_address rq"
    by (cases "rq_route rq"; simp add: route_identifier_def remote_address_def assms(2))+
  then have lim: "limited P lv now rq' h = limited P lv now rq h" for lv h
    by (intro ext) (simp add: limited_def limit_def)
  have csrf: "require_csrf (pf_settings P) rq' = require_csrf (pf_settings P) rq"
      "refresh_token_from_request (pf_settings P) rq' = refresh_token_from_request (pf_settings P) rq"
    by (simp_all add: require_csrf_def refresh_token_from_request_def ck assms(3))
  have types: "cached_types P a b rq' pg st = cached_types P a b rq pg st" "pagination_query P rq' = pagination_query P rq"
    for a b pg st
    by (simp_all add: cached_types_def redis_cache_def make_cache_key_no_session_def pagination_query_def assms(2))
  show ?thesis
    using assms(1) [unfolded path_security_of]
    by (cases call) (simp_all add: register_route_def login_route_def refresh_route_def
        logout_route_def list_parcel_types_route_def lim csrf types Let_def cong: sum.case_cong)
qed

lemma routed_bearer:
  assumes "path_security (pf_settings P) (path_of call) = Some ''BearerAuth''" and "pf_bearer P rq = None"
    and "routed P now call rq w = Some (resp, w')"
  shows "status_code resp = 401 \<and> w' = w"
proof -
  have "AUTH_REQUIRED (pf_settings P)" if "auth_scheme_name (pf_settings P) = ''BearerAuth''"
    using that by (auto simp: auth_scheme_name_def split: if_splits)
  with assms [unfolded path_security_of] show ?thesis
    by (cases call) (auto simp: logout_all_route_def register_parcel_def list_parcels_route_def
        get_parcel_route_def get_parcel_reader_owner_id_def get_parcel_writer_owner_id_def get_owner_id_def
        get_current_user_id_def with_dependency_def respond_error_status Let_def)
qed

lemma routed_admin:
  assumes "path_security (pf_settings P) (path_of call) = Some ''AdminToken''"
    and "header rq ''X-Admin-Token'' = None" and "routed P now call rq w = Some (resp, w')"
  shows "status_code resp = 403 \<and> w' = w"
  using assms [unfolded path_security_of]
  by (cases call) (auto simp: auth_scheme_name_def recalc_route_def require_task_admin_token_def
      respond_error_status Let_def split: if_splits)

text \<open>The request the routers see.\<close>

definition seen_by_routers :: "settings \<Rightarrow> ident \<Rightarrow> request \<Rightarrow> request" where
  "seen_by_routers S fresh req =
     (if AUTH_REQUIRED S then req else req\<lparr>rq_session := Some (choose_session fresh req)\<rparr>)"

lemma header_seen [simp]: "header (seen_by_routers S fresh req) n = header req n"
  by (simp add: seen_by_routers_def header_def)

lemma app_answer:
  "same_answer (app P fresh now call req w) (routed P now call (seen_by_routers (pf_settings P) fresh req) w)"
  by (cases "routed P now call (req\<lparr>rq_session := Some (choose_session fresh req)\<rparr>) w")
    (auto simp: same_answer_def app_def seen_by_routers_def assign_session_id_def through_handlers_def Let_def)

lemma same_answer_trans: "same_answer x y \<Longrightarrow> same_answer z y \<Longrightarrow> same_answer x z"
  by (simp add: same_answer_def)

lemma same_answer_Some:
  "same_answer (Some (resp, w)) y \<Longrightarrow> \<exists>r. y = Some (r, w) \<and> status_code r = status_code resp"
  by (cases y) (auto simp: same_answer_def)

lemma app_public:
  assumes "path_security (pf_settings P) (path_of call) = None"
    and "map lower_char (CSRF_HEADER_NAME (pf_settings P)) \<notin> set credential_headers"
    and "same_but_credentials req req'"
  shows "same_answer (app P fresh now call req' w) (app P fresh now call req w)"
proof -
  let ?S = "pf_settings P"
  obtain hs where hs: "req' = req\<lparr>rq_headers := hs\<rparr>" "header req' (CSRF_HEADER_NAME ?S) = header req (CSRF_HEADER_NAME ?S)"
    using assms(2,3) by (auto simp: same_but_credentials_def)
  have "routed P now call (seen_by_routers ?S fresh req') w = routed P now call (seen_by_routers ?S fresh req) w"
    by (rule routed_public [OF assms(1), where hs = hs and s = "rq_session (seen_by_routers ?S fresh req')"])
      (use hs in \<open>simp_all add: seen_by_routers_def header_def\<close>)
  with app_answer same_answer_trans show ?thesis by metis
qed

text \<open>
  C10: the security the OpenAPI document states is what the routes demand.  To what FastAPI
  generated for an operation the document adds the scheme of its path: a bearer token, and
  a request without one is answered 401; the admin token, and a request without it is
  answered 403, either with nothing changed; nothing, and the answer and the state do not
  depend on any credential header; or, in session mode, the session header, which is
  optional: the caller is the session the middleware chose, a new one if the header is
  missing.
\<close>

theorem documented_security_enforced:
  assumes "custom_openapi (pf_settings P) G None = (Inr D, st)" and "documented_security G call = Some xs"
    and "bearer_scheme (pf_bearer P)"
    and "map lower_char (CSRF_HEADER_NAME (pf_settings P)) \<notin> set credential_headers"
    and "app P fresh now call req w = Some (resp, w')"
  shows "\<exists>added. documented_security D call = Some (xs @ added) \<and>
    (added = [requires ''BearerAuth''] \<and> (header req ''Authorization'' = None \<longrightarrow> status_code resp = 401 \<and> w' = w) \<or>
     added = [requires ''AdminToken''] \<and> (header req ''X-Admin-Token'' = None \<longrightarrow> status_code resp = 403 \<and> w' = w) \<or>
     added = [] \<and> (\<forall>req'. same_but_credentials req req' \<longrightarrow>
       same_answer (app P fresh now call req' w) (Some (resp, w'))) \<or>
     added = [requires ''SessionAuth''] \<and>
       (\<forall>scopes. get_owner_id (pf_settings P) (pf_jwt P) now (seen_by_routers (pf_settings P) fresh req)
          (pf_bearer P req) scopes = Inr (choose_session fresh req)) \<and>
       (header req SESSION_HEADER = None \<longrightarrow> choose_session fresh req = fresh))"
proof -
  let ?S = "pf_settings P" and ?rq = "seen_by_routers (pf_settings P) fresh req"
  let ?added = "case path_security ?S (path_of call) of None \<Rightarrow> [] | Some n \<Rightarrow> [requires n]"
  have D: "documented_security D call = Some (xs @ ?added)"
    using assms(1,2) by (intro documented_added) (auto simp: custom_openapi_def split: sum.splits)
  obtain r where r: "routed P now call ?rq w = Some (r, w')" "status_code r = status_code resp"
    using same_answer_Some [of resp w'] app_answer [of P fresh now call req w] assms(5) by metis
  consider "path_security ?S (path_of call) = None" | "path_security ?S (path_of call) = Some ''BearerAuth''"
    | "path_security ?S (path_of call) = Some ''AdminToken''"
    | "path_security ?S (path_of call) = Some ''SessionAuth''" "\<not> AUTH_REQUIRED ?S"
    unfolding path_security_of by (cases call; cases "AUTH_REQUIRED ?S") (simp_all add: auth_scheme_name_def)
  then show ?thesis
  proof cases
    case 1
    with D app_public [OF 1 assms(4), of req _ fresh now w] assms(5) show ?thesis by simp
  next
    case 2
    have "pf_bearer P ?rq = None" if "header req ''Authorization'' = None"
      using that assms(3) unfolding bearer_scheme_def by simp
    with D routed_bearer [OF 2 _ r(1)] r(2) 2 show ?thesis by auto
  next
    case 3
    with D routed_admin [OF 3 _ r(1)] r(2) show ?thesis by auto
  next
    case 4
    then show ?thesis
      using D by (auto simp: get_owner_id_def get_session_id_def seen_by_routers_def choose_session_def)
  qed
qed

definition small_schema :: "(string \<times> json) list" where
  "small_schema = [(''paths'', JObj [(''/parcels'', JObj [(''post'', JObj [(''responses'', JObj [])])])])]"

theorem documented_security_enforced_witness:
  "\<exists>D st resp. custom_openapi (pf_settings reference_platform) small_schema None = (Inr D, st) \<and>
    documented_security D (Post_Parcel ''p1'' sample_payload) = Some [requires ''BearerAuth''] \<and>
    app reference_platform sample_uuid 5 (Post_Parcel ''p1'' sample_payload) (plain_request []) sample_world =
      Some (resp, sample_world) \<and> status_code resp = 401"
proof -
  let ?S = "pf_settings reference_platform" and ?call = "Post_Parcel ''p1'' sample_payload"
  have auth: "AUTH_REQUIRED ?S" "CSRF_HEADER_NAME ?S = ''X-CSRF-Token''"
    by (simp_all add: reference_platform_def default_settings_def)
  have sec: "path_security ?S ''/parcels'' = Some ''BearerAuth''"
    by (simp add: path_security_def starts_with_def auth_scheme_name_def auth JWT_PATH_PREFIXES_def
        ADMIN_PATH_PREFIXES_def PUBLIC_PATH_PREFIXES_def)
  obtain D where D: "patched_schema ?S small_schema = Inr D"
    by (simp add: patched_schema_def small_schema_def object_at_def as_object_def patch_path_def sec
        add_security_def Let_def)
  have G: "documented_security small_schema ?call = Some []"
    by (simp add: documented_security_def operation_at_def small_schema_def security_of_def)
  have doc: "custom_openapi ?S small_schema None = (Inr D, Some D)" by (simp add: custom_openapi_def D)
  obtain resp w' where run: "app reference_platform sample_uuid 5 ?call (plain_request []) sample_world = Some (resp, w')"
    by (simp add: app_def auth) (metis prod.collapse)
  have csrf: "map lower_char (CSRF_HEADER_NAME ?S) \<notin> set credential_headers" unfolding auth by code_simp
  have scheme: "bearer_scheme (pf_bearer reference_platform)"
    by (auto simp: reference_platform_def bearer_scheme_def bearer_of_def split: option.splits)
  have "header (plain_request []) ''Authorization'' = None" by code_simp
  moreover have "documented_security D ?call = Some [requires ''BearerAuth'']"
    using documented_added [OF D G] sec by simp
  ultimately have "status_code resp = 401 \<and> w' = sample_world"
    using documented_security_enforced [OF doc G scheme csrf run] by (simp add: requires_def)
  with doc run \<open>documented_security D ?call = Some [requires ''BearerAuth'']\<close> show ?thesis by blast
qed

text \<open>A second call returns the same document: nothing is appended twice.\<close>

lemma custom_openapi_stable:
  assumes "custom_openapi S G None = (Inr D, st)"
  shows "custom_openapi S' G' st = (Inr D, st)"
proof -
  have "patched_schema S G = Inr D" "st = Some D"
    using assms by (auto simp: custom_openapi_def split: sum.splits)
  moreover have "map_of D ''components'' \<noteq> None"
    using \<open>patched_schema S G = Inr D\<close> by (auto simp: patched_schema_def bind_Inr_iff Let_def split: if_splits)
  ultimately show ?thesis by (cases D) (auto simp: custom_openapi_def)
qed

end
