(* ===== verification/Recalc_Races.thy ===== *)
theory Recalc_Races
  imports Recalc_Runs
begin

text \<open>
  Runs of the job that overlap: the lock can expire under a long run and the manual trigger
  deletes it.  A run past its lock and its rate is a \<open>worker\<close>, whose steps are those the
  database sees: the \<^verbatim>\<open>SELECT\<close> of a batch, and the commit of the batch it holds.  A
  schedule says whose step is next.
\<close>

datatype phase = Reading | Holding "parcel list" | Finished "nat result"

record worker =
  wk_rate :: decimal
  wk_phase :: phase
  wk_updated :: nat

definition worker_step :: "settings \<Rightarrow> engine \<Rightarrow> worker \<Rightarrow> db \<Rightarrow> worker \<times> db" where
  "worker_step S E wk db =
     (case wk_phase wk of
        Reading \<Rightarrow>
          (let ps = fetch_unpriced S E db
           in (wk\<lparr>wk_phase := if ps = [] then Finished (Inr (wk_updated wk)) else Holding ps\<rparr>, db))
      | Holding ps \<Rightarrow>
          (case commit_costs S E (wk_rate wk) ps db of
             Inl e \<Rightarrow> (wk\<lparr>wk_phase := Finished (Inl e)\<rparr>, db)
           | Inr db' \<Rightarrow> (wk\<lparr>wk_phase := Reading, wk_updated := wk_updated wk + length ps\<rparr>, db'))
      | Finished res \<Rightarrow> (wk, db))"

fun run_schedule :: "settings \<Rightarrow> engine \<Rightarrow> nat list \<Rightarrow> worker list \<times> db \<Rightarrow> worker list \<times> db" where
  "run_schedule S E [] (wks, db) = (wks, db)"
| "run_schedule S E (i # sched) (wks, db) =
     (if i < length wks then
        (case worker_step S E (wks ! i) db of (wk, db') \<Rightarrow> run_schedule S E sched (wks[i := wk], db'))
      else run_schedule S E sched (wks, db))"

definition new_worker :: "decimal \<Rightarrow> worker" where
  "new_worker rate = \<lparr>wk_rate = rate, wk_phase = Reading, wk_updated = 0\<rparr>"

text \<open>Alone, a worker computes the loop of the job.\<close>

lemma lone_worker:
  assumes "recalc_loop S E rate n db = Some (res, db')"
  shows "\<exists>k m. run_schedule S E (replicate k 0) ([\<lparr>wk_rate = rate, wk_phase = Reading, wk_updated = n\<rparr>], db) =
    ([\<lparr>wk_rate = rate, wk_phase = Finished res, wk_updated = m\<rparr>], db')"
proof -
  let ?P = "\<lambda>S E rate n db y. \<exists>k m. run_schedule S E (replicate k 0)
      ([\<lparr>wk_rate = rate, wk_phase = Reading, wk_updated = n\<rparr>], db) =
    ([\<lparr>wk_rate = rate, wk_phase = Finished (fst y), wk_updated = m\<rparr>], snd y)"
  have "?P S E rate n db y" if "recalc_loop S E rate n db = Some y" for y
  proof (rule recalc_loop.raw_induct [where P = ?P, OF _ that])
    fix f S E rate n db y
    assume IH: "\<And>S E rate n db y. f S E rate n db = Some y \<Longrightarrow> ?P S E rate n db y"
      and eq: "(let ps = fetch_unpriced S E db
        in if ps = [] then Some (Inr n, db)
           else case commit_costs S E rate ps db of
                  Inl e \<Rightarrow> Some (Inl e, db)
                | Inr db' \<Rightarrow> f S E rate (n + length ps) db') = Some y"
    let ?ps = "fetch_unpriced S E db"
    consider "?ps = []" | e where "?ps \<noteq> []" "commit_costs S E rate ?ps db = Inl e"
      | db1 where "?ps \<noteq> []" "commit_costs S E rate ?ps db = Inr db1"
      by (cases "commit_costs S E rate ?ps db") auto
    then show "?P S E rate n db y"
    proof cases
      case 1
      with eq show ?thesis by (intro exI [of _ 1] exI [of _ n]) (auto simp: worker_step_def Let_def)
    next
      case 2
      with eq show ?thesis
        by (intro exI [of _ 2] exI [of _ n]) (auto simp: worker_step_def Let_def numeral_2_eq_2)
    next
      case 3
      with eq have "f S E rate (n + length ?ps) db1 = Some y" by (simp add: Let_def)
      from IH [OF this] obtain k m where "run_schedule S E (replicate k 0)
          ([\<lparr>wk_rate = rate, wk_phase = Reading, wk_updated = n + length ?ps\<rparr>], db1) =
        ([\<lparr>wk_rate = rate, wk_phase = Finished (fst y), wk_updated = m\<rparr>], snd y)" by blast
      with 3 show ?thesis
        by (intro exI [of _ "Suc (Suc k)"] exI [of _ m]) (simp add: worker_step_def Let_def)
    qed
  qed
  from this [OF assms] show ?thesis by simp
qed

subsection \<open>A commit of rows that are no longer current\<close>

lemma priced_cost_irrelevant [simp]: "priced S E rate (p\<lparr>p_delivery_cost_rub := c\<rparr>) = priced S E rate p"
  by (simp add: priced_def)

lemma priced_same:
  assumes "q\<lparr>p_delivery_cost_rub := None\<rparr> = p\<lparr>p_delivery_cost_rub := None\<rparr>"
  shows "priced S E rate q = priced S E rate p"
  using assms priced_cost_irrelevant by metis

lemma commit_costs_stale:
  assumes "\<forall>p \<in> set ps. cost_storable S E rate p"
    and "\<forall>p \<in> set ps. \<forall>q \<in> set rows. p_id q = p_id p \<longrightarrow> priced S E rate q = priced S E rate p"
  shows "commit_costs S E rate ps (db\<lparr>parcels := rows\<rparr>) =
    Inr (db\<lparr>parcels := update_where (\<lambda>q. p_id q \<in> p_id ` set ps) (priced S E rate) rows\<rparr>)"
  using assms
proof (induction ps arbitrary: rows)
  case Nil
  then show ?case by (simp add: update_where_none)
next
  case (Cons p ps)
  let ?rows = "update_where (\<lambda>q. p_id q = p_id p) (priced S E rate) rows"
  obtain c where c: "numeric_column E 12 2 (parcel_cost S rate p) = Some c" "0 \<le> dec_val c"
    using Cons.prems(1) by (auto simp: cost_storable_def split: option.splits)
  have "q\<lparr>p_delivery_cost_rub := Some c\<rparr> = priced S E rate q" if "q \<in> set rows" "p_id q = p_id p" for q
  proof -
    from Cons.prems(2) that have "priced S E rate q = priced S E rate p" by simp
    then have "p_delivery_cost_rub (priced S E rate q) = Some c" by (simp add: priced_def c)
    then show ?thesis by (simp add: priced_def)
  qed
  then have "update_where (\<lambda>q. p_id q = p_id p) (p_delivery_cost_rub_update (\<lambda>_. Some c)) rows = ?rows"
    by (simp add: update_where_def)
  with c have step: "update_cost E (p_id p) (parcel_cost S rate p) (db\<lparr>parcels := rows\<rparr>) = Inr (db\<lparr>parcels := ?rows\<rparr>)"
    by (simp add: update_cost_def not_less)
  have "commit_costs S E rate ps (db\<lparr>parcels := ?rows\<rparr>) =
      Inr (db\<lparr>parcels := update_where (\<lambda>q. p_id q \<in> p_id ` set ps) (priced S E rate) ?rows\<rparr>)"
    using Cons.prems by (intro Cons.IH) (auto simp: in_update_where priced_def)
  moreover have "update_where (\<lambda>q. p_id q \<in> p_id ` set ps) (priced S E rate) ?rows =
      update_where (\<lambda>q. p_id q \<in> p_id ` set (p # ps)) (priced S E rate) rows"
    by (auto simp: update_where_def priced_def)
  ultimately show ?case by (simp add: step)
qed

subsection \<open>What every interleaving keeps\<close>

text \<open>\<open>f\<close> says by which rate a pending parcel has been priced so far.\<close>

definition priced_by :: "settings \<Rightarrow> engine \<Rightarrow> (ident \<Rightarrow> decimal option) \<Rightarrow> parcel \<Rightarrow> parcel" where
  "priced_by S E f p =
     (if unpriced p then case f (p_id p) of None \<Rightarrow> p | Some rate \<Rightarrow> priced S E rate p else p)"

lemma p_id_priced_by [simp]: "p_id (priced_by S E f p) = p_id p"
  by (simp add: priced_by_def split: option.split)

lemma priced_priced_by [simp]: "priced S E rate (priced_by S E f p) = priced S E rate p"
  by (auto simp: priced_by_def priced_def split: option.split)

definition storable_at :: "settings \<Rightarrow> engine \<Rightarrow> decimal set \<Rightarrow> db \<Rightarrow> bool" where
  "storable_at S E rates db \<longleftrightarrow> (\<forall>rate \<in> rates. \<forall>p \<in> set (parcels db). unpriced p \<longrightarrow> cost_storable S E rate p)"

lemma unpriced_priced_by:
  assumes "storable_at S E rates db0" and "ran f \<subseteq> rates" and "p \<in> set (parcels db0)"
  shows "unpriced (priced_by S E f p) \<longleftrightarrow> unpriced p \<and> f (p_id p) = None"
proof (cases "f (p_id p)")
  case (Some rate)
  with assms(2) have "rate \<in> rates" by (auto intro: ranI)
  with assms(1,3) Some priced_not_unpriced show ?thesis
    by (auto simp: priced_by_def storable_at_def)
qed (simp add: priced_by_def)

definition pending_ids :: "db \<Rightarrow> ident set" where
  "pending_ids db = p_id ` {p \<in> set (parcels db). unpriced p}"

definition progress :: "settings \<Rightarrow> engine \<Rightarrow> db \<Rightarrow> (ident \<Rightarrow> decimal option) \<Rightarrow> db" where
  "progress S E db0 f = db0\<lparr>parcels := map (priced_by S E f) (parcels db0)\<rparr>"

lemma pending_progress:
  assumes "storable_at S E rates db0" and "ran f \<subseteq> rates"
  shows "pending_ids (progress S E db0 f) = {i \<in> pending_ids db0. f i = None}"
proof -
  have "{q \<in> priced_by S E f ` set (parcels db0). unpriced q} =
      priced_by S E f ` {p \<in> set (parcels db0). unpriced p \<and> f (p_id p) = None}"
    using unpriced_priced_by [OF assms] by auto
  then show ?thesis by (auto simp: pending_ids_def progress_def image_image)
qed

fun holds_pending :: "db \<Rightarrow> phase \<Rightarrow> bool" where
  "holds_pending db0 (Holding ps) \<longleftrightarrow>
     set ps \<subseteq> {p \<in> set (parcels db0). unpriced p}"
| "holds_pending db0 ph \<longleftrightarrow> True"

fun completed :: "(ident \<Rightarrow> decimal option) \<Rightarrow> ident set \<Rightarrow> phase \<Rightarrow> bool" where
  "completed f ids (Finished res) \<longleftrightarrow> (\<exists>n. res = Inr n) \<and> (\<forall>i \<in> ids. f i \<noteq> None)"
| "completed f ids ph \<longleftrightarrow> True"

definition worker_ok :: "db \<Rightarrow> decimal set \<Rightarrow> (ident \<Rightarrow> decimal option) \<Rightarrow> worker \<Rightarrow> bool" where
  "worker_ok db0 rates f wk \<longleftrightarrow> wk_rate wk \<in> rates \<and> holds_pending db0 (wk_phase wk) \<and>
     completed f (pending_ids db0) (wk_phase wk)"

lemma worker_ok_mono:
  "worker_ok db0 rates f wk \<Longrightarrow> \<forall>i. f i \<noteq> None \<longrightarrow> f' i \<noteq> None \<Longrightarrow> worker_ok db0 rates f' wk"
  unfolding worker_ok_def by (cases "wk_phase wk") auto

text \<open>
  How far a worker is from its end, given the pending ids: a read starts a batch that some
  worker will have priced by the next read.
\<close>

definition remaining :: "ident set \<Rightarrow> worker \<Rightarrow> nat" where
  "remaining ids wk =
     (case wk_phase wk of
        Reading \<Rightarrow> 2 * card ids + 1
      | Holding ps \<Rightarrow> 2 * card (ids - p_id ` set ps) + 2
      | Finished res \<Rightarrow> 0)"

lemma remaining_mono: "ids' \<subseteq> ids \<Longrightarrow> finite ids \<Longrightarrow> remaining ids' wk \<le> remaining ids wk"
  by (auto simp: remaining_def intro!: card_mono split: phase.split)

lemma finite_pending [simp]: "finite (pending_ids db)"
  by (simp add: pending_ids_def)

context sql_engine
begin

lemma commit_progress:
  assumes "storable_at S E rates db0" and "rate \<in> rates" and "distinct (map p_id (parcels db0))"
    and "set ps \<subseteq> {p \<in> set (parcels db0). unpriced p}"
  shows "commit_costs S E rate ps (progress S E db0 f) =
    Inr (progress S E db0 (\<lambda>i. if i \<in> p_id ` set ps then Some rate else f i))"
proof -
  have same: "q = p" if "p \<in> set ps" "q \<in> set (parcels db0)" "p_id q = p_id p" for p q
    using that assms(3,4) by (auto simp: distinct_map dest: inj_onD)
  have storable: "\<forall>p \<in> set ps. cost_storable S E rate p"
    using assms(1,2,4) by (auto simp: storable_at_def)
  have "commit_costs S E rate ps (db0\<lparr>parcels := map (priced_by S E f) (parcels db0)\<rparr>) =
      Inr (db0\<lparr>parcels := update_where (\<lambda>q. p_id q \<in> p_id ` set ps) (priced S E rate)
        (map (priced_by S E f) (parcels db0))\<rparr>)"
    using storable by (rule commit_costs_stale) (use same in auto)
  moreover have "(if p_id q \<in> p_id ` set ps then priced S E rate (priced_by S E f q) else priced_by S E f q) =
      priced_by S E (\<lambda>i. if i \<in> p_id ` set ps then Some rate else f i) q" if "q \<in> set (parcels db0)" for q
  proof (cases "p_id q \<in> p_id ` set ps")
    case True
    with same that have "q \<in> set ps" by auto
    with assms(4) have "unpriced q" by auto
    with True have "priced_by S E (\<lambda>i. if i \<in> p_id ` set ps then Some rate else f i) q = priced S E rate q"
      by (simp add: priced_by_def)
    with True show ?thesis by simp
  next
    case False
    then show ?thesis by (simp add: priced_by_def)
  qed
  ultimately show ?thesis by (simp add: progress_def update_where_def)
qed

lemma read_progress:
  assumes "storable_at S E rates db0" and "ran f \<subseteq> rates" and "distinct (map p_id (parcels db0))"
  shows "set (fetch_unpriced S E (progress S E db0 f)) \<subseteq> {p \<in> set (parcels db0). unpriced p}"
    and "p_id ` set (fetch_unpriced S E (progress S E db0 f)) \<subseteq> pending_ids (progress S E db0 f)"
proof -
  let ?db = "progress S E db0 f"
  have "map p_id (parcels ?db) = map p_id (parcels db0)" by (simp add: progress_def comp_def)
  with assms(3) have sub: "set (fetch_unpriced S E ?db) \<subseteq> {p \<in> set (parcels ?db). unpriced p}"
    by (intro fetch_unpriced_batch(1)) metis
  then show "p_id ` set (fetch_unpriced S E ?db) \<subseteq> pending_ids ?db" by (auto simp: pending_ids_def)
  show "set (fetch_unpriced S E ?db) \<subseteq> {p \<in> set (parcels db0). unpriced p}"
  proof
    fix q assume "q \<in> set (fetch_unpriced S E ?db)"
    with sub obtain p where p: "p \<in> set (parcels db0)" "q = priced_by S E f p" "unpriced q"
      by (auto simp: progress_def)
    with unpriced_priced_by [OF assms(1,2) p(1)] have "unpriced p" "f (p_id p) = None" by auto
    with p show "q \<in> {p \<in> set (parcels db0). unpriced p}" by (simp add: priced_by_def)
  qed
qed

lemma worker_step_progress:
  assumes batch: "0 < DELIVERY_BATCH_SIZE S" and st: "storable_at S E rates db0"
    and dist: "distinct (map p_id (parcels db0))" and f: "ran f \<subseteq> rates" and wk: "worker_ok db0 rates f wk"
    and step: "worker_step S E wk (progress S E db0 f) = (wk', db')"
  shows "\<exists>f'. db' = progress S E db0 f' \<and> ran f' \<subseteq> rates \<and> (\<forall>i. f i \<noteq> None \<longrightarrow> f' i \<noteq> None) \<and>
    worker_ok db0 rates f' wk' \<and>
    remaining (pending_ids db') wk' \<le> remaining (pending_ids (progress S E db0 f)) wk - 1"
proof (cases "wk_phase wk")
  case Reading
  let ?db = "progress S E db0 f" and ?ps = "fetch_unpriced S E (progress S E db0 f)"
  note read = read_progress [OF st f dist]
  show ?thesis
  proof (cases "?ps = []")
    case True
    then have "pending_ids ?db = {}"
      using fetch_unpriced_empty_iff [OF batch, of ?db] by (auto simp: pending_ids_def filter_empty_conv)
    with pending_progress [OF st f] have "f i \<noteq> None" if "i \<in> pending_ids db0" for i using that by auto
    with True Reading step wk f show ?thesis
      by (intro exI [of _ f]) (auto simp: worker_step_def worker_ok_def remaining_def)
  next
    case False
    then obtain p where "p \<in> set ?ps" by (cases ?ps) auto
    with read(2) have "card (pending_ids ?db - p_id ` set ?ps) < card (pending_ids ?db)"
      by (intro psubset_card_mono) auto
    with False Reading step wk f read(1) show ?thesis
      by (intro exI [of _ f]) (auto simp: worker_step_def worker_ok_def remaining_def)
  qed
next
  case (Holding ps)
  let ?f = "\<lambda>i. if i \<in> p_id ` set ps then Some (wk_rate wk) else f i"
  from wk Holding have rate: "wk_rate wk \<in> rates" and ps: "set ps \<subseteq> {p \<in> set (parcels db0). unpriced p}"
    by (auto simp: worker_ok_def)
  have f': "ran ?f \<subseteq> rates" using f rate by (auto simp: ran_def split: if_splits)
  have "pending_ids (progress S E db0 ?f) = pending_ids (progress S E db0 f) - p_id ` set ps"
    unfolding pending_progress [OF st f'] pending_progress [OF st f] by auto
  with commit_progress [OF st rate dist ps, of f] Holding step rate f' show ?thesis
    by (intro exI [of _ ?f]) (auto simp: worker_step_def worker_ok_def remaining_def)
next
  case (Finished res)
  with step wk f show ?thesis by (intro exI [of _ f]) (auto simp: worker_step_def remaining_def)
qed

lemma schedule_progress:
  assumes batch: "0 < DELIVERY_BATCH_SIZE S" and st: "storable_at S E rates db0"
    and dist: "distinct (map p_id (parcels db0))"
  shows "ran f \<subseteq> rates \<Longrightarrow> list_all (worker_ok db0 rates f) wks \<Longrightarrow>
    run_schedule S E sched (wks, progress S E db0 f) = (wks', db') \<Longrightarrow>
    \<exists>f'. db' = progress S E db0 f' \<and> ran f' \<subseteq> rates \<and> list_all (worker_ok db0 rates f') wks' \<and>
      length wks' = length wks \<and>
      (\<forall>i < length wks. remaining (pending_ids db') (wks' ! i) \<le>
        remaining (pending_ids (progress S E db0 f)) (wks ! i) - count_list sched i)"
proof (induction sched arbitrary: f wks)
  case Nil
  then show ?case by auto
next
  case (Cons k sched)
  show ?case
  proof (cases "k < length wks")
    case False
    with Cons.prems have "run_schedule S E sched (wks, progress S E db0 f) = (wks', db')" by simp
    from Cons.IH [OF Cons.prems(1,2) this] False show ?thesis by auto
  next
    case True
    obtain wk db1 where step: "worker_step S E (wks ! k) (progress S E db0 f) = (wk, db1)" by fastforce
    have "worker_ok db0 rates f (wks ! k)" using Cons.prems(2) True by (simp add: list_all_length)
    from worker_step_progress [OF batch st dist Cons.prems(1) this step] obtain g where g:
        "db1 = progress S E db0 g" "ran g \<subseteq> rates" "\<forall>i. f i \<noteq> None \<longrightarrow> g i \<noteq> None" "worker_ok db0 rates g wk"
        "remaining (pending_ids db1) wk \<le> remaining (pending_ids (progress S E db0 f)) (wks ! k) - 1"
      by blast
    have ok: "list_all (worker_ok db0 rates g) (wks[k := wk])"
      using Cons.prems(2) g(4) worker_ok_mono [OF _ g(3)] set_update_subset_insert [of wks k wk]
      unfolding list_all_iff by blast
    have "run_schedule S E sched (wks[k := wk], progress S E db0 g) = (wks', db')"
      using Cons.prems(3) True step g(1) by simp
    from Cons.IH [OF g(2) ok this] obtain f' where f': "db' = progress S E db0 f'" "ran f' \<subseteq> rates"
        "list_all (worker_ok db0 rates f') wks'" "length wks' = length wks"
        "\<forall>i < length wks. remaining (pending_ids db') (wks' ! i) \<le>
          remaining (pending_ids (progress S E db0 g)) (wks[k := wk] ! i) - count_list sched i"
      by auto
    have sub: "pending_ids (progress S E db0 g) \<subseteq> pending_ids (progress S E db0 f)"
      unfolding pending_progress [OF st g(2)] pending_progress [OF st Cons.prems(1)] using g(3) by auto
    have "remaining (pending_ids db') (wks' ! i) \<le>
        remaining (pending_ids (progress S E db0 f)) (wks ! i) - count_list (k # sched) i" if "i < length wks" for i
    proof -
      have "remaining (pending_ids (progress S E db0 g)) (wks[k := wk] ! i) \<le>
          remaining (pending_ids (progress S E db0 f)) (wks ! i) - (if i = k then 1 else 0)"
        using g(1,5) True remaining_mono [OF sub finite_pending, of "wks ! i"] by (auto simp: nth_list_update)
      with f'(5) that show ?thesis by fastforce
    qed
    with f' show ?thesis by blast
  qed
qed

end

lemma progress_empty [simp]: "progress S E db0 (\<lambda>i. None) = db0"
  by (simp add: progress_def priced_by_def map_idI)

lemma card_pending: "card (pending_ids db) \<le> length (filter unpriced (parcels db))"
  using card_image_le [of "{p \<in> set (parcels db). unpriced p}" p_id] card_length [of "filter unpriced (parcels db)"]
  by (simp add: pending_ids_def)

lemma priced_by_all:
  assumes "\<forall>i \<in> pending_ids db0. f i \<noteq> None" and "ran f \<subseteq> {rate}"
  shows "map (priced_by S E f) (parcels db0) = update_where unpriced (priced S E rate) (parcels db0)"
proof -
  have "priced_by S E f p = priced S E rate p" if "p \<in> set (parcels db0)" "unpriced p" for p
  proof -
    from that assms(1) obtain r where "f (p_id p) = Some r" by (auto simp: pending_ids_def)
    moreover from this assms(2) have "r = rate" by (auto dest: ranI)
    ultimately show ?thesis using that(2) by (simp add: priced_by_def)
  qed
  then show ?thesis by (simp add: update_where_def priced_by_def)
qed


definition strong_rate :: decimal where
  "strong_rate = Dec False 800 (-1)"

lemma strong_storable: "cost_storable default_settings reference_engine strong_rate sample_parcel"
  by (simp add: cost_storable_def sample_parcel_def delivery_formula_def times_decimal_def plus_decimal_def
      dec_fix_exact context_prec_def dec_int_def reference_numeric_def scaled_def dec_val_Dec strong_rate_def)

lemma sample_storable_at: "storable_at default_settings reference_engine {sample_rate, strong_rate} sample_db"
  using sample_storable strong_storable by (simp add: storable_at_def sample_db_def)


text \<open>
  C19: overlapping runs overwrite each other's prices.  Let two runs with different rates both
  read the pending parcels of one batch before either commits.  After the first commit
  every one of them has its price and can be shown to its owner; the second commit replaces
  it by the other price, and both runs report all the parcels as theirs.
\<close>

theorem overlapping_runs_reprice:
  assumes "sql_engine E" and "distinct (map p_id (parcels db0))" and "storable_at S E {r1, r2} db0"
    and "0 < length (filter unpriced (parcels db0))"
    and "length (filter unpriced (parcels db0)) \<le> DELIVERY_BATCH_SIZE S"
  shows "snd (run_schedule S E [0, 1, 0] (map new_worker [r1, r2], db0)) =
      db0\<lparr>parcels := update_where unpriced (priced S E r1) (parcels db0)\<rparr> \<and>
    (let n = length (filter unpriced (parcels db0)) in
     run_schedule S E [0, 1, 0, 1, 0, 1] (map new_worker [r1, r2], db0) =
       ([\<lparr>wk_rate = r1, wk_phase = Finished (Inr n), wk_updated = n\<rparr>,
         \<lparr>wk_rate = r2, wk_phase = Finished (Inr n), wk_updated = n\<rparr>],
        db0\<lparr>parcels := update_where unpriced (priced S E r2) (parcels db0)\<rparr>))"
proof -
  let ?ps = "fetch_unpriced S E db0" and ?n = "length (filter unpriced (parcels db0))"
  let ?set = "\<lambda>rate f i. if i \<in> p_id ` set ?ps then Some rate else f i"
  let ?f1 = "?set r1 (\<lambda>i. None)" and ?f2 = "?set r2 (?set r1 (\<lambda>i. None))"
  note batch = sql_engine.fetch_unpriced_batch [OF assms(1,2), of S]
  have len: "length ?ps = ?n" using batch(3) assms(5) by simp
  have "distinct (filter unpriced (parcels db0))" using assms(2) by (simp add: distinct_map)
  then have "card {p \<in> set (parcels db0). unpriced p} = ?n" using distinct_card by fastforce
  moreover have "card (set ?ps) = ?n" using batch(2) len by (simp add: distinct_map distinct_card)
  ultimately have all: "set ?ps = {p \<in> set (parcels db0). unpriced p}"
    using batch(1) by (intro card_subset_eq) auto
  then have ids: "p_id ` set ?ps = pending_ids db0" by (simp add: pending_ids_def)
  have commit1: "commit_costs S E r1 ?ps db0 = Inr (progress S E db0 ?f1)"
    using sql_engine.commit_progress [OF assms(1,3) _ assms(2), of r1 ?ps "\<lambda>i. None"] all by simp
  have commit2: "commit_costs S E r2 ?ps (progress S E db0 ?f1) = Inr (progress S E db0 ?f2)"
    using sql_engine.commit_progress [OF assms(1,3) _ assms(2), of r2 ?ps ?f1] all by simp
  have ran: "ran ?f1 \<subseteq> {r1, r2}" "ran ?f2 \<subseteq> {r1, r2}" "ran ?f1 \<subseteq> {r1}" "ran ?f2 \<subseteq> {r2}"
    by (auto simp: ran_def split: if_splits)
  have none: "fetch_unpriced S E (progress S E db0 f) = []" if "ran f \<subseteq> {r1, r2}" "\<forall>i \<in> pending_ids db0. f i \<noteq> None" for f
  proof -
    have "pending_ids (progress S E db0 f) = {}" using pending_progress [OF assms(3) that(1)] that(2) by auto
    moreover have "0 < DELIVERY_BATCH_SIZE S" using assms(4,5) by linarith
    ultimately show ?thesis
      by (subst sql_engine.fetch_unpriced_empty_iff [OF assms(1)]) (auto simp: pending_ids_def filter_empty_conv)
  qed
  have none1: "fetch_unpriced S E (progress S E db0 ?f1) = []" and none2: "fetch_unpriced S E (progress S E db0 ?f2) = []"
    by (rule none; use ran ids in auto)+
  have out: "progress S E db0 ?f1 = db0\<lparr>parcels := update_where unpriced (priced S E r1) (parcels db0)\<rparr>"
    "progress S E db0 ?f2 = db0\<lparr>parcels := update_where unpriced (priced S E r2) (parcels db0)\<rparr>"
    unfolding progress_def using priced_by_all [OF _ ran(3)] priced_by_all [OF _ ran(4)] ids by auto
  have ne: "?ps \<noteq> []" using len assms(4) by auto
  show ?thesis
    using commit1 commit2 none2 ne len out
    by (simp add: worker_step_def new_worker_def)
qed

theorem overlapping_runs_reprice_witness:
  "snd (run_schedule default_settings reference_engine [0, 1, 0] (map new_worker [sample_rate, strong_rate], sample_db)) =
    sample_db\<lparr>parcels := [priced default_settings reference_engine sample_rate sample_parcel]\<rparr> \<and>
   snd (run_schedule default_settings reference_engine [0, 1, 0, 1, 0, 1] (map new_worker [sample_rate, strong_rate], sample_db)) =
    sample_db\<lparr>parcels := [priced default_settings reference_engine strong_rate sample_parcel]\<rparr>"
  using overlapping_runs_reprice [OF ref_engine.sql_engine_axioms _ sample_storable_at]
  by (simp add: sample_db_def sample_parcel_def update_where_def)

end
