(* ===== verification/Register_Races.thy ===== *)
theory Register_Races
  imports Auth_Guarantees
begin

text \<open>
  Registration that overlaps other requests: the look-up of the address and the hashing of
  the password (\<open>register_read\<close>) come before the insert (\<open>register_insert\<close>), and others may
  commit in between.
\<close>

definition register_read :: "crypto \<Rightarrow> user_draws \<Rightarrow> string \<Rightarrow> string \<Rightarrow> db \<Rightarrow> user result" where
  "register_read C ud email password db =
     (case find_by u_email (users db) email of
        Some existing \<Rightarrow> Inl (BusinessError ''Email already registered'')
      | None \<Rightarrow> bind_result (hash_password C (d_salt ud) password) (\<lambda>h.
          Inr \<lparr>u_id = d_user_id ud, u_email = email, u_hashed_password = h,
            u_role = DEFAULT_USER_ROLE, u_created_at = d_created_at ud\<rparr>))"

definition register_insert ::
  "settings \<Rightarrow> crypto \<Rightarrow> jwt_lib \<Rightarrow> draws \<Rightarrow> user result \<Rightarrow> db \<Rightarrow> auth_result result \<times> db" where
  "register_insert S C J d res db =
     (case res of
        Inl e \<Rightarrow> (Inl e, db)
      | Inr u \<Rightarrow> (case insert_user u db of Inl e \<Rightarrow> (Inl e, db) | Inr db1 \<Rightarrow> issue_tokens S C J d u db1))"

lemma register_phases:
  "register S C J ud d email password db = register_insert S C J d (register_read C ud email password db) db"
  by (simp add: register_def register_insert_def register_read_def Let_def bind_result_def split: option.split sum.split)

text \<open>
  C17: overlapping registrations leave one account per address.  Whatever others committed
  between the look-up and the insert, registration answers and leaves what an uninterrupted
  one would at the moment of the insert, with one exception: if the address was registered
  in between, nothing is stored either way, but the client is answered 500 where the
  uninterrupted registration answers 400.
\<close>

theorem registration_serializable:
  assumes "crypto_library C" and "set (users db) \<subseteq> set (users db')"
    and "register_insert S C J d (register_read C ud email password db) db' = (res, db2)"
  shows "register S C J ud d email password db' = (res, db2) \<or>
    email \<notin> u_email ` set (users db) \<and> email \<in> u_email ` set (users db') \<and>
    register S C J ud d email password db' = (Inl (BusinessError ''Email already registered''), db') \<and>
    status_code (handle_exception (BusinessError ''Email already registered'')) = 400 \<and>
    (\<exists>e. res = Inl e \<and> db2 = db' \<and> status_code (handle_exception e) = 500)"
proof (cases "find_by u_email (users db) email")
  case (Some u)
  then have "email \<in> u_email ` set (users db)" by (metis find_by_SomeD imageI)
  with assms(2) have "email \<in> u_email ` set (users db')" by blast
  then obtain u' where "find_by u_email (users db') email = Some u'"
    by (metis find_by_None_iff not_None_eq)
  with Some assms(3) show ?thesis by (simp add: register_def register_read_def register_insert_def)
next
  case None
  then have free: "email \<notin> u_email ` set (users db)" by (rule find_by_NoneD)
  show ?thesis
  proof (cases "find_by u_email (users db') email")
    case (Some u')
    then have taken: "email \<in> u_email ` set (users db')" by (metis find_by_SomeD imageI)
    have hash: "\<exists>m. e = UnexpectedError m" if "hash_password C salt password = Inl e" for salt e
      using that crypto_library.bcrypt_hash_short [OF assms(1), of password salt]
        crypto_library.bcrypt_hash_long [OF assms(1), of password salt]
      by (cases "72 < utf8_len password") (auto simp: hash_password_def)
    have insert: "\<exists>m. insert_user u db' = Inl (DatabaseError m)" if "u_email u = email" for u
      using taken that by (auto simp: insert_user_def)
    have "\<exists>e. res = Inl e \<and> db2 = db' \<and> status_code (handle_exception e) = 500"
    proof (cases "hash_password C (d_salt ud) password")
      case (Inl e)
      with hash [OF this] None assms(3) show ?thesis
        by (auto simp: register_read_def register_insert_def handler_defs)
    next
      case (Inr h)
      let ?u = "\<lparr>u_id = d_user_id ud, u_email = email, u_hashed_password = h,
            u_role = DEFAULT_USER_ROLE, u_created_at = d_created_at ud\<rparr>"
      obtain m where "insert_user ?u db' = Inl (DatabaseError m)" using insert [of ?u] by auto
      with Inr None assms(3) show ?thesis
        by (auto simp: register_read_def register_insert_def handler_defs)
    qed
    with Some free taken show ?thesis by (simp add: register_def handler_defs)
  next
    case None': None
    with None assms(3) show ?thesis by (simp add: register_phases register_read_def)
  qed
qed

theorem registration_serializable_witness:
  "\<exists>res db2. register_insert default_settings reference_crypto reference_jwt (sample_draws ''r2'' ''j2'' ''f2'' 5)
      (register_read reference_crypto sample_user_draws ''a@b.co'' ''secret12'' empty_db)
      (empty_db\<lparr>users := [sample_user]\<rparr>) = (Inl res, db2) \<and>
    db2 = empty_db\<lparr>users := [sample_user]\<rparr> \<and> status_code (handle_exception res) = 500"
proof -
  let ?db = "empty_db\<lparr>users := [sample_user]\<rparr>" and ?d = "sample_draws ''r2'' ''j2'' ''f2'' 5"
  obtain res db2 where run: "register_insert default_settings reference_crypto reference_jwt ?d
      (register_read reference_crypto sample_user_draws ''a@b.co'' ''secret12'' empty_db) ?db = (res, db2)"
    by (rule prod.exhaust)
  have "u_email sample_user = ''a@b.co''" by (simp add: sample_user_def)
  then have serial: "register default_settings reference_crypto reference_jwt sample_user_draws ?d ''a@b.co'' ''secret12'' ?db =
      (Inl (BusinessError ''Email already registered''), ?db)"
    by (simp add: register_def find_by_def)
  have "utf8_len ''secret12'' \<le> 72" by code_simp
  then obtain h where "bcrypt_hash reference_crypto ''secret12'' (d_salt sample_user_draws) = Inr h"
    using ref_crypto.bcrypt_hash_short by blast
  then have "res \<noteq> Inl (BusinessError m)" for m
    using run by (auto simp: register_insert_def register_read_def empty_db_def find_by_def insert_user_def
        hash_password_def bind_result_def issue_tokens_def insert_token_def split: sum.splits if_splits)
  with registration_serializable [OF ref_crypto.crypto_library_axioms _ run] serial run
  show ?thesis by (auto simp: empty_db_def)
qed

end
