(* ===== verification/Logging.thy ===== *)
theory Logging
  imports Settings
begin

text \<open>
  \<^verbatim>\<open>app/core/logger.py\<close> and the \<^verbatim>\<open>echo=True\<close> of \<^verbatim>\<open>app/db/session.py\<close>.  The state is the tree of
  Python's loggers, a map from dotted names (the root is the empty name); \<open>handlers_for\<close>
  says which handlers a record reaches, as \<^verbatim>\<open>Logger.callHandlers\<close> walks up the tree.  The
  locale \<open>engine_echo\<close> states what SQLAlchemy documents of an echoing engine.
\<close>

subsection \<open>Python's loggers\<close>

type_synonym level = int

record handler =
  h_stream :: string
  h_level :: level
  h_format :: "(string \<times> string) option"

record logger =
  lg_level :: level
  lg_handlers :: "handler list"
  lg_propagate :: bool
  lg_disabled :: bool

type_synonym loggers = "string \<rightharpoonup> logger"

definition new_logger :: logger where
  "new_logger = \<lparr>lg_level = 0, lg_handlers = [], lg_propagate = True, lg_disabled = False\<rparr>"

text \<open>\<^verbatim>\<open>logging.getLogger\<close>: the logger of that name, a new one if there is none.\<close>

definition getLogger :: "loggers \<Rightarrow> string \<Rightarrow> logger" where
  "getLogger ls n = (case ls n of None \<Rightarrow> new_logger | Some l \<Rightarrow> l)"

definition on_logger :: "string \<Rightarrow> (logger \<Rightarrow> logger) \<Rightarrow> loggers \<Rightarrow> loggers" where
  "on_logger n f ls = ls(n \<mapsto> f (getLogger ls n))"

text \<open>
  The names \<^verbatim>\<open>Manager._fixupParents\<close> tries as parents, from the nearest: the prefixes before
  the dots that \<^verbatim>\<open>rfind\<close> meets.
\<close>

fun dotted_prefixes :: "string \<Rightarrow> nat \<Rightarrow> string list" where
  "dotted_prefixes n 0 = []"
| "dotted_prefixes n (Suc i) =
     (if n ! i = CHR ''.'' \<and> 0 < i then take i n # dotted_prefixes n (i - 1)
      else if n ! i = CHR ''.'' then []
      else dotted_prefixes n i)"

definition chain :: "string \<Rightarrow> string list" where
  "chain n = (if n = [] then [[]] else n # dotted_prefixes n (length n) @ [[]])"

text \<open>A name without a logger is passed over, which a logger with default settings is as well.\<close>

fun effective_level :: "loggers \<Rightarrow> string list \<Rightarrow> level" where
  "effective_level ls [] = 0"
| "effective_level ls (n # ns) =
     (if lg_level (getLogger ls n) \<noteq> 0 then lg_level (getLogger ls n) else effective_level ls ns)"

fun collect_handlers :: "loggers \<Rightarrow> string list \<Rightarrow> handler list" where
  "collect_handlers ls [] = []"
| "collect_handlers ls (n # ns) = lg_handlers (getLogger ls n) @
     (if lg_propagate (getLogger ls n) then collect_handlers ls ns else [])"

definition last_resort :: handler where
  "last_resort = \<lparr>h_stream = ''stderr'', h_level = 30, h_format = None\<rparr>"

definition call_handlers :: "loggers \<Rightarrow> string \<Rightarrow> level \<Rightarrow> handler list" where
  "call_handlers ls n lvl =
     (let found = collect_handlers ls (chain n)
      in filter (\<lambda>h. h_level h \<le> lvl) (if found = [] then [last_resort] else found))"

definition handlers_for :: "loggers \<Rightarrow> string \<Rightarrow> level \<Rightarrow> handler list" where
  "handlers_for ls n lvl =
     (if lg_disabled (getLogger ls n) \<or> lvl < effective_level ls (chain n) then []
      else call_handlers ls n lvl)"

subsection \<open>Levels\<close>

definition level_names :: "(string \<times> level) list" where
  "level_names = [(''CRITICAL'', 50), (''FATAL'', 50), (''ERROR'', 40), (''WARN'', 30), (''WARNING'', 30),
     (''INFO'', 20), (''DEBUG'', 10), (''NOTSET'', 0)]"

text \<open>\<^verbatim>\<open>logging.getLevelName\<close> of a string: a number, or a text for a name it does not know.\<close>

datatype level_arg = Level level | Level_Text string

definition getLevelName :: "string \<Rightarrow> level_arg" where
  "getLevelName s = (case map_of level_names s of Some l \<Rightarrow> Level l | None \<Rightarrow> Level_Text (''Level '' @ s))"

definition check_level :: "level_arg \<Rightarrow> level result" where
  "check_level a = (case a of
      Level l \<Rightarrow> Inr l
    | Level_Text s \<Rightarrow> (case map_of level_names s of
          Some l \<Rightarrow> Inr l | None \<Rightarrow> Inl (UnexpectedError ''ValueError'')))"

definition setLevel :: "string \<Rightarrow> level_arg \<Rightarrow> loggers \<Rightarrow> unit result \<times> loggers" where
  "setLevel n a ls = (case check_level a of
      Inl e \<Rightarrow> (Inl e, ls)
    | Inr l \<Rightarrow> (Inr (), on_logger n (lg_level_update (\<lambda>_. l)) ls))"

text \<open>\<^verbatim>\<open>logging.basicConfig(force=True)\<close>: the handlers first, then the level.\<close>

definition basicConfig :: "level_arg \<Rightarrow> string \<Rightarrow> string \<Rightarrow> handler list \<Rightarrow> loggers \<Rightarrow> unit result \<times> loggers" where
  "basicConfig a fmt datefmt hs ls = setLevel [] a
     (on_logger [] (lg_handlers_update (\<lambda>_.
        map (\<lambda>h. if h_format h = None then h\<lparr>h_format := Some (fmt, datefmt)\<rparr> else h) hs)) ls)"

subsection \<open>The set-up\<close>

definition then_do :: "unit result \<times> loggers \<Rightarrow> (loggers \<Rightarrow> unit result \<times> loggers) \<Rightarrow> unit result \<times> loggers" where
  "then_do m f = (case m of (Inl e, ls) \<Rightarrow> (Inl e, ls) | (Inr _, ls) \<Rightarrow> f ls)"

fun for_each :: "string list \<Rightarrow> (string \<Rightarrow> loggers \<Rightarrow> unit result \<times> loggers) \<Rightarrow> loggers \<Rightarrow> unit result \<times> loggers" where
  "for_each [] f ls = (Inr (), ls)"
| "for_each (n # ns) f ls = then_do (f n ls) (for_each ns f)"

definition adopt :: "string \<Rightarrow> loggers \<Rightarrow> loggers" where
  "adopt n = on_logger n (\<lambda>l. l\<lparr>lg_handlers := [], lg_propagate := True\<rparr>)"

definition uvicorn_loggers :: "string list" where
  "uvicorn_loggers = [''uvicorn'', ''uvicorn.error'', ''uvicorn.access'']"

definition noisy_sql_loggers :: "string list" where
  "noisy_sql_loggers = [''sqlalchemy'', ''sqlalchemy.engine'', ''sqlalchemy.orm'', ''sqlalchemy.pool'', ''alembic'']"

definition log_format :: "string \<times> string" where
  "log_format = (''%(asctime)s [%(levelname)s] %(name)s - %(message)s'', ''%Y-%m-%d %H:%M:%S'')"

definition setup_logging :: "settings \<Rightarrow> loggers \<Rightarrow> unit result \<times> loggers" where
  "setup_logging S ls =
     (let level = getLevelName (LOG_LEVEL S)
      in then_do (basicConfig level (fst log_format) (snd log_format)
             [\<lparr>h_stream = ''stdout'', h_level = 0, h_format = None\<rparr>] ls) (\<lambda>ls.
         then_do (for_each uvicorn_loggers (\<lambda>n ls. setLevel n level (adopt n ls)) ls) (\<lambda>ls.
         then_do (for_each noisy_sql_loggers (\<lambda>n ls. (Inr (), adopt n ls)) ls) (\<lambda>ls.
         then_do (setLevel ''sqlalchemy'' level ls) (\<lambda>ls.
         then_do (setLevel ''alembic'' level ls) (\<lambda>ls.
         then_do (setLevel ''sqlalchemy.engine'' (Level 30) ls) (\<lambda>ls.
         then_do (setLevel ''sqlalchemy.orm'' (Level 30) ls) (\<lambda>ls.
         setLevel ''sqlalchemy.pool'' (Level 40) ls))))))))"

subsection \<open>What the set-up leaves\<close>

definition console :: handler where
  "console = \<lparr>h_stream = ''stdout'', h_level = 0, h_format = Some log_format\<rparr>"

definition named_levels :: "level \<Rightarrow> (string \<times> level) list" where
  "named_levels l = [(''uvicorn'', l), (''uvicorn.error'', l), (''uvicorn.access'', l), (''sqlalchemy'', l),
     (''alembic'', l), (''sqlalchemy.engine'', 30), (''sqlalchemy.orm'', 30), (''sqlalchemy.pool'', 40)]"

definition configured :: "level \<Rightarrow> loggers \<Rightarrow> loggers" where
  "configured l ls n =
     (if n = [] then Some ((getLogger ls [])\<lparr>lg_level := l, lg_handlers := [console]\<rparr>)
      else case map_of (named_levels l) n of
        Some m \<Rightarrow> Some ((getLogger ls n)\<lparr>lg_level := m, lg_handlers := [], lg_propagate := True\<rparr>)
      | None \<Rightarrow> ls n)"

lemma getLogger_on_logger [simp]:
  "getLogger (on_logger n f ls) m = (if m = n then f (getLogger ls n) else getLogger ls m)"
  by (simp add: getLogger_def on_logger_def)

lemma on_logger_apply: "on_logger n f ls m = (if m = n then Some (f (getLogger ls n)) else ls m)"
  by (simp add: on_logger_def)

lemma then_do_simps [simp]:
  "then_do (Inl e, ls) f = (Inl e, ls)" "then_do (Inr u, ls) f = f ls"
  by (simp_all add: then_do_def)

lemma setLevel_Level [simp]: "setLevel n (Level l) ls = (Inr (), on_logger n (lg_level_update (\<lambda>_. l)) ls)"
  by (simp add: setLevel_def check_level_def)

lemma setup_known:
  assumes "map_of level_names (LOG_LEVEL S) = Some l"
  shows "setup_logging S ls = (Inr (), configured l ls)"
proof -
  have "getLevelName (LOG_LEVEL S) = Level l" by (simp add: getLevelName_def assms)
  then show ?thesis
    by (simp add: setup_logging_def basicConfig_def uvicorn_loggers_def noisy_sql_loggers_def adopt_def)
      (auto simp: fun_eq_iff configured_def on_logger_apply named_levels_def console_def)
qed

lemma level_text_unknown: "map_of level_names (''Level '' @ s) = None"
  by (simp add: level_names_def)

lemma setup_unknown:
  assumes "map_of level_names (LOG_LEVEL S) = None"
  shows "fst (setup_logging S ls) = Inl (UnexpectedError ''ValueError'')"
  using assms level_text_unknown [of "LOG_LEVEL S"]
  by (simp add: setup_logging_def basicConfig_def getLevelName_def setLevel_def check_level_def)

lemma setup_succeeds_iff: "fst (setup_logging S ls) = Inr () \<longleftrightarrow> LOG_LEVEL S \<in> set (map fst level_names)"
proof (cases "map_of level_names (LOG_LEVEL S)")
  case None
  with setup_unknown [OF None, of ls] show ?thesis by (auto simp: map_of_eq_None_iff)
next
  case (Some l)
  then have "LOG_LEVEL S \<in> fst ` set level_names" by (meson domI domIff map_of_eq_None_iff)
  with setup_known [OF Some, of ls] show ?thesis by simp
qed

lemma setup_idempotent:
  assumes "fst (setup_logging S ls) = Inr ()"
  shows "setup_logging S (snd (setup_logging S ls)) = setup_logging S ls"
proof -
  obtain l where l: "map_of level_names (LOG_LEVEL S) = Some l"
    using setup_unknown [of S ls] assms by (cases "map_of level_names (LOG_LEVEL S)") auto
  have "configured l (configured l ls) = configured l ls"
    by (auto simp: fun_eq_iff configured_def getLogger_def split: option.split)
  then show ?thesis by (simp add: setup_known [OF l])
qed

subsection \<open>Who handles a record\<close>

text \<open>
  A logger inherits when it is not disabled and nothing between it and the root, but the
  loggers the set-up names, has a level, a handler or a stopped propagation of its own.
\<close>

definition plain :: "loggers \<Rightarrow> string \<Rightarrow> bool" where
  "plain ls n \<longleftrightarrow> lg_level (getLogger ls n) = 0 \<and> lg_handlers (getLogger ls n) = [] \<and>
     lg_propagate (getLogger ls n)"

definition named :: "string \<Rightarrow> bool" where
  "named n \<longleftrightarrow> n = [] \<or> map_of (named_levels 0) n \<noteq> None"

definition inherits :: "loggers \<Rightarrow> string \<Rightarrow> bool" where
  "inherits ls n \<longleftrightarrow> \<not> lg_disabled (getLogger ls n) \<and> list_all (\<lambda>m. named m \<or> plain ls m) (chain n)"

text \<open>The level of the nearest logger the set-up names.\<close>

fun threshold :: "level \<Rightarrow> string list \<Rightarrow> level" where
  "threshold l [] = l"
| "threshold l (n # ns) = (case map_of (named_levels l) n of Some m \<Rightarrow> m | None \<Rightarrow> threshold l ns)"

lemma named_iff: "named n \<longleftrightarrow> n = [] \<or> map_of (named_levels l) n \<noteq> None"
  by (simp add: named_def named_levels_def)

lemma named_levels_nonzero: "l \<noteq> 0 \<Longrightarrow> map_of (named_levels l) n = Some m \<Longrightarrow> m \<noteq> 0"
  by (auto simp: named_levels_def split: if_splits)

lemma named_levels_Nil [simp]: "map_of (named_levels l) [] = None"
  by (simp add: named_levels_def)

lemma getLogger_configured:
  "getLogger (configured l ls) n =
     (if n = [] then (getLogger ls [])\<lparr>lg_level := l, lg_handlers := [console]\<rparr>
      else case map_of (named_levels l) n of
        Some m \<Rightarrow> (getLogger ls n)\<lparr>lg_level := m, lg_handlers := [], lg_propagate := True\<rparr>
      | None \<Rightarrow> getLogger ls n)"
  by (simp add: getLogger_def configured_def split: option.split)

lemma dotted_prefixes_nonempty: "i \<le> length n \<Longrightarrow> [] \<notin> set (dotted_prefixes n i)"
  by (induction n i rule: dotted_prefixes.induct) auto

lemma chain_ends_at_root:
  obtains ns where "chain n = ns @ [[]]" and "[] \<notin> set ns"
  using dotted_prefixes_nonempty [of "length n" n] that [of "[]"] that [of "n # dotted_prefixes n (length n)"]
  by (cases "n = []") (auto simp: chain_def)

lemma configured_effective:
  assumes "l \<noteq> 0" and "list_all (\<lambda>m. named m \<or> plain ls m) ns" and "[] \<notin> set ns"
  shows "effective_level (configured l ls) (ns @ [[]]) = threshold l (ns @ [[]])"
  using assms(2,3) named_levels_nonzero [OF assms(1)] assms(1)
  by (induction ns) (auto simp: getLogger_configured named_iff [of _ l] plain_def split: option.split)

lemma configured_collect:
  assumes "list_all (\<lambda>m. named m \<or> plain ls m) ns" and "[] \<notin> set ns"
  shows "collect_handlers (configured l ls) (ns @ [[]]) = [console]"
  using assms
  by (induction ns) (auto simp: getLogger_configured named_iff [of _ l] plain_def split: option.split)

lemma configured_handlers:
  assumes "l \<noteq> 0" and "inherits ls n" and "0 \<le> lvl"
  shows "handlers_for (configured l ls) n lvl = (if threshold l (chain n) \<le> lvl then [console] else [])"
proof -
  obtain ns where ns: "chain n = ns @ [[]]" "[] \<notin> set ns" by (rule chain_ends_at_root)
  with assms(2) have ok: "list_all (\<lambda>m. named m \<or> plain ls m) ns" by (simp add: inherits_def)
  have "\<not> lg_disabled (getLogger (configured l ls) n)"
    using assms(2) by (auto simp: inherits_def getLogger_configured split: option.split)
  then show ?thesis
    using assms(3) configured_effective [OF assms(1) ok ns(2)] configured_collect [OF ok ns(2), of l]
    by (simp add: handlers_for_def call_handlers_def ns(1) console_def)
qed

subsection \<open>The echoing engine\<close>

text \<open>
  \<^verbatim>\<open>app/db/session.py\<close> creates the engine with \<^verbatim>\<open>echo=True\<close>.  As SQLAlchemy documents the flag, the
  engine's logger gets a handler on the standard output if it has none, and the record of a
  statement (at \<^verbatim>\<open>INFO\<close>) goes to that logger's handlers and those it propagates to, whatever
  level the logging configuration has set.
\<close>

abbreviation engine_logger :: string where
  "engine_logger \<equiv> ''sqlalchemy.engine.Engine''"

definition import_session :: "(bool \<Rightarrow> loggers \<Rightarrow> loggers) \<Rightarrow> loggers \<Rightarrow> loggers" where
  "import_session create_engine ls = create_engine True ls"

locale engine_echo =
  fixes create_engine :: "bool \<Rightarrow> loggers \<Rightarrow> loggers"
    and statement_record :: "bool \<Rightarrow> loggers \<Rightarrow> handler list"
    and echo_handler :: handler
  assumes create_adds: "lg_handlers (getLogger ls engine_logger) = [] \<Longrightarrow>
      create_engine True ls = on_logger engine_logger (lg_handlers_update (\<lambda>_. [echo_handler])) ls"
    and statement_emitted: "\<not> lg_disabled (getLogger ls engine_logger) \<Longrightarrow>
      statement_record True ls = call_handlers ls engine_logger 20"
    and echo_handler_level: "h_level echo_handler = 0"
begin

lemma engine_chain: "chain engine_logger = [engine_logger, ''sqlalchemy.engine'', ''sqlalchemy'', []]"
  by (simp add: chain_def)

lemma echoed_engine:
  assumes "inherits ls engine_logger"
  shows "create_engine True ls = on_logger engine_logger (lg_handlers_update (\<lambda>_. [echo_handler])) ls"
    and "lg_level (getLogger ls engine_logger) = 0" and "lg_propagate (getLogger ls engine_logger)"
    and "\<not> lg_disabled (getLogger ls engine_logger)"
  using assms create_adds [of ls]
  by (simp_all add: inherits_def engine_chain named_def named_levels_def plain_def)

lemma statement_twice:
  assumes "inherits ls engine_logger"
  shows "statement_record True (configured l (create_engine True ls)) = [echo_handler, console]"
  using echoed_engine [OF assms] echo_handler_level
  by (simp add: statement_emitted getLogger_configured named_levels_def call_handlers_def engine_chain console_def)

lemma level_bypassed:
  assumes "inherits ls engine_logger"
  shows "handlers_for (configured l (create_engine True ls)) engine_logger 20 = []"
  using echoed_engine [OF assms]
  by (simp add: handlers_for_def engine_chain getLogger_configured named_levels_def)

lemma other_loggers_inherit:
  assumes "inherits ls engine_logger" and "inherits ls n" and "engine_logger \<notin> set (chain n)"
  shows "inherits (create_engine True ls) n"
proof -
  have "n \<in> set (chain n)" by (simp add: chain_def)
  with assms(3) have "n \<noteq> engine_logger" by blast
  moreover from assms(3) have "list_all (\<lambda>m. named m \<or> plain ls m) (chain n) =
      list_all (\<lambda>m. named m \<or> plain (create_engine True ls) m) (chain n)"
    by (intro list.pred_cong refl) (auto simp: echoed_engine(1) [OF assms(1)] plain_def)
  ultimately show ?thesis using assms(2) by (simp add: inherits_def echoed_engine(1) [OF assms(1)])
qed

end

text \<open>The reference engine does what the documentation says and no more.\<close>

definition reference_echo_handler :: handler where
  "reference_echo_handler = \<lparr>h_stream = ''stdout'', h_level = 0,
     h_format = Some (''%(asctime)s %(levelname)s %(name)s %(message)s'', [])\<rparr>"

definition reference_create :: "bool \<Rightarrow> loggers \<Rightarrow> loggers" where
  "reference_create echo ls =
     (if echo \<and> lg_handlers (getLogger ls engine_logger) = []
      then on_logger engine_logger (lg_handlers_update (\<lambda>_. [reference_echo_handler])) ls else ls)"

definition reference_statement :: "bool \<Rightarrow> loggers \<Rightarrow> handler list" where
  "reference_statement echo ls =
     (if lg_disabled (getLogger ls engine_logger) then []
      else if echo then call_handlers ls engine_logger 20 else handlers_for ls engine_logger 20)"

interpretation ref_echo: engine_echo reference_create reference_statement reference_echo_handler
  by unfold_locales (simp_all add: reference_create_def reference_statement_def reference_echo_handler_def)

text \<open>
  C22: after a start-up (\<^verbatim>\<open>app/db/session.py\<close> is imported and creates the engine, then
  \<^verbatim>\<open>setup_logging\<close> runs) with a level name that Python knows and other than \<^verbatim>\<open>NOTSET\<close>, a record
  of any logger that inherits is written exactly once, by the console handler of the root,
  when its level reaches that of the nearest logger the set-up names, and otherwise not at
  all.  SQL statements are the exception: although \<^verbatim>\<open>sqlalchemy.engine\<close> is set to \<^verbatim>\<open>WARNING\<close>, each
  is written, and twice, at every configured level, since the handler that the echoing
  engine installed on its own logger is not among those the set-up clears.
\<close>

theorem records_after_startup:
  assumes "engine_echo create_engine statement_record echo_handler"
    and "map_of level_names (LOG_LEVEL S) = Some l" and "l \<noteq> 0"
    and "inherits ls engine_logger" and "inherits ls n" and "engine_logger \<notin> set (chain n)" and "0 \<le> lvl"
  shows "\<exists>ls'. setup_logging S (import_session create_engine ls) = (Inr (), ls') \<and>
    handlers_for ls' n lvl = (if threshold l (chain n) \<le> lvl then [console] else []) \<and>
    handlers_for ls' engine_logger 20 = [] \<and>
    statement_record True ls' = [echo_handler, console]"
  using configured_handlers [OF assms(3) engine_echo.other_loggers_inherit [OF assms(1,4-6)] assms(7)]
    engine_echo.statement_twice [OF assms(1,4)] engine_echo.level_bypassed [OF assms(1,4)]
  by (simp add: setup_known [OF assms(2)] import_session_def)

theorem records_after_startup_witness:
  "\<exists>ls'. setup_logging default_settings (import_session reference_create Map.empty) = (Inr (), ls') \<and>
    handlers_for ls' ''sqlalchemy.pool.impl'' 30 = [] \<and>
    reference_statement True ls' = [reference_echo_handler, console]"
proof -
  have chains: "chain ''sqlalchemy.pool.impl'' = [''sqlalchemy.pool.impl'', ''sqlalchemy.pool'', ''sqlalchemy'', []]"
    "chain engine_logger = [engine_logger, ''sqlalchemy.engine'', ''sqlalchemy'', []]"
    by (simp_all add: chain_def)
  have level: "map_of level_names (LOG_LEVEL default_settings) = Some 20"
    by (simp add: level_names_def default_settings_def)
  have inh: "inherits Map.empty engine_logger" "inherits Map.empty ''sqlalchemy.pool.impl''"
    by (simp_all add: inherits_def chains plain_def getLogger_def new_logger_def)
  show ?thesis
    using records_after_startup [OF ref_echo.engine_echo_axioms level _ inh, of 30]
    by (auto simp: chains named_levels_def)
qed

end
