(* ===== verification/Processes.thy ===== *)
theory Processes
  imports Logging
begin

text \<open>
  The life of the two processes, the web application (\<^verbatim>\<open>app/main.py\<close>) and the scheduler
  (\<^verbatim>\<open>app/scheduler_main.py\<close>): the logging set-up, the start-up guard, Sentry (\<^verbatim>\<open>app/core/sentry.py\<close>), the lazy
  Redis connection (\<^verbatim>\<open>app/redis_client/client.py\<close>), and the shutdown that closes it.
  Connections are numbered in the order they are opened.
\<close>

subsection \<open>The Redis connection\<close>

record redis_client =
  rc_current :: "nat option"
  rc_open :: "nat list"
  rc_next :: nat

definition no_client :: redis_client where
  "no_client = \<lparr>rc_current = None, rc_open = [], rc_next = 0\<rparr>"

definition get_redis :: "redis_client \<Rightarrow> nat \<times> redis_client" where
  "get_redis c =
     (case rc_current c of
        Some i \<Rightarrow> (i, c)
      | None \<Rightarrow> (rc_next c,
          \<lparr>rc_current = Some (rc_next c), rc_open = rc_open c @ [rc_next c], rc_next = rc_next c + 1\<rparr>))"

definition close_redis :: "redis_client \<Rightarrow> redis_client" where
  "close_redis c =
     (case rc_current c of
        None \<Rightarrow> c
      | Some i \<Rightarrow> c\<lparr>rc_current := None, rc_open := removeAll i (rc_open c)\<rparr>)"

subsection \<open>Start-up\<close>

record sentry_options =
  so_dsn :: string
  so_traces_sample_rate :: rat
  so_environment :: string
  so_release :: string

definition init_sentry :: "settings \<Rightarrow> string \<Rightarrow> sentry_options option" where
  "init_sentry S release =
     (if SENTRY_DSN S = [] then None
      else Some \<lparr>so_dsn = SENTRY_DSN S, so_traces_sample_rate = SENTRY_TRACES_SAMPLE_RATE S,
        so_environment = ENVIRONMENT S, so_release = release\<rparr>)"

datatype process_phase = Refused exc | Serving | Cleaning | Stopped

record process =
  pr_phase :: process_phase
  pr_client :: redis_client
  pr_sentry :: "sentry_options option"
  pr_loggers :: loggers

text \<open>
  Both entry points begin alike: their imports create the engine, which echoes; then logging
  is set up, the guard checks the secret, and Sentry is initialised.  \<open>create_engine\<close> is what
  an engine does to the loggers.
\<close>

definition start_process :: "(bool \<Rightarrow> loggers \<Rightarrow> loggers) \<Rightarrow> settings \<Rightarrow> string \<Rightarrow> loggers \<Rightarrow> process" where
  "start_process create_engine S version ls =
     (let (logged, ls') = setup_logging S (import_session create_engine ls);
          p = \<lparr>pr_phase = Serving, pr_client = no_client, pr_sentry = None, pr_loggers = ls'\<rparr>
      in case logged of
           Inl e \<Rightarrow> p\<lparr>pr_phase := Refused e\<rparr>
         | Inr _ \<Rightarrow>
             (case validate_jwt_secret S of
                Inl e \<Rightarrow> p\<lparr>pr_phase := Refused e\<rparr>
              | Inr _ \<Rightarrow> p\<lparr>pr_sentry := init_sentry S version\<rparr>))"

subsection \<open>Lives\<close>

text \<open>
  \<open>work\<close> is a request, or a run of the job: it asks for the connection any number of times.
  The web application stops through its lifespan; the scheduler's signal handler ends the
  schedule and leaves the cleaning to a task, which then stops the loop.
\<close>

inductive web_step :: "process \<Rightarrow> process \<Rightarrow> bool" where
  work: "pr_phase p = Serving \<Longrightarrow> web_step p (p\<lparr>pr_client := snd (get_redis (pr_client p))\<rparr>)"
| lifespan_end: "pr_phase p = Serving \<Longrightarrow>
    web_step p (p\<lparr>pr_phase := Stopped, pr_client := close_redis (pr_client p)\<rparr>)"

inductive scheduler_step :: "process \<Rightarrow> process \<Rightarrow> bool" where
  run: "pr_phase p = Serving \<Longrightarrow> scheduler_step p (p\<lparr>pr_client := snd (get_redis (pr_client p))\<rparr>)"
| shutdown: "pr_phase p = Serving \<Longrightarrow> scheduler_step p (p\<lparr>pr_phase := Cleaning\<rparr>)"
| cleanup_and_stop: "pr_phase p = Cleaning \<Longrightarrow>
    scheduler_step p (p\<lparr>pr_phase := Stopped, pr_client := close_redis (pr_client p)\<rparr>)"

definition client_ok :: "redis_client \<Rightarrow> bool" where
  "client_ok c \<longleftrightarrow> rc_open c = (case rc_current c of None \<Rightarrow> [] | Some i \<Rightarrow> [i])"

lemma client_ok_no_client [simp]: "client_ok no_client"
  by (simp add: client_ok_def no_client_def)

lemma client_ok_get: "client_ok c \<Longrightarrow> client_ok (snd (get_redis c)) \<and> rc_open (snd (get_redis c)) = [fst (get_redis c)]"
  by (auto simp: client_ok_def get_redis_def split: option.splits)

lemma client_ok_close: "client_ok c \<Longrightarrow> client_ok (close_redis c) \<and> rc_open (close_redis c) = []"
  by (auto simp: client_ok_def close_redis_def split: option.splits)

text \<open>Two requests for the connection get the same one.\<close>

lemma get_redis_twice: "get_redis (snd (get_redis c)) = (fst (get_redis c), snd (get_redis c))"
  by (simp add: get_redis_def split: option.split)

text \<open>What start-up demands of the settings.\<close>

definition admitted :: "settings \<Rightarrow> unit result" where
  "admitted S =
     (if LOG_LEVEL S \<notin> set (map fst level_names) then Inl (UnexpectedError ''ValueError'')
      else validate_jwt_secret S)"

definition process_ok :: "settings \<Rightarrow> process \<Rightarrow> bool" where
  "process_ok S p \<longleftrightarrow> client_ok (pr_client p) \<and>
     (case pr_phase p of
        Refused e \<Rightarrow> admitted S = Inl e \<and> rc_open (pr_client p) = [] \<and> pr_sentry p = None
      | Stopped \<Rightarrow> admitted S = Inr () \<and> rc_open (pr_client p) = []
      | _ \<Rightarrow> admitted S = Inr ())"

lemma start_process_ok: "process_ok S (start_process create_engine S version ls)"
proof (cases "map_of level_names (LOG_LEVEL S)")
  case None
  then have "LOG_LEVEL S \<notin> fst ` set level_names" by (simp add: map_of_eq_None_iff)
  with setup_unknown [OF None, of "import_session create_engine ls"] show ?thesis
    by (auto simp: process_ok_def admitted_def start_process_def Let_def no_client_def client_ok_def split: prod.splits)
next
  case (Some l)
  then have "LOG_LEVEL S \<in> fst ` set level_names" by (meson domI domIff map_of_eq_None_iff)
  then show ?thesis
    by (auto simp: process_ok_def admitted_def start_process_def Let_def no_client_def client_ok_def setup_known [OF Some]
        split: sum.split)
qed

lemma step_process_ok:
  assumes "web_step p q \<or> scheduler_step p q" and "process_ok S p"
  shows "process_ok S q"
  using assms client_ok_get [of "pr_client p"] client_ok_close [of "pr_client p"]
  by (auto simp: process_ok_def elim!: web_step.cases scheduler_step.cases)

text \<open>
  A process serves only with a level name that Python knows and an accepted secret, holds at
  most one Redis connection, the one every part of it gets, and has none open once it has
  stopped; one that was refused has opened nothing and reports to nobody.
\<close>

theorem process_lifecycle:
  assumes "web_step\<^sup>*\<^sup>* (start_process create_engine S version ls) p \<or>
    scheduler_step\<^sup>*\<^sup>* (start_process create_engine S version ls) p"
  shows "length (rc_open (pr_client p)) \<le> 1 \<and>
    (case pr_phase p of
       Refused e \<Rightarrow> admitted S = Inl e \<and> rc_open (pr_client p) = [] \<and> pr_sentry p = None
     | Stopped \<Rightarrow> admitted S = Inr () \<and> rc_open (pr_client p) = []
     | _ \<Rightarrow> admitted S = Inr () \<and>
         (\<forall>i. rc_current (pr_client p) = Some i \<longrightarrow> rc_open (pr_client p) = [i]))"
proof -
  let ?start = "start_process create_engine S version ls"
  have "process_ok S q" if "web_step\<^sup>*\<^sup>* ?start q" for q
    using that by (induction rule: rtranclp_induct) (auto intro: start_process_ok step_process_ok)
  moreover have "process_ok S q" if "scheduler_step\<^sup>*\<^sup>* ?start q" for q
    using that by (induction rule: rtranclp_induct) (auto intro: start_process_ok step_process_ok)
  ultimately have "process_ok S p" using assms by blast
  then show ?thesis
    by (auto simp: process_ok_def client_ok_def split: process_phase.splits option.splits)
qed

end
