(* ===== verification/Exposition.thy ===== *)
theory Exposition
  imports Recalc_Runs Parcel_Service
begin

text \<open>
  Where the metrics of \<^verbatim>\<open>app/core/metrics.py\<close> are kept.  The counters are objects of a Python
  process: each worker of the web application (\<^verbatim>\<open>GET /metrics\<close>) and the scheduler process, which
  serves no HTTP, has its own.  The other theories let all processes share one set; the
  theorem says that this set is the sum, and what a scrape of one worker can see of it.
\<close>

datatype process_id = Worker nat | Scheduler

record 'r fleet =
  fl_db :: db
  fl_redis :: 'r
  fl_metrics :: "process_id \<Rightarrow> metrics"

text \<open>What happens, by which process: the fourth is any change by a part without metrics.\<close>

datatype 'r fleet_event =
    Created nat ident parcel_create ident
  | Triggered nat rate_source run_times
  | Ticked rate_source run_times
  | Elsewhere db 'r

definition seen_by :: "process_id \<Rightarrow> 'r fleet \<Rightarrow> 'r app" where
  "seen_by p s = \<lparr>app_db = fl_db s, app_redis = fl_redis s, app_metrics = fl_metrics s p\<rparr>"

definition left_by :: "process_id \<Rightarrow> 'r app \<Rightarrow> 'r fleet \<Rightarrow> 'r fleet" where
  "left_by p a s = \<lparr>fl_db = app_db a, fl_redis = app_redis a, fl_metrics = (fl_metrics s)(p := app_metrics a)\<rparr>"

fun event_process :: "'r fleet_event \<Rightarrow> process_id" where
  "event_process (Created n i data owner) = Worker n"
| "event_process (Triggered n H tm) = Worker n"
| "event_process _ = Scheduler"

text \<open>The effect of an event on the state of one process.\<close>

fun event_effect :: "settings \<Rightarrow> engine \<Rightarrow> 'r redis_ops \<Rightarrow> 'r fleet_event \<Rightarrow> 'r app \<Rightarrow> 'r app option" where
  "event_effect S E R (Created n i data owner) a = Some (snd (create_from_dto S E i data owner a))"
| "event_effect S E R (Triggered n H tm) a = map_option snd (manual_recalc S E R H tm a)"
| "event_effect S E R (Ticked H tm) a = map_option snd (recalc_delivery_costs S E R H tm a)"
| "event_effect S E R (Elsewhere d r) a = Some (a\<lparr>app_db := d, app_redis := r\<rparr>)"

fun fleet_run :: "settings \<Rightarrow> engine \<Rightarrow> 'r redis_ops \<Rightarrow> 'r fleet_event list \<Rightarrow> 'r fleet \<Rightarrow> 'r fleet option" where
  "fleet_run S E R [] s = Some s"
| "fleet_run S E R (e # es) s =
     (case event_effect S E R e (seen_by (event_process e) s) of
        None \<Rightarrow> None | Some a \<Rightarrow> fleet_run S E R es (left_by (event_process e) a s))"

text \<open>The view of the other theories: one set of metrics.\<close>

fun shared_run :: "settings \<Rightarrow> engine \<Rightarrow> 'r redis_ops \<Rightarrow> 'r fleet_event list \<Rightarrow> 'r app \<Rightarrow> 'r app option" where
  "shared_run S E R [] a = Some a"
| "shared_run S E R (e # es) a =
     (case event_effect S E R e a of None \<Rightarrow> None | Some a' \<Rightarrow> shared_run S E R es a')"

definition scrape :: "nat \<Rightarrow> 'r fleet \<Rightarrow> metrics" where
  "scrape n s = fl_metrics s (Worker n)"

definition fresh_fleet :: "db \<Rightarrow> 'r \<Rightarrow> 'r fleet" where
  "fresh_fleet d r = \<lparr>fl_db = d, fl_redis = r, fl_metrics = (\<lambda>_. init_metrics)\<rparr>"

subsection \<open>Metrics are written, never read\<close>

definition metric_update :: "(metrics \<Rightarrow> metrics) \<Rightarrow> bool" where
  "metric_update g \<longleftrightarrow> g = id \<or> (\<exists>t. g = count_created t) \<or> (\<exists>d u. g = record_run d u)"

text \<open>With any metrics, an event does the same to database and Redis and the same to the metrics.\<close>

definition oblivious :: "('r app \<Rightarrow> 'r app option) \<Rightarrow> bool" where
  "oblivious f \<longleftrightarrow> (\<forall>a. (\<forall>m. f (a\<lparr>app_metrics := m\<rparr>) = None) \<or>
     (\<exists>d r g. metric_update g \<and>
        (\<forall>m. f (a\<lparr>app_metrics := m\<rparr>) = Some \<lparr>app_db = d, app_redis = r, app_metrics = g m\<rparr>)))"

lemma app_cases_metrics: "(a :: 'r app)\<lparr>app_metrics := m\<rparr> = \<lparr>app_db = app_db a, app_redis = app_redis a, app_metrics = m\<rparr>"
  by (cases a) simp

lemma create_oblivious: "oblivious (\<lambda>a. Some (snd (create_from_dto S E i data owner a)))"
proof -
  have "\<exists>d r g. metric_update g \<and> (\<forall>m. snd (create_from_dto S E i data owner (a\<lparr>app_metrics := m\<rparr>)) =
      \<lparr>app_db = d, app_redis = r, app_metrics = g m\<rparr>)" for a :: "'r app"
  proof (cases "fst (create_from_dto S E i data owner a)")
    case (Inl e)
    have "snd (create_from_dto S E i data owner (a\<lparr>app_metrics := m\<rparr>)) =
        \<lparr>app_db = app_db a, app_redis = app_redis a, app_metrics = id m\<rparr>" for m
      using Inl by (auto simp: create_from_dto_def commit_new_def Let_def app_cases_metrics split: if_splits sum.splits prod.splits)
    then show ?thesis unfolding metric_update_def by blast
  next
    case (Inr p)
    have "snd (create_from_dto S E i data owner (a\<lparr>app_metrics := m\<rparr>)) =
        \<lparr>app_db = app_db (snd (create_from_dto S E i data owner a)), app_redis = app_redis a,
         app_metrics = count_created (pc_parcel_type_id data) m\<rparr>" for m
      using Inr by (auto simp: create_from_dto_def commit_new_def Let_def app_cases_metrics split: if_splits sum.splits prod.splits)
    then show ?thesis unfolding metric_update_def by blast
  qed
  then show ?thesis unfolding oblivious_def by auto
qed

lemma recalc_oblivious:
  fixes R :: "'r redis_ops"
  shows "oblivious (\<lambda>a. map_option snd (recalc_delivery_costs S E R H tm a))"
proof -
  have "(\<forall>m. map_option snd (recalc_delivery_costs S E R H tm (a\<lparr>app_metrics := m\<rparr>)) = None) \<or>
    (\<exists>d r g. metric_update g \<and> (\<forall>m. map_option snd (recalc_delivery_costs S E R H tm (a\<lparr>app_metrics := m\<rparr>)) =
      Some \<lparr>app_db = d, app_redis = r, app_metrics = g m\<rparr>))" for a :: "'r app"
  proof -
    obtain r1 got where lock: "acquire_lock S R (at_lock tm) (app_redis a) = (r1, got)" by fastforce
    obtain rres r2 where rate: "get_usd_rub_rate S R H (at_rate tm) r1 = (rres, r2)" by fastforce
    have id: "metric_update id" by (simp add: metric_update_def)
    have rec: "metric_update (record_run d u)" for d u by (auto simp: metric_update_def)
    show ?thesis
    proof (cases "got \<and> (\<exists>rate. rres = Inr rate)")
      case False
      then show ?thesis
        using lock rate id by (cases rres; cases got) (fastforce simp: recalc_delivery_costs_def app_cases_metrics)+
    next
      case True
      then obtain c where c: "got" "rres = Inr c" by blast
      show ?thesis
      proof (cases "recalc_loop S E c 0 (app_db a)")
        case None
        then show ?thesis using lock rate c by (simp add: recalc_delivery_costs_def)
      next
        case (Some x)
        obtain res d where x: "x = (res, d)" by (cases x)
        show ?thesis
        proof (cases res)
          case (Inl e)
          have "map_option snd (recalc_delivery_costs S E R H tm (a\<lparr>app_metrics := m\<rparr>)) =
              Some \<lparr>app_db = d, app_redis = r2, app_metrics = id m\<rparr>" for m
            using lock rate c Some x Inl by (simp add: recalc_delivery_costs_def app_cases_metrics)
          with id show ?thesis by blast
        next
          case (Inr u)
          have "map_option snd (recalc_delivery_costs S E R H tm (a\<lparr>app_metrics := m\<rparr>)) =
              Some \<lparr>app_db = d, app_redis = run_metadata R (at_done tm) u r2,
                app_metrics = record_run (at_done tm - at_lock tm) u m\<rparr>" for m
            using lock rate c Some x Inr by (simp add: recalc_delivery_costs_def app_cases_metrics)
          with rec show ?thesis by blast
        qed
      qed
    qed
  qed
  then show ?thesis unfolding oblivious_def by blast
qed

lemma event_oblivious: "oblivious (event_effect S E R e)"
proof (cases e)
  case (Created n i data owner)
  then have "event_effect S E R e = (\<lambda>a. Some (snd (create_from_dto S E i data owner a)))" by (simp add: fun_eq_iff)
  then show ?thesis by (simp only: create_oblivious)
next
  case (Triggered n H tm)
  have "manual_recalc S E R H tm (a\<lparr>app_metrics := m\<rparr>) = recalc_delivery_costs S E R H tm
      (a\<lparr>app_redis := r_delete R (app_redis a) (at_lock tm) ''delivery_job_lock''\<rparr>\<lparr>app_metrics := m\<rparr>)" for a m
    by (simp add: manual_recalc_def app_cases_metrics)
  with Triggered recalc_oblivious [of S E R H tm] show ?thesis unfolding oblivious_def by simp
next
  case (Ticked H tm)
  then have "event_effect S E R e = (\<lambda>a. map_option snd (recalc_delivery_costs S E R H tm a))"
    by (simp add: fun_eq_iff)
  then show ?thesis by (simp only: recalc_oblivious)
next
  case (Elsewhere d r)
  have "metric_update id" by (simp add: metric_update_def)
  with Elsewhere show ?thesis unfolding oblivious_def by (auto simp: app_cases_metrics intro!: exI [of _ id])
qed

subsection \<open>Sums over the processes\<close>

definition processes :: "nat \<Rightarrow> process_id set" where
  "processes workers = insert Scheduler (Worker ` {..<workers})"

definition agree :: "nat \<Rightarrow> 'r app \<Rightarrow> 'r fleet \<Rightarrow> bool" where
  "agree workers a s \<longleftrightarrow> app_db a = fl_db s \<and> app_redis a = fl_redis s \<and>
     (\<forall>t. PARCELS_CREATED (app_metrics a) t = (\<Sum>p \<in> processes workers. PARCELS_CREATED (fl_metrics s p) t)) \<and>
     DELIVERY_RECALC_PARCELS (app_metrics a) = (\<Sum>p \<in> processes workers. DELIVERY_RECALC_PARCELS (fl_metrics s p)) \<and>
     length (DELIVERY_RECALC_DURATION (app_metrics a)) =
       (\<Sum>p \<in> processes workers. length (DELIVERY_RECALC_DURATION (fl_metrics s p)))"

lemma finite_processes [simp]: "finite (processes workers)"
  by (simp add: processes_def)

lemma sum_one_grows:
  fixes f :: "metrics \<Rightarrow> nat"
  assumes "p \<in> processes workers" and "f (g (ms p)) = f (ms p) + k"
  shows "(\<Sum>q \<in> processes workers. f ((ms(p := g (ms p))) q)) = (\<Sum>q \<in> processes workers. f (ms q)) + k"
proof -
  have "(\<Sum>q \<in> processes workers - {p}. f ((ms(p := g (ms p))) q)) = (\<Sum>q \<in> processes workers - {p}. f (ms q))"
    by (rule sum.cong) auto
  then show ?thesis
    using assms(2) by (simp add: sum.remove [OF finite_processes assms(1)])
qed

lemma metric_update_adds:
  assumes "metric_update g"
  obtains c d u where "\<And>m t. PARCELS_CREATED (g m) t = PARCELS_CREATED m t + c t"
    and "\<And>m. length (DELIVERY_RECALC_DURATION (g m)) = length (DELIVERY_RECALC_DURATION m) + d"
    and "\<And>m. DELIVERY_RECALC_PARCELS (g m) = DELIVERY_RECALC_PARCELS m + u"
  using assms unfolding metric_update_def
proof (elim disjE exE)
  assume "g = id" then show thesis using that [of "\<lambda>_. 0" 0 0] by simp
next
  fix t assume "g = count_created t"
  then show thesis using that [of "\<lambda>t'. if t' = t then 1 else 0" 0 0] by (simp add: count_created_def)
next
  fix d u assume "g = record_run d u"
  then show thesis using that [of "\<lambda>_. 0" 1 u] by (simp add: record_run_def)
qed

lemma oblivious_step:
  assumes "oblivious f" and "agree workers a s" and "p \<in> processes workers" and "f (seen_by p s) = Some b"
  shows "\<exists>a'. f a = Some a' \<and> agree workers a' (left_by p b s)"
proof -
  have same: "seen_by p s = a\<lparr>app_metrics := fl_metrics s p\<rparr>"
    using assms(2) by (simp add: seen_by_def agree_def app_cases_metrics)
  from assms(1,4) obtain d r g where g: "metric_update g"
      "\<And>m. f (a\<lparr>app_metrics := m\<rparr>) = Some \<lparr>app_db = d, app_redis = r, app_metrics = g m\<rparr>"
    unfolding oblivious_def same by (metis option.distinct(1))
  have b: "b = \<lparr>app_db = d, app_redis = r, app_metrics = g (fl_metrics s p)\<rparr>"
    using assms(4) g(2) by (simp add: same)
  have fa: "f a = Some \<lparr>app_db = d, app_redis = r, app_metrics = g (app_metrics a)\<rparr>"
    using g(2) [of "app_metrics a"] by simp
  obtain c k u where adds: "\<And>m t. PARCELS_CREATED (g m) t = PARCELS_CREATED m t + c t"
      "\<And>m. length (DELIVERY_RECALC_DURATION (g m)) = length (DELIVERY_RECALC_DURATION m) + k"
      "\<And>m. DELIVERY_RECALC_PARCELS (g m) = DELIVERY_RECALC_PARCELS m + u"
    using metric_update_adds [OF g(1)] by metis
  note grow = sum_one_grows [OF assms(3), where g = g and ms = "fl_metrics s"]
  have "agree workers \<lparr>app_db = d, app_redis = r, app_metrics = g (app_metrics a)\<rparr> (left_by p b s)"
    using assms(2) grow [of "\<lambda>m. PARCELS_CREATED m t" "c t" for t, OF adds(1)]
      grow [of "\<lambda>m. length (DELIVERY_RECALC_DURATION m)", OF adds(2)] grow [of DELIVERY_RECALC_PARCELS, OF adds(3)]
    by (simp add: agree_def left_by_def b adds)
  with fa show ?thesis by blast
qed

lemma fleet_agrees:
  assumes "fleet_run S E R es s = Some s'" and "agree workers a s"
    and "list_all (\<lambda>e. event_process e \<in> processes workers) es"
  shows "\<exists>a'. shared_run S E R es a = Some a' \<and> agree workers a' s'"
  using assms
proof (induction es arbitrary: s a)
  case Nil
  then show ?case by simp
next
  case (Cons e es)
  let ?p = "event_process e"
  from Cons.prems(1) obtain b where b: "event_effect S E R e (seen_by ?p s) = Some b"
      "fleet_run S E R es (left_by ?p b s) = Some s'" by (auto split: option.splits)
  from Cons.prems(3) have "?p \<in> processes workers" by simp
  from oblivious_step [OF event_oblivious Cons.prems(2) this b(1)]
  obtain a1 where a1: "event_effect S E R e a = Some a1" "agree workers a1 (left_by ?p b s)" by blast
  from Cons.IH [OF b(2) a1(2)] Cons.prems(3) a1(1) show ?case by simp
qed

subsection \<open>What a scrape sees\<close>

definition triggers :: "nat \<Rightarrow> 'r fleet_event \<Rightarrow> bool" where
  "triggers n e = (case e of Triggered k H tm \<Rightarrow> k = n | _ \<Rightarrow> False)"

lemma create_recalc_metrics:
  "DELIVERY_RECALC_PARCELS (app_metrics (snd (create_from_dto S E i data owner a))) =
     DELIVERY_RECALC_PARCELS (app_metrics a)"
  "DELIVERY_RECALC_DURATION (app_metrics (snd (create_from_dto S E i data owner a))) =
     DELIVERY_RECALC_DURATION (app_metrics a)"
  by (auto simp: create_from_dto_def commit_new_def count_created_def Let_def split: sum.splits prod.splits)

lemma untriggered_scrape:
  assumes "fleet_run S E R es s = Some s'" and "\<not> list_ex (triggers n) es"
  shows "DELIVERY_RECALC_PARCELS (scrape n s') = DELIVERY_RECALC_PARCELS (scrape n s) \<and>
    DELIVERY_RECALC_DURATION (scrape n s') = DELIVERY_RECALC_DURATION (scrape n s)"
  using assms
proof (induction es arbitrary: s)
  case Nil
  then show ?case by simp
next
  case (Cons e es)
  from Cons.prems(1) obtain b where b: "event_effect S E R e (seen_by (event_process e) s) = Some b"
      "fleet_run S E R es (left_by (event_process e) b s) = Some s'" by (auto split: option.splits)
  have "\<not> triggers n e" using Cons.prems(2) by simp
  with b(1) have "DELIVERY_RECALC_PARCELS (scrape n (left_by (event_process e) b s)) = DELIVERY_RECALC_PARCELS (scrape n s) \<and>
      DELIVERY_RECALC_DURATION (scrape n (left_by (event_process e) b s)) = DELIVERY_RECALC_DURATION (scrape n s)"
    by (cases e) (auto simp: scrape_def left_by_def seen_by_def triggers_def create_recalc_metrics)
  with Cons.IH [OF b(2)] Cons.prems(2) show ?case by simp
qed



end
