(* ===== verification/Spec2Isabelle.thy ===== *)
theory Spec2Isabelle
  imports Journey Sessions Refresh_Races Schema_Rows Openapi Recalc_Races Register_Races Processes Alembic_Env Exposition
begin

text \<open>
  The Parcel Delivery API: a FastAPI service that registers parcels, computes their delivery
  cost in roubles in a background job, and authenticates callers by JWT access tokens with
  rotating refresh tokens (or, in a deprecated mode, by an anonymous session id).

  \<^bold>\<open>Parts and how they interact.\<close>  HTTP routes (\<^verbatim>\<open>app/api\<close>) validate a payload against a
  schema (\<^verbatim>\<open>app/schemas\<close>), find out who calls, and delegate to services
  (\<^verbatim>\<open>app/services\<close>), which read and write the four tables of \<^verbatim>\<open>app/models\<close>.  The job of
  \<^verbatim>\<open>app/tasks/delivery.py\<close> takes a lock in Redis, obtains one exchange rate (cached in
  Redis, otherwise fetched) and prices the parcels without a cost in batches; a cron
  schedule and an operator route start it.

  \<^bold>\<open>Theories.\<close>
  \<^item> \<open>Prelude\<close>: names of the basic types; conditional update, lookup and pages of rows.
  \<^item> \<open>Errors\<close>: the exceptions, JSON values, and the handlers of \<^verbatim>\<open>app/api/errors.py\<close>.
  \<^item> \<open>Decimals\<close>: Python's \<^verbatim>\<open>Decimal\<close> in the default 28-digit context: exact value, sum,
    product, rounding, \<^verbatim>\<open>str\<close> and parsing.
  \<^item> \<open>Settings\<close>: \<^verbatim>\<open>app/core/settings.py\<close> and the start-up check of the JWT secret.
  \<^item> \<open>Models\<close>: the tables, their constraints (\<open>db_ok\<close>) and the writes the program issues.
    Locale \<open>sql_engine\<close>: what the database does with \<^verbatim>\<open>Numeric\<close> and \<^verbatim>\<open>LIMIT\<close>.
  \<^item> \<open>Redis\<close>: the commands used.  Locale \<open>redis_store\<close>: their meaning over time.
  \<^item> \<open>Rates\<close>: \<^verbatim>\<open>app/services/rates.py\<close>.  Locales \<open>retry_policy\<close>: what \<^verbatim>\<open>tenacity\<close> does, and
    \<open>rate_client\<close>, which adds what \<^verbatim>\<open>httpx\<close> raises.
  \<^item> \<open>Metrics\<close>: \<^verbatim>\<open>app/core/metrics.py\<close> and the process state (database, Redis, metrics).
  \<^item> \<open>Delivery\<close>: \<^verbatim>\<open>app/tasks/delivery.py\<close> and the body of the manual trigger; exactness of
    the price, termination, what a run may change.  Locale \<open>delivery_env\<close> joins the contracts
    of the database and of Redis.
  \<^item> \<open>Recalc_Runs\<close>: whole runs and sequences of runs: completeness, idempotence, the lock, the
    schedule (\<^verbatim>\<open>app/tasks/scheduler.py\<close>), the error paths.
  \<^item> \<open>Pricing_Deadline\<close>: scheduled runs with the web process working in between: every parcel is
    priced within three ticks.
  \<^item> \<open>Recalc_Races\<close>: runs that overlap, as workers whose reads and commits a schedule
    interleaves: each ends, when they agree, and how they overwrite each other.
  \<^item> \<open>Schemas\<close>: \<^verbatim>\<open>app/schemas\<close>, accepted payloads and response bodies.
  \<^item> \<open>Parcel_Service\<close>: \<^verbatim>\<open>app/services/base.py\<close>, \<^verbatim>\<open>parcel.py\<close>, \<^verbatim>\<open>parcel_type.py\<close>.
  \<^item> \<open>Parcel_Access\<close>: registration, ownership, reads and pages; the lists before and after the
    job.
  \<^item> \<open>Security\<close>: \<^verbatim>\<open>app/core/security.py\<close>.  Locales \<open>crypto_library\<close> (bcrypt, SHA-256) and
    \<open>jwt_library\<close> (PyJWT), extended by \<open>jwt_payloads\<close> (a token fixes its claims).
  \<^item> \<open>Auth_Service\<close>: \<^verbatim>\<open>app/services/auth.py\<close>, every operation with the database each outcome
    leaves.
  \<^item> \<open>Token_Families\<close>: the life of refresh tokens as a step relation; every operation is a
    step; the family invariant by rule induction; sequences of calls.
  \<^item> \<open>Auth_Guarantees\<close>: registration, login, rotation, replay detection, logout.
  \<^item> \<open>Sessions\<close>: an abstract session store (who is logged in, by which secret, until when) and
    the refinement: the token table implements it.
  \<^item> \<open>Refresh_Races\<close>: \<open>refresh\<close> split at its commit (\<open>refresh_read\<close>, \<open>refresh_commit\<close>): when an
    overlapping refresh is as good as one alone, and what goes wrong when it is not.
  \<^item> \<open>Register_Races\<close>: the same for \<open>register\<close>.
  \<^item> \<open>Requests\<close>: the request, \<^verbatim>\<open>app/api/deps.py\<close> (who calls) and \<^verbatim>\<open>app/middlewares/session.py\<close>
    (the anonymous session id).
  \<^item> \<open>Rate_Limit\<close>: \<^verbatim>\<open>app/core/rate_limit.py\<close>.  Locale \<open>fixed_window\<close>: what the \<^verbatim>\<open>limits\<close>
    package does to the counter of a key.
  \<^item> \<open>Api\<close>: the routes that change state (\<^verbatim>\<open>app/api/auth.py\<close>, \<^verbatim>\<open>register_parcel\<close> of
    \<^verbatim>\<open>app/api/parcel.py\<close>, \<^verbatim>\<open>app/tasks/routes.py\<close>): dependencies, validation, rate limit, CSRF
    check, service call, cookies, response; the \<open>platform\<close> holds the settings and every
    third-party library, the \<open>world\<close> the state of the application and of the limiter.
  \<^item> \<open>Api_Guarantees\<close>: the guards of the routes, and lemmas about whole requests.
  \<^item> \<open>Json\<close>: \<^verbatim>\<open>json.dumps\<close> and \<^verbatim>\<open>json.loads\<close> on text, with the round trip.
  \<^item> \<open>Cache\<close>: \<^verbatim>\<open>app/core/cache.py\<close>, keys and the cache-aside wrapper.  Locale \<open>cached_reads\<close>:
    a cached handler over a Redis that obeys \<open>redis_store\<close>.
  \<^item> \<open>Api_Reads\<close>: the GET routes of \<^verbatim>\<open>app/api/parcel.py\<close>, \<^verbatim>\<open>parcel_type.py\<close>, \<^verbatim>\<open>health.py\<close>
    through limit, cache and response model.
  \<^item> \<open>Read_Guarantees\<close>, \<open>Detail_Guarantees\<close>: what a list and a single read answer, from the
    cache or not, over whole histories of requests.
  \<^item> \<open>App\<close>: the composition in \<^verbatim>\<open>app/main.py\<close> (session middleware, routers) and the system of
    web process and scheduler as a step relation.
  \<^item> \<open>Logging\<close>: \<^verbatim>\<open>app/core/logger.py\<close> on a tree of Python's loggers, and who handles a record
    afterwards.  Locale \<open>engine_echo\<close>: what SQLAlchemy documents of \<^verbatim>\<open>echo=True\<close>.
  \<^item> \<open>Processes\<close>: start-up (engine, logging, guard, Sentry), the Redis connection
    (\<^verbatim>\<open>app/redis_client/client.py\<close>), and the shutdown of both processes (\<^verbatim>\<open>app/main.py\<close>,
    \<^verbatim>\<open>app/scheduler_main.py\<close>).
  \<^item> \<open>Contract\<close>: the \<^verbatim>\<open>responses\<close> tables of the routes with \<^verbatim>\<open>app/api/examples.py\<close>, and that
    every answer conforms to them.
  \<^item> \<open>Openapi\<close>: \<^verbatim>\<open>app/core/openapi.py\<close>, and that the security it documents is what the routes
    demand.
  \<^item> \<open>Schema\<close>, \<open>Migrations\<close>, \<open>Schema_Rows\<close>: what Alembic's operations do to a schema and its
    rows (with MySQL's refusals), the six revisions of \<^verbatim>\<open>alembic/versions\<close>, the tables of the
    models, and which rows a schema admits.
  \<^item> \<open>Alembic_Env\<close>: \<^verbatim>\<open>alembic/env.py\<close>, how the URL of the settings gets to the migrations through
    Python's \<^verbatim>\<open>configparser\<close>, the order of the revisions, and the run on the application's
    database.  Locale \<open>database_urls\<close>: the driver does not change which database a URL names.
  \<^item> \<open>Exposition\<close>: the metrics of each process, their sum, and what \<^verbatim>\<open>GET /metrics\<close> of one worker shows.
  \<^item> \<open>Journey\<close>: a parcel from its registration over the scheduled job to the answer its owner gets.
  \<^item> \<open>Spec2Isabelle\<close>: the path of a new customer to the first parcel.

  \<^bold>\<open>State.\<close>  A table is the list of its rows in insertion order.  An operation takes the state
  and returns its result with the state it leaves; \<open>Inl\<close> is a raised exception.  Clock
  readings, UUIDs, salts and random tokens are arguments; time is UTC seconds, the resolution
  of the \<^verbatim>\<open>DATETIME\<close> columns.  The metrics in a state are those of all processes together
  (\<open>Exposition\<close>).  Strings are compared exactly (a binary collation); a collation
  that ignores case would identify more addresses.  Python's integers are \<^typ>\<open>int\<close>.

  \<^bold>\<open>What the lemmas show.\<close>  Per write: which constraints it checks and that it keeps
  \<open>db_ok\<close>.  Per service: its outcome on every branch.  Over time: the job's lock, the cached
  rate, the token families, the cached answers, the records of the whole system.  The batch loop is a \<^verbatim>\<open>partial_function\<close> without fuel, and it is
  proved to end.

  \<^bold>\<open>Third-party code\<close> (MySQL, Redis, httpx, tenacity, bcrypt, PyJWT) is a record argument; the
  locales state the documented behaviour the code relies on, and each is interpreted on an
  executable reference instance, which the witnesses use.

  \<^bold>\<open>Not modelled.\<close>  The pooling of connections and the closing of sessions (\<^verbatim>\<open>app/db\<close>): a session is
  the database an operation is given.  The texts of log messages, the format of exported metrics and
  Alembic's own logging (\<^verbatim>\<open>fileConfig\<close>).  Parsing bodies and query strings into typed values is
  FastAPI's and an argument.  Requests interleave between operations (\<open>App\<close>), refresh and
  registration also at their commit (\<open>Refresh_Races\<close>, \<open>Register_Races\<close>) and the job at every
  batch (\<open>Recalc_Races\<close>); other operations are taken as atomic.  The empty body of a 204
  response is \<^verbatim>\<open>JNull\<close>.
\<close>

subsection \<open>From registration to the first parcel\<close>


definition open_db :: db where
  "open_db = empty_db\<lparr>parcel_types := [\<lparr>pt_id = ''t1'', pt_name = ''misc''\<rparr>]\<rparr>"

definition open_platform :: "(kv, counters) platform" where
  "open_platform = reference_platform\<lparr>pf_settings := default_settings\<rparr>"

definition open_world :: "(kv, counters) world" where
  "open_world = \<lparr>w_app = sample_app\<lparr>app_db := open_db\<rparr>, w_limits = no_counters\<rparr>"

definition first_register :: "http_response \<times> (kv, counters) world" where
  "first_register = register_route open_platform 0 sample_user_draws (sample_draws ''r1'' ''j1'' ''f1'' 0)
     (sample_request ''10.0.0.1'') \<lparr>ur_email = ''a@b.co'', ur_password = ''secret12''\<rparr> open_world"

definition first_token :: string where
  "first_token = create_access_token default_settings reference_jwt 0 ''a'' ''u1'' ''user'' DEFAULT_USER_SCOPES"

definition bearer_request :: request where
  "bearer_request = (sample_request ''10.0.0.1'')\<lparr>rq_headers := [(''authorization'', ''Bearer '' @ first_token)]\<rparr>"

lemma open_db_ok: "db_ok open_db"
  by (simp add: db_ok_defs open_db_def empty_db_def type_row_ok_def)

lemma open_platform_simps [simp]:
  "pf_settings open_platform = default_settings" "pf_crypto open_platform = reference_crypto"
  "pf_jwt open_platform = reference_jwt" "pf_limiter open_platform = reference_limiter"
  "pf_engine open_platform = reference_engine" "pf_email open_platform = (\<lambda>_. True)"
  "pf_bearer open_platform = bearer_of"
  by (simp_all add: open_platform_def reference_platform_def)

lemma first_register_eq:
  "fst first_register = token_page default_settings 201
     (new_auth_result default_settings reference_jwt (sample_draws ''r1'' ''j1'' ''f1'' 0) sample_user)"
  "w_limits (snd first_register) (''20/minute'', r, c) = None"
proof -
  have amount: "parse_nat (takeWhile is_digit ''10/minute'') = 10"
    by (simp add: is_digit_def parse_nat_def digit_val_def)
  have reg: "register default_settings reference_crypto reference_jwt sample_user_draws
      (sample_draws ''r1'' ''j1'' ''f1'' 0) ''a@b.co'' ''secret12'' open_db =
    (Inr (new_auth_result default_settings reference_jwt (sample_draws ''r1'' ''j1'' ''f1'' 0) sample_user),
     open_db\<lparr>users := [sample_user], refresh_tokens := [sample_token]\<rparr>)"
    by (rule sample_register_on) (simp_all add: open_db_def empty_db_def)
  have hit: "l_hit reference_limiter no_counters 0 ''10/minute'' rt cl =
      (no_counters((''10/minute'', rt, cl) := Some (0, 1)), True)" for rt cl
    using amount by (simp add: reference_limiter_def no_counters_def Let_def)
  have eq: "first_register = (token_page default_settings 201
      (new_auth_result default_settings reference_jwt (sample_draws ''r1'' ''j1'' ''f1'' 0) sample_user),
     \<lparr>w_app = sample_app\<lparr>app_db := open_db\<lparr>users := [sample_user], refresh_tokens := [sample_token]\<rparr>\<rparr>,
      w_limits = no_counters((''10/minute'', route_identifier (sample_request ''10.0.0.1''),
        remote_address (sample_request ''10.0.0.1'')) := Some (0, 1))\<rparr>)"
    by (simp add: first_register_def register_route_def with_dependency_def valid_user_register_def
        limited_def limit_def hit open_world_def then_respond_def on_db_def reg)
  show "fst first_register = token_page default_settings 201
     (new_auth_result default_settings reference_jwt (sample_draws ''r1'' ''j1'' ''f1'' 0) sample_user)"
    "w_limits (snd first_register) (''20/minute'', r, c) = None"
    by (simp_all add: eq no_counters_def)
qed


end
